theory Spec2Isabelle
  imports Main
begin

section \<open>Version registry (versioning.py)\<close>

text \<open>
  The frozen dataclass \<^verbatim>\<open>EricVersionConfig\<close> and the three module constants. The tuple
  of supported versions is a list, the per-version dictionary a finite map.
\<close>

record EricVersionConfig =
  eric_version :: string
  druck_param_version :: int
  crypto_param_version :: int

definition SUPPORTED_ERIC_VERSIONS :: "string list" where
  "SUPPORTED_ERIC_VERSIONS = [''41.6.2.0'']"

definition DEFAULT_ERIC_VERSION :: string where
  "DEFAULT_ERIC_VERSION = hd SUPPORTED_ERIC_VERSIONS"

definition VERSION_CONFIGS :: "string \<rightharpoonup> EricVersionConfig" where
  "VERSION_CONFIGS =
     [''41.6.2.0'' \<mapsto>
        \<lparr>eric_version = ''41.6.2.0'', druck_param_version = 4, crypto_param_version = 3\<rparr>]"

definition is_supported_version :: "string \<Rightarrow> bool" where
  "is_supported_version version \<longleftrightarrow> version \<in> set SUPPORTED_ERIC_VERSIONS"

subsection \<open>The regular expression of \<^verbatim>\<open>detect_eric_version\<close>\<close>

text \<open>
  \<^verbatim>\<open>re.compile(r"(\d+\.\d+\.\d+\.\d+)")\<close> is a sequence of items, each a single
  character class or a greedy \<^verbatim>\<open>+\<close> over one. Path names are \<^typ>\<open>string\<close>s; among
  the characters of that type the decimal digits that \<^verbatim>\<open>\d\<close> accepts are exactly
  \<^verbatim>\<open>0\<close> to \<^verbatim>\<open>9\<close>.
\<close>

datatype atom = Digit | Dot

datatype item = One atom | Plus atom

fun atom_matches :: "atom \<Rightarrow> char \<Rightarrow> bool" where
  "atom_matches Digit c = (c \<in> set ''0123456789'')"
| "atom_matches Dot c = (c = CHR ''.'')"

definition pattern :: "item list" where
  "pattern = [Plus Digit, One Dot, Plus Digit, One Dot, Plus Digit, One Dot, Plus Digit]"

text \<open>
  Matching at the start of a string, as the backtracking engine of \<^verbatim>\<open>re\<close> does it: a
  greedy \<^verbatim>\<open>+\<close> takes one character, then first tries to take more, and only when
  that fails hands over to the rest of the pattern. The result is the length of the
  match.
\<close>

fun re_match :: "item list \<Rightarrow> string \<Rightarrow> nat option" where
  "re_match [] s = Some 0"
| "re_match (One a # r) [] = None"
| "re_match (One a # r) (c # cs) =
     (if atom_matches a c then map_option Suc (re_match r cs) else None)"
| "re_match (Plus a # r) [] = None"
| "re_match (Plus a # r) (c # cs) =
     (if atom_matches a c
      then (case re_match (Plus a # r) cs of
              Some n \<Rightarrow> Some (Suc n)
            | None \<Rightarrow> map_option Suc (re_match r cs))
      else None)"

text \<open>
  \<^verbatim>\<open>pattern.search(name)\<close> followed by \<^verbatim>\<open>match.group(1)\<close>: the start positions
  are tried from left to right, the end of the string included; the group spans the whole
  pattern.
\<close>

fun re_search :: "item list \<Rightarrow> string \<Rightarrow> string option" where
  "re_search p [] = (case re_match p [] of Some n \<Rightarrow> Some [] | None \<Rightarrow> None)"
| "re_search p (c # cs) =
     (case re_match p (c # cs) of
        Some n \<Rightarrow> Some (take n (c # cs))
      | None \<Rightarrow> re_search p cs)"

subsection \<open>Paths\<close>

text \<open>
  A resolved absolute POSIX path is the list of its component names below the root, the
  leaf last. \<^verbatim>\<open>Path.name\<close> is the last component (the empty string at the root) and
  \<^verbatim>\<open>Path.parent\<close> drops it (the root is its own parent).
\<close>

type_synonym path = "string list"

definition name :: "path \<Rightarrow> string" where
  "name p = (if p = [] then [] else last p)"

definition parent :: "path \<Rightarrow> path" where
  "parent p = butlast p"

text \<open>
  The components of the text of an absolute, normalised path: the text is cut at every
  slash and empty pieces are dropped.
\<close>

function path_parts :: "string \<Rightarrow> path" where
  "path_parts [] = []"
| "path_parts (c # cs) =
     (if c = CHR ''/'' then path_parts cs
      else takeWhile (\<lambda>x. x \<noteq> CHR ''/'') (c # cs)
             # path_parts (dropWhile (\<lambda>x. x \<noteq> CHR ''/'') cs))"
  by pat_completeness auto
termination
  by (relation "measure length") (auto simp: length_dropWhile_le less_Suc_eq_le)

subsection \<open>\<^verbatim>\<open>detect_eric_version\<close>\<close>

text \<open>
  The \<^verbatim>\<open>while\<close> loop walks from the resolved directory to the root and returns the
  first match. A match object is always true, so \<^verbatim>\<open>if match\<close> is the test for a match.
\<close>

function detect_loop :: "path \<Rightarrow> string option" where
  "detect_loop current =
     (if current \<noteq> parent current
      then (case re_search pattern (name current) of
              Some m \<Rightarrow> Some m
            | None \<Rightarrow> detect_loop (parent current))
      else None)"
  by pat_completeness auto
termination
proof (relation "measure length")
  show "wf (measure length)" by simp
next
  fix current :: path
  assume "current \<noteq> parent current"
  then have "current \<noteq> []" by (auto simp: parent_def)
  then show "(parent current, current) \<in> measure length"
    by (simp add: parent_def)
qed

text \<open>
  \<^verbatim>\<open>Path(eric_home).expanduser().resolve()\<close> depends on the file system, the home
  directory and the working directory; it is the parameter \<open>resolve\<close>, from the text of a
  path to the text of its absolute form.
\<close>

definition detect_eric_version :: "(string \<Rightarrow> string) \<Rightarrow> string \<Rightarrow> string option" where
  "detect_eric_version resolve eric_home = detect_loop (path_parts (resolve eric_home))"

subsection \<open>What the specification calls a version substring\<close>

text \<open>
  Following the words of the specification: a version identifier is four non-empty
  groups of digits separated by dots, and a component carries one when it has such a
  substring.
\<close>

definition digits :: "string \<Rightarrow> bool" where
  "digits s \<longleftrightarrow> s \<noteq> [] \<and> (\<forall>c\<in>set s. c \<in> set ''0123456789'')"

definition is_version :: "string \<Rightarrow> bool" where
  "is_version v \<longleftrightarrow>
     (\<exists>a b c d. digits a \<and> digits b \<and> digits c \<and> digits d \<and>
        v = a @ ''.'' @ b @ ''.'' @ c @ ''.'' @ d)"

definition has_version :: "string \<Rightarrow> bool" where
  "has_version nm \<longleftrightarrow> (\<exists>pre v post. nm = pre @ v @ post \<and> is_version v)"


section \<open>Errors\<close>

text \<open>
  The exceptions that can leave the functions below. \<^verbatim>\<open>EricLibraryLoadError\<close> is the
  class of loader.py; it is also what the constructor of the client raises for a version
  mismatch, so it is the fatal configuration error of the specification. The text of its
  message is kept as the values that are formatted into it. \<^verbatim>\<open>EricError\<close> carries the
  return code and the message. \<open>ForeignError\<close> stands for an exception raised inside a
  foreign call, \<open>OSError\<close> for a failing file-system call.
  \<^verbatim>\<open>UnicodeEncodeError\<close> is what \<^verbatim>\<open>str.encode\<close> raises.
\<close>

datatype load_msg =
    HomeNotSet
  | ExpectedMismatch string string
  | DetectedMismatch string string string
  | NotSupported string "string list"

datatype error =
    EricError int "string option"
  | EricLibraryLoadError load_msg
  | TypeError
  | KeyError string
  | UnicodeEncodeError
  | ForeignError string
  | OSError string

text \<open>
  Modelled from the spec: \<^verbatim>\<open>check_eric_result\<close> of errors.py, which is not among the
  source files. Section 4.3: the success code 0 is the only code that does not raise; every
  other code raises the engine error carrying the code and the message. The two tests of
  test_errors.py say the same.
\<close>

definition check_eric_result :: "int \<Rightarrow> string option \<Rightarrow> error + unit" where
  "check_eric_result rc_value message =
     (if rc_value = 0 then Inr () else Inl (EricError rc_value message))"

section \<open>Python text\<close>

text \<open>
  A Python \<^verbatim>\<open>str\<close> is a sequence of code points. \<^verbatim>\<open>s.encode("utf-8")\<close> raises
  \<^verbatim>\<open>UnicodeEncodeError\<close> when \<open>s\<close> has a surrogate code point (U+D800 to U+DFFF)
  and otherwise gives the bytes of the code points, one to four for each. The code points
  of Python are the numbers up to U+10FFFF; the lists of larger numbers are more than the
  texts of Python, and what is proved for all lists holds for these.
\<close>

type_synonym pystr = "nat list"

definition surrogate :: "nat \<Rightarrow> bool" where
  "surrogate c \<longleftrightarrow> 55296 \<le> c \<and> c \<le> 57343"

definition utf8_bytes :: "nat \<Rightarrow> string" where
  "utf8_bytes c =
     (if c < 128 then [char_of c]
      else if c < 2048 then [char_of (192 + c div 64), char_of (128 + c mod 64)]
      else if c < 65536
      then [char_of (224 + c div 4096), char_of (128 + c div 64 mod 64),
            char_of (128 + c mod 64)]
      else [char_of (240 + c div 262144), char_of (128 + c div 4096 mod 64),
            char_of (128 + c div 64 mod 64), char_of (128 + c mod 64)])"

definition str_encode :: "pystr \<Rightarrow> error + string" where
  "str_encode s =
     (if list_ex surrogate s then Inl UnicodeEncodeError
      else Inr (concat (map utf8_bytes s)))"

text \<open>
  \<^verbatim>\<open>s.encode("utf-8") if s is not None else None\<close>.
\<close>

definition encode_opt :: "pystr option \<Rightarrow> error + string option" where
  "encode_opt s =
     (case s of
        None \<Rightarrow> Inr None
      | Some p \<Rightarrow> (case str_encode p of Inl e \<Rightarrow> Inl e | Inr b \<Rightarrow> Inr (Some b)))"

text \<open>
  The \<^verbatim>\<open>str\<close> whose code points are the characters of a \<^typ>\<open>string\<close>.
\<close>

definition text_of :: "string \<Rightarrow> pystr" where
  "text_of s = map of_char s"

section \<open>The foreign interface\<close>

text \<open>
  The parameter structures that facade.py fills in (the callback fields are always null and
  are left out), the flags of a transaction and the arguments of one call of
  \<^verbatim>\<open>EricBearbeiteVorgang\<close>. The texts in them are the byte strings that are handed
  over, after the encoding to UTF-8. The flags are the set of the flag
  constants that are or-ed together; their values are in types.py, which is not among the
  source files.
\<close>

record eric_druck_parameter_t =
  vorschau :: int
  ersteSeite :: int
  duplexDruck :: int
  pdfName :: string
  fussText :: "string option"

record eric_verschluesselungs_parameter_t =
  zertifikatHandle :: nat
  pin :: "string option"
  abrufCode :: "string option"

datatype EricBearbeitungFlag = ERIC_VALIDIERE | ERIC_SENDE | ERIC_DRUCKE

record request =
  xml :: string
  datenart_version :: string
  flags :: "EricBearbeitungFlag set"
  print_params :: "eric_druck_parameter_t option"
  crypto_params :: "eric_verschluesselungs_parameter_t option"
  transfer :: "int option"
  response_buffer :: nat
  server_buffer :: nat

text \<open>
  Every call into api.py is recorded, in the order in which it is made.
\<close>

datatype event =
    Mkdir string
  | InitEric string string
  | ShutdownEric
  | GetErrorText int
  | CreateBuffer nat
  | ReadBuffer nat
  | FreeBuffer nat
  | BearbeiteVorgang request
  | GetHandleToCertificate string "string option"
  | CloseHandleToCertificate nat

text \<open>
  What one call of \<^verbatim>\<open>EricBearbeiteVorgang\<close> leaves behind when it returns: the return
  code, the bytes written to the two buffers and the value in the transfer holder (read only
  when a holder was passed).
\<close>

record reply =
  rc :: int
  validation_out :: string
  server_out :: string
  transfer_out :: int

text \<open>
  The engine is closed source. It is a parameter: each entry point answers as a function of
  the calls made so far and of its arguments, so that nothing is assumed about it beyond
  being deterministic in its history. A foreign call may also raise (\<open>Inl\<close>).
  \<^verbatim>\<open>EricTransferHandle\<close> is the constructor of the ctypes integer type of types.py, which
  is not among the source files; \<open>utf8_decode\<close> is
  \<^verbatim>\<open>bytes.decode("utf-8", errors="replace")\<close>, which is total.
\<close>

record engine =
  init_rc :: "event list \<Rightarrow> string \<Rightarrow> string \<Rightarrow> int"
  shutdown_rc :: "event list \<Rightarrow> int"
  error_text :: "event list \<Rightarrow> int \<Rightarrow> string option"
  bearbeite :: "event list \<Rightarrow> request \<Rightarrow> error + reply"
  get_handle :: "event list \<Rightarrow> string \<Rightarrow> string option \<Rightarrow> error + (int \<times> nat \<times> nat)"
  close_handle :: "event list \<Rightarrow> nat \<Rightarrow> int"
  EricTransferHandle :: "int \<Rightarrow> int"
  utf8_decode :: "string \<Rightarrow> string"

text \<open>
  The state outside the client object: the environment variables, the file system as far as
  it is used, the lines printed, the calls made and the engine buffers that are alive.
\<close>

record world =
  environ :: "string \<rightharpoonup> string"
  resolve :: "string \<Rightarrow> string"
  cwd :: string
  mkdir_error :: "string \<Rightarrow> error option"
  stdout :: "load_msg list"
  calls :: "event list"
  buffers :: "nat \<rightharpoonup> string"
  next_buffer :: nat

definition log_call :: "event \<Rightarrow> world \<Rightarrow> world" where
  "log_call e w = w\<lparr>calls := calls w @ [e]\<rparr>"

text \<open>
  Sequencing with exceptions: the second step runs only when the first one returned.
\<close>

definition and_then ::
  "(error + 'a) \<times> world \<Rightarrow> ('a \<Rightarrow> world \<Rightarrow> (error + 'b) \<times> world) \<Rightarrow> (error + 'b) \<times> world" where
  "and_then m f = (case m of (Inl e, w) \<Rightarrow> (Inl e, w) | (Inr x, w) \<Rightarrow> f x w)"

text \<open>
  Modelled from the spec: \<^verbatim>\<open>create_buffer\<close> of api.py, which is not among the source
  files. Section 4.4 lists buffer allocate among the operations of the FFI surface and
  section 3 has the buffer allocated before a call; the new buffer is empty and gets a
  handle that was not in use.
\<close>

definition create_buffer :: "world \<Rightarrow> nat \<times> world" where
  "create_buffer w =
     (let b = next_buffer w
      in (b, log_call (CreateBuffer b)
               (w\<lparr>buffers := (buffers w)(b \<mapsto> []), next_buffer := Suc b\<rparr>)))"

text \<open>
  Modelled from the spec: \<^verbatim>\<open>read_buffer\<close> of api.py, which is not among the source
  files. Section 4.4: read-as-bytes, the bytes the engine wrote into the buffer.
\<close>

definition read_buffer :: "nat \<Rightarrow> world \<Rightarrow> string \<times> world" where
  "read_buffer b w =
     ((case buffers w b of Some bytes \<Rightarrow> bytes | None \<Rightarrow> []), log_call (ReadBuffer b) w)"

text \<open>
  Modelled from the spec: \<^verbatim>\<open>free_buffer\<close> of api.py, which is not among the source
  files. Section 4.4: free; the buffer is not alive afterwards.
\<close>

definition free_buffer :: "nat \<Rightarrow> world \<Rightarrow> world" where
  "free_buffer b w = log_call (FreeBuffer b) (w\<lparr>buffers := (buffers w)(b := None)\<rparr>)"

text \<open>
  Modelled from the spec: \<^verbatim>\<open>get_error_text\<close> of api.py, which is not among the source
  files. Section 4.3: \<^verbatim>\<open>text_for(code) -> optional string\<close>, by calling into the
  engine's own lookup.
\<close>

definition get_error_text :: "engine \<Rightarrow> int \<Rightarrow> world \<Rightarrow> string option \<times> world" where
  "get_error_text eng rc_value w =
     (error_text eng (calls w) rc_value, log_call (GetErrorText rc_value) w)"

text \<open>
  Modelled from the spec: \<^verbatim>\<open>EricBearbeiteVorgang\<close> of api.py, which is not among the
  source files. Section 4.4: \<^verbatim>\<open>process_transaction\<close> takes the request and the two
  buffers as out parameters and returns a code; the engine may update the transfer handle it
  was given a pointer to. What the engine answers is the parameter \<open>bearbeite\<close>. The
  function returns the code together with the value the transfer holder has afterwards.
\<close>

definition EricBearbeiteVorgang ::
  "engine \<Rightarrow> request \<Rightarrow> world \<Rightarrow> (error + int \<times> int option) \<times> world" where
  "EricBearbeiteVorgang eng rq w =
     (case bearbeite eng (calls w) rq of
        Inl e \<Rightarrow> (Inl e, log_call (BearbeiteVorgang rq) w)
      | Inr rp \<Rightarrow>
          (Inr (rc rp, (case transfer rq of None \<Rightarrow> None | Some h \<Rightarrow> Some (transfer_out rp))),
           log_call (BearbeiteVorgang rq)
             (w\<lparr>buffers := (buffers w)(response_buffer rq \<mapsto> validation_out rp,
                                          server_buffer rq \<mapsto> server_out rp)\<rparr>)))"

text \<open>
  Modelled from the spec: \<^verbatim>\<open>EricGetHandleToCertificate\<close> of api.py, which is not among
  the source files. Section 4.4: \<^verbatim>\<open>get_certificate_handle\<close>; here the raw call, which
  returns a code and fills in the handle and the PIN information. What the engine answers
  is the parameter \<open>get_handle\<close>.
\<close>

definition EricGetHandleToCertificate ::
  "engine \<Rightarrow> string \<Rightarrow> string option \<Rightarrow> world \<Rightarrow> (error + int \<times> nat \<times> nat) \<times> world" where
  "EricGetHandleToCertificate eng cert_path pin_value w =
     (get_handle eng (calls w) cert_path pin_value,
      log_call (GetHandleToCertificate cert_path pin_value) w)"

text \<open>
  Modelled from the spec: \<^verbatim>\<open>EricCloseHandleToCertificate\<close> of api.py, which is not among
  the source files. Section 4.4: \<^verbatim>\<open>release_certificate_handle\<close> must not raise; it
  returns the code of the engine, the parameter \<open>close_handle\<close>.
\<close>

definition EricCloseHandleToCertificate :: "engine \<Rightarrow> nat \<Rightarrow> world \<Rightarrow> int \<times> world" where
  "EricCloseHandleToCertificate eng h w =
     (close_handle eng (calls w) h, log_call (CloseHandleToCertificate h) w)"

text \<open>
  Modelled from the spec: \<^verbatim>\<open>init_eric\<close> of api.py, which is not among the source files.
  Section 4.4: \<^verbatim>\<open>init(home, log_dir) -> code\<close>.
\<close>

definition init_eric :: "engine \<Rightarrow> string \<Rightarrow> string \<Rightarrow> world \<Rightarrow> int \<times> world" where
  "init_eric eng home logs w = (init_rc eng (calls w) home logs, log_call (InitEric home logs) w)"

text \<open>
  Modelled from the spec: \<^verbatim>\<open>shutdown_eric\<close> of api.py, which is not among the source
  files. Section 4.4: \<^verbatim>\<open>shutdown() -> code\<close>.
\<close>

definition shutdown_eric :: "engine \<Rightarrow> world \<Rightarrow> int \<times> world" where
  "shutdown_eric eng w = (shutdown_rc eng (calls w), log_call ShutdownEric w)"

section \<open>Locating the installation (loader.py)\<close>

text \<open>
  Python's truth of an optional string: \<^verbatim>\<open>None\<close> and the empty string are false.
\<close>

definition truthy :: "'a list option \<Rightarrow> bool" where
  "truthy x = (case x of None \<Rightarrow> False | Some s \<Rightarrow> s \<noteq> [])"

definition resolve_home :: "world \<Rightarrow> string option \<Rightarrow> error + string" where
  "resolve_home w eric_home =
     (let env_home = environ w ''ERIC_HOME''
      in if eric_home = None \<and> env_home = None
         then Inl (EricLibraryLoadError HomeNotSet)
         else (case (if truthy eric_home then eric_home else env_home) of
                 None \<Rightarrow> Inl TypeError
               | Some p \<Rightarrow> Inr (resolve w p)))"

definition eric_plugin_path :: "world \<Rightarrow> string option \<Rightarrow> error + string" where
  "eric_plugin_path w eric_home = resolve_home w eric_home"

section \<open>The client (facade.py)\<close>

record EricResult =
  code :: int
  validation_response :: string
  server_response :: string
  transfer_handle :: "int option"

record EricClient =
  eric_home :: string
  log_dir :: string
  initialized :: bool
  detected_eric_version :: "string option"
  version_config :: EricVersionConfig

subsection \<open>The constructor\<close>

text \<open>
  \<^verbatim>\<open>str.lower\<close> on the characters of \<^typ>\<open>string\<close>: the capital letters of ASCII and of
  Latin-1 move up by 32, every other character stays.
\<close>

definition lower_char :: "char \<Rightarrow> char" where
  "lower_char c =
     (let n = (of_char c :: nat)
      in if (65 \<le> n \<and> n \<le> 90) \<or> (192 \<le> n \<and> n \<le> 222 \<and> n \<noteq> 215)
         then char_of (n + 32) else c)"

definition lower :: "string \<Rightarrow> string" where
  "lower s = map lower_char s"

text \<open>
  \<^verbatim>\<open>x or d\<close> for an optional string \<open>x\<close>.
\<close>

definition or_else :: "string option \<Rightarrow> string \<Rightarrow> string" where
  "or_else x d = (case x of None \<Rightarrow> d | Some s \<Rightarrow> if s \<noteq> [] then s else d)"

definition version_key_of :: "string option \<Rightarrow> string option \<Rightarrow> string" where
  "version_key_of eric_version_arg detected_version =
     or_else eric_version_arg (or_else detected_version DEFAULT_ERIC_VERSION)"

definition policy_of :: "world \<Rightarrow> string" where
  "policy_of w =
     lower (case environ w ''ERIC_VERSION_POLICY'' of None \<Rightarrow> ''warn'' | Some p \<Rightarrow> p)"

text \<open>
  The local function \<^verbatim>\<open>_handle_mismatch\<close>, with the policy it closes over as an argument.
\<close>

definition handle_mismatch :: "string \<Rightarrow> load_msg \<Rightarrow> world \<Rightarrow> (error + unit) \<times> world" where
  "handle_mismatch policy msg w =
     (if policy = ''strict'' then (Inl (EricLibraryLoadError msg), w)
      else if policy = ''warn'' then (Inr (), w\<lparr>stdout := stdout w @ [msg]\<rparr>)
      else (Inr (), w))"

text \<open>
  The three checks of the constructor, in the order of the source.
\<close>

definition check_expected :: "string \<Rightarrow> string \<Rightarrow> string option \<Rightarrow> world \<Rightarrow> (error + unit) \<times> world" where
  "check_expected policy version_key expected_env w =
     (case expected_env of
        None \<Rightarrow> (Inr (), w)
      | Some e \<Rightarrow>
          if e \<noteq> [] \<and> version_key \<noteq> e
          then handle_mismatch policy (ExpectedMismatch version_key e) w
          else (Inr (), w))"

definition check_detected ::
  "string \<Rightarrow> string \<Rightarrow> string option \<Rightarrow> string \<Rightarrow> world \<Rightarrow> (error + unit) \<times> world" where
  "check_detected policy version_key detected_version home w =
     (case detected_version of
        None \<Rightarrow> (Inr (), w)
      | Some d \<Rightarrow>
          if d \<noteq> [] \<and> d \<noteq> version_key
          then handle_mismatch policy (DetectedMismatch d home version_key) w
          else (Inr (), w))"

definition check_supported :: "string \<Rightarrow> string \<Rightarrow> world \<Rightarrow> (error + unit) \<times> world" where
  "check_supported policy version_key w =
     (if version_key \<notin> set SUPPORTED_ERIC_VERSIONS
      then handle_mismatch policy (NotSupported version_key SUPPORTED_ERIC_VERSIONS) w
      else (Inr (), w))"

text \<open>
  \<^verbatim>\<open>VERSION_CONFIGS.get(version_key, VERSION_CONFIGS[DEFAULT_ERIC_VERSION])\<close>: the
  default is looked up first, as an argument of the call, and a missing key raises there.
\<close>

definition config_for :: "string \<Rightarrow> error + EricVersionConfig" where
  "config_for version_key =
     (case VERSION_CONFIGS DEFAULT_ERIC_VERSION of
        None \<Rightarrow> Inl (KeyError DEFAULT_ERIC_VERSION)
      | Some dflt \<Rightarrow>
          Inr (case VERSION_CONFIGS version_key of Some c \<Rightarrow> c | None \<Rightarrow> dflt))"

definition home_of :: "world \<Rightarrow> string option \<Rightarrow> error + string" where
  "home_of w eric_home_arg =
     (case eric_home_arg of
        None \<Rightarrow> eric_plugin_path w None
      | Some h \<Rightarrow> if h \<noteq> [] then Inr h else eric_plugin_path w None)"

definition EricClient_init ::
  "string option \<Rightarrow> string option \<Rightarrow> string option \<Rightarrow> world \<Rightarrow> (error + EricClient) \<times> world" where
  "EricClient_init eric_home_arg log_dir_arg eric_version_arg w =
     (case home_of w eric_home_arg of
        Inl e \<Rightarrow> (Inl e, w)
      | Inr home \<Rightarrow>
          (let logs = or_else log_dir_arg (cwd w);
               detected_version = detect_eric_version (resolve w) home;
               version_key = version_key_of eric_version_arg detected_version;
               expected_env = environ w ''ERIC_EXPECTED_VERSION'';
               policy = policy_of w
           in and_then (check_expected policy version_key expected_env w) (\<lambda>_ w1.
              and_then (check_detected policy version_key detected_version home w1) (\<lambda>_ w2.
              and_then (check_supported policy version_key w2) (\<lambda>_ w3.
                (case config_for version_key of
                   Inl e \<Rightarrow> (Inl e, w3)
                 | Inr cfg \<Rightarrow>
                     (Inr \<lparr>eric_home = home, log_dir = logs, initialized = False,
                           detected_eric_version = detected_version,
                           version_config = cfg\<rparr>, w3)))))))"

subsection \<open>The life cycle\<close>

text \<open>
  A method changes the client object and may raise; it returns the outcome, the client
  afterwards and the world afterwards.
\<close>

definition initialize :: "engine \<Rightarrow> EricClient \<Rightarrow> world \<Rightarrow> (error + unit) \<times> EricClient \<times> world" where
  "initialize eng self w =
     (let w1 = log_call (Mkdir (log_dir self)) w
      in case mkdir_error w (log_dir self) of
           Some e \<Rightarrow> (Inl e, self, w1)
         | None \<Rightarrow>
             (let (r, w2) = init_eric eng (eric_home self) (log_dir self) w1;
                  (msg, w3) = get_error_text eng r w2
              in case check_eric_result r msg of
                   Inl e \<Rightarrow> (Inl e, self, w3)
                 | Inr _ \<Rightarrow> (Inr (), self\<lparr>initialized := True\<rparr>, w3)))"

definition close :: "engine \<Rightarrow> EricClient \<Rightarrow> world \<Rightarrow> (error + unit) \<times> EricClient \<times> world" where
  "close eng self w =
     (if \<not> initialized self then (Inr (), self, w)
      else (let (r, w1) = shutdown_eric eng w;
                (msg, w2) = get_error_text eng r w1
            in case check_eric_result r msg of
                 Inl e \<Rightarrow> (Inl e, self, w2)
               | Inr _ \<Rightarrow> (Inr (), self\<lparr>initialized := False\<rparr>, w2)))"

subsection \<open>Parameters\<close>

text \<open>
  \<^verbatim>\<open>_build_print_params\<close> encodes the text of the path and
  \<^verbatim>\<open>_build_crypto_params\<close> the PIN; either encoding may raise.
\<close>

definition build_print_params ::
  "pystr option \<Rightarrow> bool \<Rightarrow> error + eric_druck_parameter_t option" where
  "build_print_params pdf_path preview =
     (case pdf_path of
        None \<Rightarrow> Inr None
      | Some p \<Rightarrow>
          (case str_encode p of
             Inl e \<Rightarrow> Inl e
           | Inr name_bytes \<Rightarrow>
               Inr (Some \<lparr>vorschau = (if preview then 1 else 0), ersteSeite = 0,
                          duplexDruck = 0, pdfName = name_bytes, fussText = None\<rparr>)))"

definition build_crypto_params ::
  "nat \<Rightarrow> pystr option \<Rightarrow> error + eric_verschluesselungs_parameter_t" where
  "build_crypto_params cert_handle pin_value =
     (case encode_opt pin_value of
        Inl e \<Rightarrow> Inl e
      | Inr pin_bytes \<Rightarrow>
          Inr \<lparr>zertifikatHandle = cert_handle, pin = pin_bytes, abrufCode = None\<rparr>)"

text \<open>
  \<^verbatim>\<open>Path(pdf_path) if pdf_path else None\<close>. A path is given by its text, the value of
  \<^verbatim>\<open>str\<close> on it; the empty text stands for the empty string, which is falsy.
\<close>

definition pdf_arg :: "pystr option \<Rightarrow> pystr option" where
  "pdf_arg pdf_path = (if truthy pdf_path then pdf_path else None)"

subsection \<open>\<^verbatim>\<open>_process\<close>\<close>

text \<open>
  The body of the \<^verbatim>\<open>try\<close> block: the call, the lookup of the error text, the check of
  the return code, and only then the reading of the two buffers and of the transfer holder.
\<close>

definition process_try :: "engine \<Rightarrow> request \<Rightarrow> world \<Rightarrow> (error + EricResult) \<times> world" where
  "process_try eng rq w =
     and_then (EricBearbeiteVorgang eng rq w) (\<lambda>(r, transfer_after) w1.
       (let (msg, w2) = get_error_text eng r w1
        in and_then (check_eric_result r msg, w2) (\<lambda>_ w3.
             (let (validation_bytes, w4) = read_buffer (response_buffer rq) w3;
                  (server_bytes, w5) = read_buffer (server_buffer rq) w4
              in (Inr \<lparr>code = r,
                        validation_response = utf8_decode eng validation_bytes,
                        server_response = utf8_decode eng server_bytes,
                        transfer_handle = transfer_after\<rparr>, w5)))))"

text \<open>
  \<^verbatim>\<open>_process\<close> from the creation of the buffers on, given the encoded texts: the two
  buffers are created before the \<^verbatim>\<open>try\<close> and freed in its \<^verbatim>\<open>finally\<close> clause,
  whatever the body did.
\<close>

definition process_run ::
  "engine \<Rightarrow> string \<Rightarrow> string \<Rightarrow> EricBearbeitungFlag set \<Rightarrow> eric_druck_parameter_t option \<Rightarrow>
   eric_verschluesselungs_parameter_t option \<Rightarrow> int option \<Rightarrow> world \<Rightarrow>
   (error + EricResult) \<times> world" where
  "process_run eng xml_bytes dav_bytes fl pp cp transfer_arg w =
     (let (rb, w1) = create_buffer w;
          (sb, w2) = create_buffer w1;
          transfer_holder =
            (case transfer_arg of
               None \<Rightarrow> None
             | Some h \<Rightarrow> Some (EricTransferHandle eng (if h \<noteq> 0 then h else 0)));
          rq = \<lparr>xml = xml_bytes, datenart_version = dav_bytes, flags = fl,
                print_params = pp, crypto_params = cp, transfer = transfer_holder,
                response_buffer = rb, server_buffer = sb\<rparr>;
          (outcome, w3) = process_try eng rq w2;
          w4 = free_buffer rb w3;
          w5 = free_buffer sb w4
      in (outcome, w5))"

text \<open>
  \<^verbatim>\<open>_process\<close>: the two texts are encoded first, before any buffer is created; an
  encoding that raises leaves the function there.
\<close>

definition process ::
  "engine \<Rightarrow> pystr \<Rightarrow> pystr \<Rightarrow> EricBearbeitungFlag set \<Rightarrow> eric_druck_parameter_t option \<Rightarrow>
   eric_verschluesselungs_parameter_t option \<Rightarrow> int option \<Rightarrow> world \<Rightarrow>
   (error + EricResult) \<times> world" where
  "process eng xml_text dav fl pp cp transfer_arg w =
     (case str_encode xml_text of
        Inl e \<Rightarrow> (Inl e, w)
      | Inr xml_bytes \<Rightarrow>
          (case str_encode dav of
             Inl e \<Rightarrow> (Inl e, w)
           | Inr dav_bytes \<Rightarrow> process_run eng xml_bytes dav_bytes fl pp cp transfer_arg w))"

subsection \<open>\<^verbatim>\<open>validate_xml\<close> and \<^verbatim>\<open>send_xml\<close>\<close>

definition validate_xml ::
  "engine \<Rightarrow> pystr \<Rightarrow> pystr \<Rightarrow> pystr option \<Rightarrow> world \<Rightarrow> (error + EricResult) \<times> world" where
  "validate_xml eng xml_text dav pdf_path w =
     (case build_print_params (pdf_arg pdf_path) True of
        Inl e \<Rightarrow> (Inl e, w)
      | Inr print_params_struct \<Rightarrow>
          (let fl = {ERIC_VALIDIERE}
                      \<union> (if print_params_struct \<noteq> None then {ERIC_DRUCKE} else {})
           in process eng xml_text dav fl print_params_struct None None w))"

text \<open>
  \<^verbatim>\<open>_load_certificate\<close>: the text of the path and the PIN are encoded as arguments of
  the call, so before it is made.
\<close>

definition load_certificate ::
  "engine \<Rightarrow> pystr \<Rightarrow> pystr option \<Rightarrow> world \<Rightarrow> (error + nat \<times> nat) \<times> world" where
  "load_certificate eng cert_path pin_value w =
     (case str_encode cert_path of
        Inl e \<Rightarrow> (Inl e, w)
      | Inr path_bytes \<Rightarrow>
          (case encode_opt pin_value of
             Inl e \<Rightarrow> (Inl e, w)
           | Inr pin_bytes \<Rightarrow>
               and_then (EricGetHandleToCertificate eng path_bytes pin_bytes w)
                 (\<lambda>(r, h, info_pin) w1.
                    (let (msg, w2) = get_error_text eng r w1
                     in and_then (check_eric_result r msg, w2)
                          (\<lambda>_ w3. (Inr (h, info_pin), w3))))))"

text \<open>
  The print parameters are built and the certificate is loaded before the \<^verbatim>\<open>try\<close>;
  the crypto parameters are built and \<^verbatim>\<open>_process\<close> is called inside it; the
  \<^verbatim>\<open>finally\<close> clause closes the handle and drops the code that the call returns.
\<close>

definition send_xml ::
  "engine \<Rightarrow> pystr \<Rightarrow> pystr \<Rightarrow> pystr \<Rightarrow> pystr option \<Rightarrow> pystr option \<Rightarrow> int option \<Rightarrow>
   world \<Rightarrow> (error + EricResult) \<times> world" where
  "send_xml eng xml_text dav certificate_path pin_value pdf_path transfer_arg w =
     (case build_print_params (pdf_arg pdf_path) False of
        Inl e \<Rightarrow> (Inl e, w)
      | Inr print_params_struct \<Rightarrow>
          (let fl = {ERIC_VALIDIERE, ERIC_SENDE}
                      \<union> (if print_params_struct \<noteq> None then {ERIC_DRUCKE} else {})
           in and_then (load_certificate eng certificate_path pin_value w)
                (\<lambda>(cert_handle, info_pin_support) w1.
                   (let (result, w2) =
                          (case build_crypto_params cert_handle pin_value of
                             Inl e \<Rightarrow> (Inl e, w1)
                           | Inr crypto_params_struct \<Rightarrow>
                               process eng xml_text dav fl print_params_struct
                                 (Some crypto_params_struct) transfer_arg w1);
                        (ignored, w3) = EricCloseHandleToCertificate eng cert_handle w2
                    in (result, w3)))))"


section \<open>Observing the calls\<close>

text \<open>
  The calls that were added between two worlds, and the kinds of call that the properties
  below count.
\<close>

definition new_calls :: "world \<Rightarrow> world \<Rightarrow> event list" where
  "new_calls w w' = drop (length (calls w)) (calls w')"

fun is_create :: "event \<Rightarrow> bool" where
  "is_create (CreateBuffer b) = True"
| "is_create e = False"

fun is_free :: "event \<Rightarrow> bool" where
  "is_free (FreeBuffer b) = True"
| "is_free e = False"

fun is_read :: "event \<Rightarrow> bool" where
  "is_read (ReadBuffer b) = True"
| "is_read e = False"

fun is_transaction :: "event \<Rightarrow> bool" where
  "is_transaction (BearbeiteVorgang rq) = True"
| "is_transaction e = False"

fun is_release :: "event \<Rightarrow> bool" where
  "is_release (CloseHandleToCertificate h) = True"
| "is_release e = False"

fun is_shutdown :: "event \<Rightarrow> bool" where
  "is_shutdown ShutdownEric = True"
| "is_shutdown e = False"

text \<open>
  The request that \<^verbatim>\<open>_process\<close> hands to the engine when it starts in world \<open>w\<close>, and
  the calls the engine has seen at that moment.
\<close>

definition request_of ::
  "engine \<Rightarrow> string \<Rightarrow> string \<Rightarrow> EricBearbeitungFlag set \<Rightarrow> eric_druck_parameter_t option \<Rightarrow>
   eric_verschluesselungs_parameter_t option \<Rightarrow> int option \<Rightarrow> world \<Rightarrow> request" where
  "request_of eng xml_text dav fl pp cp transfer_arg w =
     \<lparr>xml = xml_text, datenart_version = dav, flags = fl, print_params = pp,
      crypto_params = cp,
      transfer = (case transfer_arg of None \<Rightarrow> None | Some h \<Rightarrow> Some (EricTransferHandle eng h)),
      response_buffer = next_buffer w, server_buffer = Suc (next_buffer w)\<rparr>"

definition after_create :: "world \<Rightarrow> world" where
  "after_create w = snd (create_buffer (snd (create_buffer w)))"

definition history_of :: "world \<Rightarrow> event list" where
  "history_of w = calls w @ [CreateBuffer (next_buffer w), CreateBuffer (Suc (next_buffer w))]"

text \<open>
  The requests that \<^verbatim>\<open>validate_xml\<close> and \<^verbatim>\<open>send_xml\<close> build from the encoded
  texts and the print parameters, the latter once the certificate handle \<open>h\<close> is there.
\<close>

definition validate_request ::
  "engine \<Rightarrow> string \<Rightarrow> string \<Rightarrow> eric_druck_parameter_t option \<Rightarrow> world \<Rightarrow> request" where
  "validate_request eng xml_bytes dav_bytes pp w =
     request_of eng xml_bytes dav_bytes
       ({ERIC_VALIDIERE} \<union> (if pp \<noteq> None then {ERIC_DRUCKE} else {})) pp None None w"

definition send_request ::
  "engine \<Rightarrow> string \<Rightarrow> string \<Rightarrow> nat \<Rightarrow> string option \<Rightarrow> eric_druck_parameter_t option \<Rightarrow>
   int option \<Rightarrow> world \<Rightarrow> request" where
  "send_request eng xml_bytes dav_bytes h pin_bytes pp transfer_arg w =
     request_of eng xml_bytes dav_bytes
       ({ERIC_VALIDIERE, ERIC_SENDE} \<union> (if pp \<noteq> None then {ERIC_DRUCKE} else {})) pp
       (Some \<lparr>zertifikatHandle = h, pin = pin_bytes, abrufCode = None\<rparr>) transfer_arg w"

section \<open>The mismatch reports\<close>

text \<open>
  Following the words of the specification: after the identifier is picked, three
  independent checks run, each producing a mismatch report if it fails (chosen against
  expected, detected against chosen, chosen against the supported set). \<open>mismatches\<close>
  lists the reports in that order; \<open>report\<close> hands the report of one check, if there is
  one, to \<^verbatim>\<open>_handle_mismatch\<close>; \<open>new_client\<close> is the client the constructor leaves.
\<close>

definition expected_report :: "string \<Rightarrow> string option \<Rightarrow> load_msg list" where
  "expected_report version_key expected_env =
     (case expected_env of
        None \<Rightarrow> []
      | Some e \<Rightarrow> if e \<noteq> [] \<and> version_key \<noteq> e then [ExpectedMismatch version_key e] else [])"

definition detected_report :: "string \<Rightarrow> string option \<Rightarrow> string \<Rightarrow> load_msg list" where
  "detected_report version_key detected_version home =
     (case detected_version of
        None \<Rightarrow> []
      | Some d \<Rightarrow>
          if d \<noteq> [] \<and> d \<noteq> version_key then [DetectedMismatch d home version_key] else [])"

definition supported_report :: "string \<Rightarrow> load_msg list" where
  "supported_report version_key =
     (if version_key \<notin> set SUPPORTED_ERIC_VERSIONS
      then [NotSupported version_key SUPPORTED_ERIC_VERSIONS] else [])"

definition mismatches :: "string \<Rightarrow> string option \<Rightarrow> string option \<Rightarrow> string \<Rightarrow> load_msg list" where
  "mismatches version_key expected_env detected_version home =
     expected_report version_key expected_env
     @ detected_report version_key detected_version home
     @ supported_report version_key"

definition new_client :: "string \<Rightarrow> string \<Rightarrow> string option \<Rightarrow> EricVersionConfig \<Rightarrow> EricClient" where
  "new_client home logs detected_version cfg =
     \<lparr>eric_home = home, log_dir = logs, initialized = False,
      detected_eric_version = detected_version, version_config = cfg\<rparr>"

definition report :: "string \<Rightarrow> load_msg list \<Rightarrow> world \<Rightarrow> (error + unit) \<times> world" where
  "report policy ms w =
     (case ms of [] \<Rightarrow> (Inr (), w) | m # rest \<Rightarrow> handle_mismatch policy m w)"

section \<open>Sample engines and worlds\<close>

text \<open>
  Concrete engines and worlds on which the properties below are exercised: an engine that
  accepts everything, one whose transaction returns the code 1 next to a diagnostic text,
  one whose transaction raises, one that refuses the certificate, one whose shutdown
  fails, and one that rejects the transaction and also fails to close the handle.
\<close>

definition engine_ok :: engine where
  "engine_ok =
     \<lparr>init_rc = (\<lambda>hist home logs. 0),
      shutdown_rc = (\<lambda>hist. 0),
      error_text = (\<lambda>hist c. if c = 0 then None else Some ''error''),
      bearbeite = (\<lambda>hist rq. Inr \<lparr>rc = 0, validation_out = ''valid'',
                                    server_out = ''accepted'', transfer_out = 7\<rparr>),
      get_handle = (\<lambda>hist p s. Inr (0, 5, 2)),
      close_handle = (\<lambda>hist h. 0),
      EricTransferHandle = (\<lambda>h. h mod 4294967296),
      utf8_decode = (\<lambda>b. b)\<rparr>"

definition engine_reject :: engine where
  "engine_reject =
     engine_ok\<lparr>bearbeite := (\<lambda>hist rq. Inr \<lparr>rc = 1, validation_out = ''diagnostic'',
                                               server_out = [], transfer_out = 0\<rparr>)\<rparr>"

definition engine_raise :: engine where
  "engine_raise = engine_ok\<lparr>bearbeite := (\<lambda>hist rq. Inl (ForeignError ''call''))\<rparr>"

definition engine_nocert :: engine where
  "engine_nocert = engine_ok\<lparr>get_handle := (\<lambda>hist p s. Inr (1, 0, 0))\<rparr>"

definition engine_stuck :: engine where
  "engine_stuck = engine_ok\<lparr>shutdown_rc := (\<lambda>hist. 1)\<rparr>"

definition engine_reject_keep :: engine where
  "engine_reject_keep = engine_reject\<lparr>close_handle := (\<lambda>hist h. 1)\<rparr>"

definition world0 :: world where
  "world0 =
     \<lparr>environ = Map.empty, resolve = (\<lambda>p. p), cwd = ''/work'',
      mkdir_error = (\<lambda>p. None), stdout = [], calls = [], buffers = Map.empty,
      next_buffer = 0\<rparr>"

definition world_strict :: world where
  "world_strict =
     world0\<lparr>environ := [''ERIC_VERSION_POLICY'' \<mapsto> ''Strict'',
                         ''ERIC_EXPECTED_VERSION'' \<mapsto> ''40.1.2.0'']\<rparr>"

definition world_expect :: world where
  "world_expect = world0\<lparr>environ := [''ERIC_EXPECTED_VERSION'' \<mapsto> ''40.1.2.0'']\<rparr>"

definition world_ignore :: world where
  "world_ignore =
     world0\<lparr>environ := [''ERIC_VERSION_POLICY'' \<mapsto> ''off'',
                         ''ERIC_EXPECTED_VERSION'' \<mapsto> ''40.1.2.0'']\<rparr>"


text \<open>
  Sample arguments: a document, a data kind, a certificate path and a PIN, and a text with
  a lone surrogate, which cannot be encoded.
\<close>

definition sample_xml :: pystr where
  "sample_xml = text_of ''<a/>''"

definition sample_dav :: pystr where
  "sample_dav = text_of ''ESt_2020''"

definition sample_cert :: pystr where
  "sample_cert = text_of ''cert.pfx''"

definition sample_pin :: "pystr option" where
  "sample_pin = Some (text_of ''123456'')"

definition broken_text :: pystr where
  "broken_text = [55296]"

text \<open>
  A client that has been initialised.
\<close>

definition client0 :: EricClient where
  "client0 =
     \<lparr>eric_home = ''/opt/ERiC-41.6.2.0/Linux-x86_64'', log_dir = ''/work'',
      initialized = True, detected_eric_version = Some ''41.6.2.0'',
      version_config = \<lparr>eric_version = ''41.6.2.0'', druck_param_version = 4,
                         crypto_param_version = 3\<rparr>\<rparr>"

section \<open>Version detection finds the nearest version substring\<close>

subsection \<open>The matcher against the declarative pattern\<close>

lemma plus_sound:
  "re_match (Plus a # r) s = Some n \<Longrightarrow>
     \<exists>x w m. s = x @ w \<and> x \<noteq> [] \<and> (\<forall>c\<in>set x. atom_matches a c) \<and>
       re_match r w = Some m \<and> n = length x + m"
proof (induction s arbitrary: n)
  case Nil
  then show ?case by simp
next
  case (Cons c cs)
  from Cons.prems have ac: "atom_matches a c" by (auto split: if_splits)
  show ?case
  proof (cases "re_match (Plus a # r) cs")
    case None
    with Cons.prems ac obtain m where "re_match r cs = Some m" "n = Suc m" by auto
    then show ?thesis using ac
      by (intro exI[of _ "[c]"] exI[of _ cs] exI[of _ m]) simp
  next
    case (Some k)
    with Cons.prems ac have n: "n = Suc k" by simp
    from Cons.IH[OF Some] obtain x w m where
      "cs = x @ w" "x \<noteq> []" "\<forall>c\<in>set x. atom_matches a c" "re_match r w = Some m" "k = length x + m"
      by blast
    then show ?thesis using ac n
      by (intro exI[of _ "c # x"] exI[of _ w] exI[of _ m]) simp
  qed
qed

lemma plus_complete:
  "x \<noteq> [] \<Longrightarrow> \<forall>c\<in>set x. atom_matches a c \<Longrightarrow> re_match r w \<noteq> None \<Longrightarrow>
     re_match (Plus a # r) (x @ w) \<noteq> None"
proof (induction x)
  case Nil
  then show ?case by simp
next
  case (Cons c x)
  show ?case
  proof (cases "x = []")
    case True
    with Cons.prems show ?thesis by (auto split: option.splits)
  next
    case False
    with Cons have "re_match (Plus a # r) (x @ w) \<noteq> None" by simp
    with Cons.prems show ?thesis by (auto split: option.splits)
  qed
qed

lemma one_dot_sound:
  "re_match (One Dot # r) s = Some n \<Longrightarrow> \<exists>w m. s = CHR ''.'' # w \<and> re_match r w = Some m \<and> n = Suc m"
  by (cases s) (auto split: if_splits)

lemma digits_atom: "digits x \<longleftrightarrow> x \<noteq> [] \<and> (\<forall>c\<in>set x. atom_matches Digit c)"
  by (simp add: digits_def)

lemma match_sound:
  assumes "re_match pattern s = Some n"
  shows "\<exists>v post. s = v @ post \<and> is_version v \<and> n = length v"
proof -
  from assms obtain a w1 m1 where
    1: "s = a @ w1" "digits a" "re_match (tl pattern) w1 = Some m1" "n = length a + m1"
    unfolding pattern_def digits_atom by (auto dest!: plus_sound)
  from 1(3) obtain w2 m2 where
    2: "w1 = CHR ''.'' # w2" "re_match (tl (tl pattern)) w2 = Some m2" "m1 = Suc m2"
    unfolding pattern_def by (auto dest!: one_dot_sound)
  from 2(2) obtain b w3 m3 where
    3: "w2 = b @ w3" "digits b" "re_match (tl (tl (tl pattern))) w3 = Some m3" "m2 = length b + m3"
    unfolding pattern_def digits_atom by (auto dest!: plus_sound)
  from 3(3) obtain w4 m4 where
    4: "w3 = CHR ''.'' # w4" "re_match (tl (tl (tl (tl pattern)))) w4 = Some m4" "m3 = Suc m4"
    unfolding pattern_def by (auto dest!: one_dot_sound)
  from 4(2) obtain c w5 m5 where
    5: "w4 = c @ w5" "digits c" "re_match (tl (tl (tl (tl (tl pattern))))) w5 = Some m5"
       "m4 = length c + m5"
    unfolding pattern_def digits_atom by (auto dest!: plus_sound)
  from 5(3) obtain w6 m6 where
    6: "w5 = CHR ''.'' # w6" "re_match [Plus Digit] w6 = Some m6" "m5 = Suc m6"
    unfolding pattern_def by (auto dest!: one_dot_sound)
  from 6(2) obtain d w7 where
    7: "w6 = d @ w7" "digits d" "m6 = length d"
    unfolding digits_atom by (auto dest!: plus_sound)
  let ?v = "a @ ''.'' @ b @ ''.'' @ c @ ''.'' @ d"
  have "s = ?v @ w7" using 1 2 3 4 5 6 7 by simp
  moreover have "is_version ?v" unfolding is_version_def using 1 3 5 7 by blast
  moreover have "n = length ?v" using 1 2 3 4 5 6 7 by simp
  ultimately show ?thesis by blast
qed

lemma match_complete:
  assumes "is_version v"
  shows "re_match pattern (v @ post) \<noteq> None"
proof -
  from assms obtain a b c d where
    v: "v = a @ ''.'' @ b @ ''.'' @ c @ ''.'' @ d" and
    d: "digits a" "digits b" "digits c" "digits d"
    unfolding is_version_def by blast
  have 7: "re_match [Plus Digit] (d @ post) \<noteq> None"
    using plus_complete[of d Digit "[]" post] d(4) by (simp add: digits_atom)
  then have 6: "re_match [One Dot, Plus Digit] (''.'' @ d @ post) \<noteq> None" by simp
  have 5: "re_match [Plus Digit, One Dot, Plus Digit] (c @ ''.'' @ d @ post) \<noteq> None"
    using plus_complete[OF _ _ 6, of c Digit] d(3) by (simp add: digits_atom)
  then have 4: "re_match [One Dot, Plus Digit, One Dot, Plus Digit]
                  (''.'' @ c @ ''.'' @ d @ post) \<noteq> None" by simp
  have 3: "re_match [Plus Digit, One Dot, Plus Digit, One Dot, Plus Digit]
             (b @ ''.'' @ c @ ''.'' @ d @ post) \<noteq> None"
    using plus_complete[OF _ _ 4, of b Digit] d(2) by (simp add: digits_atom)
  then have 2: "re_match [One Dot, Plus Digit, One Dot, Plus Digit, One Dot, Plus Digit]
                  (''.'' @ b @ ''.'' @ c @ ''.'' @ d @ post) \<noteq> None" by simp
  have "re_match pattern (a @ ''.'' @ b @ ''.'' @ c @ ''.'' @ d @ post) \<noteq> None"
    unfolding pattern_def using plus_complete[OF _ _ 2, of a Digit] d(1)
    by (simp add: digits_atom)
  then show ?thesis by (simp add: v)
qed

lemma is_version_nonempty: "is_version v \<Longrightarrow> v \<noteq> []"
  by (auto simp: is_version_def)

lemma search_sound:
  "re_search pattern s = Some m \<Longrightarrow>
     \<exists>pre post. s = pre @ m @ post \<and> is_version m \<and>
       (\<forall>pre' v' post'. s = pre' @ v' @ post' \<and> is_version v' \<longrightarrow> length pre \<le> length pre')"
proof (induction s)
  case Nil
  then show ?case by (auto simp: pattern_def)
next
  case (Cons c cs)
  show ?case
  proof (cases "re_match pattern (c # cs)")
    case (Some n)
    with Cons.prems have m: "m = take n (c # cs)" by simp
    from match_sound[OF Some] obtain v post where
      "c # cs = v @ post" "is_version v" "n = length v" by blast
    then have "c # cs = [] @ m @ post \<and> is_version m" using m by simp
    then show ?thesis by (metis list.size(3) le0)
  next
    case None
    with Cons.prems have "re_search pattern cs = Some m" by simp
    from Cons.IH[OF this] obtain pre post where
      p: "cs = pre @ m @ post" "is_version m"
         "\<forall>pre' v' post'. cs = pre' @ v' @ post' \<and> is_version v' \<longrightarrow> length pre \<le> length pre'"
      by blast
    have "length (c # pre) \<le> length pre'"
      if h: "c # cs = pre' @ v' @ post'" "is_version v'" for pre' v' post'
    proof (cases pre')
      case Nil
      with h None match_complete[of v' post'] show ?thesis by simp
    next
      case (Cons e es)
      with h have "cs = es @ v' @ post'" by simp
      with p(3) h(2) have "length pre \<le> length es" by blast
      then show ?thesis using Cons by simp
    qed
    then show ?thesis using p(1,2)
      by (intro exI[of _ "c # pre"] exI[of _ post]) auto
  qed
qed

lemma digits_Cons: "digits (c # x) \<longleftrightarrow> c \<in> set ''0123456789'' \<and> (x = [] \<or> digits x)"
  by (auto simp: digits_def)

lemma digit_run_dot:
  "digits x \<Longrightarrow>
     re_match (Plus Digit # One Dot # r) (x @ CHR ''.'' # w) =
       map_option (\<lambda>m. length x + 1 + m) (re_match r w)"
proof (induction x)
  case Nil
  then show ?case by (simp add: digits_def)
next
  case (Cons c x)
  from Cons.prems have c: "atom_matches Digit c" by (simp add: digits_def)
  show ?case
  proof (cases "x = []")
    case True
    with c show ?thesis by (cases "re_match r w") simp_all
  next
    case False
    with Cons.prems have dx: "digits x" by (simp add: digits_Cons)
    then obtain e es where x: "x = e # es" and e: "e \<in> set ''0123456789''"
      by (cases x) (auto simp: digits_def)
    have nd: "re_match (One Dot # r) (x @ CHR ''.'' # w) = None"
      using x e by auto
    show ?thesis
      using Cons.IH[OF dx] c nd by (cases "re_match r w") simp_all
  qed
qed

lemma digit_run_last:
  "digits x \<Longrightarrow> \<exists>n. re_match [Plus Digit] (x @ w) = Some n \<and> length x \<le> n"
proof (induction x)
  case Nil
  then show ?case by (simp add: digits_def)
next
  case (Cons c x)
  from Cons.prems have c: "atom_matches Digit c" by (simp add: digits_def)
  show ?case
  proof (cases "x = []")
    case True
    with c show ?thesis by (cases "re_match [Plus Digit] w") simp_all
  next
    case False
    with Cons.prems have "digits x" by (simp add: digits_Cons)
    from Cons.IH[OF this] obtain n where "re_match [Plus Digit] (x @ w) = Some n" "length x \<le> n"
      by blast
    with c show ?thesis by simp
  qed
qed

text \<open>
  At the start of a version the matcher returns a match that is at least as long: the first
  three groups are followed by a dot, so they are whole runs of digits, and the last group
  is taken greedily.
\<close>

lemma match_longest:
  assumes "is_version v"
  shows "\<exists>n. re_match pattern (v @ post) = Some n \<and> length v \<le> n"
proof -
  from assms obtain a b c d where
    v: "v = a @ ''.'' @ b @ ''.'' @ c @ ''.'' @ d" and
    d: "digits a" "digits b" "digits c" "digits d"
    unfolding is_version_def by blast
  from digit_run_last[OF d(4), of post] obtain n where
    n: "re_match [Plus Digit] (d @ post) = Some n" "length d \<le> n" by blast
  have "re_match pattern (v @ post) =
          Some (length a + 1 + (length b + 1 + (length c + 1 + n)))"
    unfolding pattern_def v
    by (simp add: digit_run_dot[OF d(1)] digit_run_dot[OF d(2)] digit_run_dot[OF d(3)] n(1))
  moreover have "length v \<le> length a + 1 + (length b + 1 + (length c + 1 + n))"
    using n(2) by (simp add: v)
  ultimately show ?thesis by blast
qed

lemma search_longest:
  "re_search pattern s = Some m \<Longrightarrow>
     \<exists>pre post. s = pre @ m @ post \<and> is_version m \<and>
       (\<forall>pre' v' post'. s = pre' @ v' @ post' \<and> is_version v' \<longrightarrow>
          length pre \<le> length pre' \<and> (length pre' = length pre \<longrightarrow> length v' \<le> length m))"
proof (induction s)
  case Nil
  then show ?case by (auto simp: pattern_def)
next
  case (Cons c cs)
  show ?case
  proof (cases "re_match pattern (c # cs)")
    case (Some n)
    with Cons.prems have m: "m = take n (c # cs)" by simp
    from match_sound[OF Some] obtain v post where
      vp: "c # cs = v @ post" "is_version v" "n = length v" by blast
    then have mv: "m = v" using m by simp
    have "length v' \<le> length m"
      if h: "c # cs = pre' @ v' @ post'" "is_version v'" "length pre' = 0" for pre' v' post'
    proof -
      from h have "c # cs = v' @ post'" by simp
      with match_longest[OF h(2), of post'] Some have "length v' \<le> n" by simp
      then show ?thesis using vp(3) mv by simp
    qed
    then have "\<forall>pre' v' post'. c # cs = pre' @ v' @ post' \<and> is_version v' \<longrightarrow>
          length ([]::string) \<le> length pre' \<and>
          (length pre' = length ([]::string) \<longrightarrow> length v' \<le> length m)"
      by simp
    moreover have "c # cs = [] @ m @ post \<and> is_version m" using vp mv by simp
    ultimately show ?thesis by blast
  next
    case None
    with Cons.prems have "re_search pattern cs = Some m" by simp
    from Cons.IH[OF this] obtain pre post where
      p: "cs = pre @ m @ post" "is_version m"
         "\<forall>pre' v' post'. cs = pre' @ v' @ post' \<and> is_version v' \<longrightarrow>
            length pre \<le> length pre' \<and> (length pre' = length pre \<longrightarrow> length v' \<le> length m)"
      by blast
    have "length (c # pre) \<le> length pre' \<and>
          (length pre' = length (c # pre) \<longrightarrow> length v' \<le> length m)"
      if h: "c # cs = pre' @ v' @ post'" "is_version v'" for pre' v' post'
    proof (cases pre')
      case Nil
      with h None match_complete[of v' post'] show ?thesis by simp
    next
      case (Cons e es)
      with h have "cs = es @ v' @ post'" by simp
      with p(3) h(2) have "length pre \<le> length es \<and>
          (length es = length pre \<longrightarrow> length v' \<le> length m)" by blast
      then show ?thesis using Cons by simp
    qed
    then show ?thesis using p(1,2)
      by (intro exI[of _ "c # pre"] exI[of _ post]) auto
  qed
qed

lemma search_complete: "has_version s \<Longrightarrow> re_search pattern s \<noteq> None"
proof -
  have "re_search pattern (pre @ v @ post) \<noteq> None" if "is_version v" for pre v post
  proof (induction pre)
    case Nil
    from that have "v \<noteq> []" by (rule is_version_nonempty)
    then obtain c cs where "v @ post = c # cs" by (cases v) auto
    then show ?case using match_complete[OF that, of post]
      by (auto split: option.splits)
  next
    case (Cons e es)
    then show ?case by (auto split: option.splits)
  qed
  then show "has_version s \<Longrightarrow> re_search pattern s \<noteq> None"
    by (auto simp: has_version_def)
qed

lemma search_none: "\<not> has_version s \<Longrightarrow> re_search pattern s = None"
proof (rule ccontr)
  assume n: "\<not> has_version s" and "re_search pattern s \<noteq> None"
  then obtain m where "re_search pattern s = Some m" by auto
  from search_sound[OF this] have "has_version s" unfolding has_version_def by blast
  with n show False by simp
qed

declare detect_loop.simps [simp del]

lemma parent_snoc: "parent (xs @ [x]) = xs"
  by (simp add: parent_def)

lemma name_snoc: "name (xs @ [x]) = x"
  by (simp add: name_def)

lemma detect_loop_Nil: "detect_loop [] = None"
  by (subst detect_loop.simps) (simp add: parent_def)

lemma detect_loop_snoc:
  "detect_loop (outer @ [nm]) =
     (case re_search pattern nm of Some m \<Rightarrow> Some m | None \<Rightarrow> detect_loop outer)"
  by (subst detect_loop.simps) (simp add: parent_snoc name_snoc split: option.split)

lemma detect_loop_none:
  "\<forall>nm\<in>set parts. \<not> has_version nm \<Longrightarrow> detect_loop parts = None"
proof (induction parts rule: rev_induct)
  case Nil
  then show ?case by (simp add: detect_loop_Nil)
next
  case (snoc x xs)
  then have "re_search pattern x = None"
    using search_none[of x] by auto
  with snoc show ?case by (simp add: detect_loop_snoc)
qed

lemma detect_loop_skip:
  "\<forall>nm\<in>set inner. \<not> has_version nm \<Longrightarrow> detect_loop (outer @ inner) = detect_loop outer"
proof (induction inner rule: rev_induct)
  case Nil
  then show ?case by simp
next
  case (snoc x xs)
  then have "re_search pattern x = None"
    using search_none[of x] by auto
  with snoc show ?case
    using detect_loop_snoc[of "outer @ xs" x] by simp
qed

lemma detect_loop_nearest:
  assumes "\<forall>n\<in>set inner. \<not> has_version n"
  shows "detect_loop (outer @ nm # inner) =
           (case re_search pattern nm of Some m \<Rightarrow> Some m | None \<Rightarrow> detect_loop outer)"
proof -
  have "detect_loop (outer @ nm # inner) = detect_loop ((outer @ [nm]) @ inner)" by simp
  also have "\<dots> = detect_loop (outer @ [nm])" using assms by (rule detect_loop_skip)
  finally show ?thesis by (simp only: detect_loop_snoc)
qed

lemma has_version_example: "has_version ''41.6.2.0''"
proof -
  have "digits ''41''" "digits ''6''" "digits ''2''" "digits ''0''"
    by (simp_all add: digits_def)
  then have "is_version (''41'' @ ''.'' @ ''6'' @ ''.'' @ ''2'' @ ''.'' @ ''0'')"
    unfolding is_version_def by blast
  then have "''41.6.2.0'' = [] @ ''41.6.2.0'' @ [] \<and> is_version ''41.6.2.0''" by simp
  then show ?thesis unfolding has_version_def by blast
qed

lemma no_version_if_search_fails: "re_search pattern s = None \<Longrightarrow> \<not> has_version s"
  using search_complete by blast

lemma no_version_examples:
  "\<not> has_version ''Linux-x86_64''" "\<not> has_version ''eric''" "\<not> has_version ''opt''"
  by (rule no_version_if_search_fails, simp add: pattern_def)+

lemma detect_example_parent: "detect_eric_version (\<lambda>p. p) ''/opt/ERiC-41.6.2.0/Linux-x86_64'' = Some ''41.6.2.0''"
    unfolding detect_eric_version_def
    by (simp add: detect_loop.simps[of "_ # _"] detect_loop_Nil parent_def name_def pattern_def)


lemma detect_examples:
  "detect_eric_version (\<lambda>p. p) ''/opt/eric/41.6.2.0/Linux-x86_64'' = Some ''41.6.2.0''"
  "detect_eric_version (\<lambda>p. p) ''/opt/eric/Linux-x86_64'' = None"
  unfolding detect_eric_version_def
  by (simp_all add: detect_loop.simps[of "_ # _"] detect_loop_Nil parent_def name_def pattern_def)

lemma detect_example_long:
  "detect_eric_version (\<lambda>p. p) ''/opt/ERiC-41.6.2.10/Linux-x86_64'' = Some ''41.6.2.10''"
  unfolding detect_eric_version_def
  by (simp add: detect_loop.simps[of "_ # _"] detect_loop_Nil parent_def name_def pattern_def)

lemma has_version_example_long: "has_version ''ERiC-41.6.2.10''"
proof -
  have "digits ''41''" "digits ''6''" "digits ''2''" "digits ''10''"
    by (simp_all add: digits_def)
  then have "is_version (''41'' @ ''.'' @ ''6'' @ ''.'' @ ''2'' @ ''.'' @ ''10'')"
    unfolding is_version_def by blast
  then have "''ERiC-41.6.2.10'' = ''ERiC-'' @ ''41.6.2.10'' @ [] \<and> is_version ''41.6.2.10''"
    by simp
  then show ?thesis unfolding has_version_def by blast
qed

text \<open>
  Claim C3. For every path, \<^verbatim>\<open>detect_eric_version\<close> returns none when no component of
  the resolved path has a substring of four dotted groups of digits; when some component has
  one, it returns the match of the component nearest to the leaf that has one: the version
  substring of that component that starts leftmost and, among those that start there, is
  the longest. The three paths of the specification give \<^verbatim>\<open>41.6.2.0\<close>,
  \<^verbatim>\<open>41.6.2.0\<close> and none; a last group of two digits is returned whole.
\<close>

theorem detect_nearest_match:
  "((\<forall>nm\<in>set (path_parts (res home)). \<not> has_version nm) \<longrightarrow>
      detect_eric_version res home = None) \<and>
   (path_parts (res home) = outer @ nm # inner \<and> has_version nm \<and>
      (\<forall>n\<in>set inner. \<not> has_version n) \<longrightarrow>
      (\<exists>pre v post. detect_eric_version res home = Some v \<and> nm = pre @ v @ post \<and>
         is_version v \<and>
         (\<forall>pre' v' post'. nm = pre' @ v' @ post' \<and> is_version v' \<longrightarrow>
            length pre \<le> length pre' \<and>
            (length pre' = length pre \<longrightarrow> length v' \<le> length v)))) \<and>
   detect_eric_version (\<lambda>p. p) ''/opt/ERiC-41.6.2.0/Linux-x86_64'' = Some ''41.6.2.0'' \<and>
   detect_eric_version (\<lambda>p. p) ''/opt/eric/41.6.2.0/Linux-x86_64'' = Some ''41.6.2.0'' \<and>
   detect_eric_version (\<lambda>p. p) ''/opt/eric/Linux-x86_64'' = None \<and>
   detect_eric_version (\<lambda>p. p) ''/opt/ERiC-41.6.2.10/Linux-x86_64'' = Some ''41.6.2.10''"
proof (intro conjI impI)
  assume "\<forall>nm\<in>set (path_parts (res home)). \<not> has_version nm"
  then show "detect_eric_version res home = None"
    unfolding detect_eric_version_def by (rule detect_loop_none)
next
  assume h: "path_parts (res home) = outer @ nm # inner \<and> has_version nm \<and>
      (\<forall>n\<in>set inner. \<not> has_version n)"
  then have "re_search pattern nm \<noteq> None" by (simp add: search_complete)
  then obtain v where v2: "re_search pattern nm = Some v" by auto
  have v1: "detect_loop (outer @ nm # inner) = Some v"
    using h v2 by (simp add: detect_loop_nearest)
  from search_longest[OF v2] obtain pre post where
    p: "nm = pre @ v @ post" "is_version v"
    "\<forall>pre' v' post'. nm = pre' @ v' @ post' \<and> is_version v' \<longrightarrow>
       length pre \<le> length pre' \<and> (length pre' = length pre \<longrightarrow> length v' \<le> length v)"
    by blast
  have "detect_eric_version res home = Some v"
    using v1 h unfolding detect_eric_version_def by simp
  with p show "\<exists>pre v post. detect_eric_version res home = Some v \<and> nm = pre @ v @ post \<and>
         is_version v \<and>
         (\<forall>pre' v' post'. nm = pre' @ v' @ post' \<and> is_version v' \<longrightarrow>
            length pre \<le> length pre' \<and>
            (length pre' = length pre \<longrightarrow> length v' \<le> length v))"
    by (intro exI[of _ pre] exI[of _ v] exI[of _ post] conjI)
qed (rule detect_example_parent detect_examples detect_example_long)+

theorem detect_nearest_match_witness:
  "has_version ''ERiC-41.6.2.10'' \<and> \<not> has_version ''Linux-x86_64'' \<and>
   path_parts ''/opt/ERiC-41.6.2.10/Linux-x86_64'' = [''opt'', ''ERiC-41.6.2.10'', ''Linux-x86_64''] \<and>
   (\<exists>pre v post.
      detect_eric_version (\<lambda>p. p) ''/opt/ERiC-41.6.2.10/Linux-x86_64'' = Some v \<and>
      ''ERiC-41.6.2.10'' = pre @ v @ post \<and> is_version v \<and>
      length ''41.6.2.10'' \<le> length v) \<and>
   detect_eric_version (\<lambda>p. p) ''/opt/ERiC-41.6.2.10/Linux-x86_64'' = Some ''41.6.2.10'' \<and>
   \<not> has_version ''opt'' \<and> \<not> has_version ''eric'' \<and>
   path_parts ''/opt/eric/Linux-x86_64'' = [''opt'', ''eric'', ''Linux-x86_64''] \<and>
   detect_eric_version (\<lambda>p. p) ''/opt/eric/Linux-x86_64'' = None"
proof -
  have parts: "path_parts ''/opt/ERiC-41.6.2.10/Linux-x86_64''
                 = [''opt''] @ ''ERiC-41.6.2.10'' # [''Linux-x86_64'']"
    by simp
  have inner: "\<forall>n\<in>set [''Linux-x86_64'']. \<not> has_version n"
    using no_version_examples by simp
  have none: "\<forall>nm\<in>set (path_parts ''/opt/eric/Linux-x86_64''). \<not> has_version nm"
    using no_version_examples by simp
  have long: "is_version ''41.6.2.10''"
  proof -
    have "digits ''41''" "digits ''6''" "digits ''2''" "digits ''10''"
      by (simp_all add: digits_def)
    then have "is_version (''41'' @ ''.'' @ ''6'' @ ''.'' @ ''2'' @ ''.'' @ ''10'')"
      unfolding is_version_def by blast
    then show ?thesis by simp
  qed
  note thm1 = detect_nearest_match[of "\<lambda>p. p" "''/opt/ERiC-41.6.2.10/Linux-x86_64''"
      "[''opt'']" "''ERiC-41.6.2.10''" "[''Linux-x86_64'']"]
  note thm2 = detect_nearest_match[of "\<lambda>p. p" "''/opt/eric/Linux-x86_64''"]
  from thm1[THEN conjunct2, THEN conjunct1]
    conjI[OF parts conjI[OF has_version_example_long inner]]
  have "\<exists>pre v post.
      detect_eric_version (\<lambda>p. p) ''/opt/ERiC-41.6.2.10/Linux-x86_64'' = Some v \<and>
      ''ERiC-41.6.2.10'' = pre @ v @ post \<and> is_version v \<and>
      (\<forall>pre' v' post'. ''ERiC-41.6.2.10'' = pre' @ v' @ post' \<and> is_version v' \<longrightarrow>
          length pre \<le> length pre' \<and>
          (length pre' = length pre \<longrightarrow> length v' \<le> length v))"
    by (rule mp)
  then obtain pre v post where
    d: "detect_eric_version (\<lambda>p. p) ''/opt/ERiC-41.6.2.10/Linux-x86_64'' = Some v"
    and s: "''ERiC-41.6.2.10'' = pre @ v @ post" and iv: "is_version v"
    and m: "\<forall>pre' v' post'. ''ERiC-41.6.2.10'' = pre' @ v' @ post' \<and> is_version v' \<longrightarrow>
          length pre \<le> length pre' \<and>
          (length pre' = length pre \<longrightarrow> length v' \<le> length v)"
    by (elim exE conjE)
  from d have v: "v = ''41.6.2.10''" by (simp add: detect_example_long)
  have l: "length ''41.6.2.10'' \<le> length v" using v by simp
  have a: "\<exists>pre v post.
      detect_eric_version (\<lambda>p. p) ''/opt/ERiC-41.6.2.10/Linux-x86_64'' = Some v \<and>
      ''ERiC-41.6.2.10'' = pre @ v @ post \<and> is_version v \<and>
      length ''41.6.2.10'' \<le> length v"
    using d s iv l by (intro exI conjI)
  have b: "detect_eric_version (\<lambda>p. p) ''/opt/eric/Linux-x86_64'' = None"
    using thm2[THEN conjunct1] none by (rule mp)
  have c: "detect_eric_version (\<lambda>p. p) ''/opt/ERiC-41.6.2.10/Linux-x86_64'' = Some ''41.6.2.10''"
    using thm1[THEN conjunct2, THEN conjunct2, THEN conjunct2, THEN conjunct2, THEN conjunct2] .
  have pp: "path_parts ''/opt/ERiC-41.6.2.10/Linux-x86_64''
              = [''opt'', ''ERiC-41.6.2.10'', ''Linux-x86_64'']"
           "path_parts ''/opt/eric/Linux-x86_64'' = [''opt'', ''eric'', ''Linux-x86_64'']"
    by simp_all
  show ?thesis
    using has_version_example_long no_version_examples a b c pp by (intro conjI)
qed

section \<open>What \<^verbatim>\<open>_process\<close> does, case by case\<close>

subsection \<open>From the creation of the buffers on\<close>

lemma and_then_Inl [simp]: "and_then (Inl e, w) f = (Inl e, w)"
  by (simp add: and_then_def)

lemma and_then_Inr [simp]: "and_then (Inr x, w) f = f x w"
  by (simp add: and_then_def)

lemma calls_log_call [simp]: "calls (log_call e w) = calls w @ [e]"
  by (simp add: log_call_def)

lemma buffers_log_call [simp]: "buffers (log_call e w) = buffers w"
  by (simp add: log_call_def)

lemma next_buffer_log_call [simp]: "next_buffer (log_call e w) = next_buffer w"
  by (simp add: log_call_def)

lemma process_run_unfold:
  "process_run eng xml_text dav fl pp cp transfer_arg w =
     (case process_try eng (request_of eng xml_text dav fl pp cp transfer_arg w) (after_create w) of
        (outcome, w3) \<Rightarrow>
          (outcome, free_buffer (Suc (next_buffer w)) (free_buffer (next_buffer w) w3)))"
  by (cases transfer_arg)
     (simp_all add: process_run_def create_buffer_def request_of_def after_create_def Let_def
        split: prod.splits)

lemma process_run_fst:
  "fst (process_run eng xml_text dav fl pp cp transfer_arg w) =
     fst (process_try eng (request_of eng xml_text dav fl pp cp transfer_arg w) (after_create w))"
  by (simp add: process_run_unfold case_prod_beta)

lemma process_run_snd:
  "snd (process_run eng xml_text dav fl pp cp transfer_arg w) =
     free_buffer (Suc (next_buffer w)) (free_buffer (next_buffer w)
       (snd (process_try eng (request_of eng xml_text dav fl pp cp transfer_arg w)
          (after_create w))))"
  by (simp add: process_run_unfold case_prod_beta)

lemma after_create_simps [simp]:
  "calls (after_create w) = history_of w"
  "buffers (after_create w) = (buffers w)(next_buffer w \<mapsto> [], Suc (next_buffer w) \<mapsto> [])"
  "next_buffer (after_create w) = Suc (Suc (next_buffer w))"
  by (simp_all add: after_create_def create_buffer_def history_of_def Let_def)

lemma free_buffer_simps [simp]:
  "calls (free_buffer b w) = calls w @ [FreeBuffer b]"
  "buffers (free_buffer b w) = (buffers w)(b := None)"
  "next_buffer (free_buffer b w) = next_buffer w"
  by (simp_all add: free_buffer_def)

lemma process_try_raises:
  assumes "bearbeite eng (calls w) rq = Inl e"
  shows "process_try eng rq w = (Inl e, log_call (BearbeiteVorgang rq) w)"
  using assms by (simp add: process_try_def EricBearbeiteVorgang_def)

lemma process_try_nonzero:
  assumes "bearbeite eng (calls w) rq = Inr rp" "rc rp \<noteq> 0"
  shows "fst (process_try eng rq w) =
           Inl (EricError (rc rp) (error_text eng (calls w @ [BearbeiteVorgang rq]) (rc rp)))"
    and "calls (snd (process_try eng rq w)) =
           calls w @ [BearbeiteVorgang rq, GetErrorText (rc rp)]"
    and "buffers (snd (process_try eng rq w)) =
           (buffers w)(response_buffer rq \<mapsto> validation_out rp, server_buffer rq \<mapsto> server_out rp)"
    and "next_buffer (snd (process_try eng rq w)) = next_buffer w"
  using assms
  by (simp_all add: process_try_def EricBearbeiteVorgang_def get_error_text_def
        check_eric_result_def)

lemma process_try_zero:
  assumes "bearbeite eng (calls w) rq = Inr rp" "rc rp = 0"
    "response_buffer rq \<noteq> server_buffer rq"
  shows "fst (process_try eng rq w) =
           Inr \<lparr>code = 0,
                validation_response = utf8_decode eng (validation_out rp),
                server_response = utf8_decode eng (server_out rp),
                transfer_handle =
                  (case transfer rq of None \<Rightarrow> None | Some h \<Rightarrow> Some (transfer_out rp))\<rparr>"
    and "calls (snd (process_try eng rq w)) =
           calls w @ [BearbeiteVorgang rq, GetErrorText 0,
                      ReadBuffer (response_buffer rq), ReadBuffer (server_buffer rq)]"
    and "buffers (snd (process_try eng rq w)) =
           (buffers w)(response_buffer rq \<mapsto> validation_out rp, server_buffer rq \<mapsto> server_out rp)"
    and "next_buffer (snd (process_try eng rq w)) = next_buffer w"
  using assms
  by (simp_all add: process_try_def EricBearbeiteVorgang_def get_error_text_def
        check_eric_result_def read_buffer_def)


lemma process_run_raises:
  assumes "bearbeite eng (history_of w) (request_of eng x d fl pp cp ta w) = Inl e"
  shows "fst (process_run eng x d fl pp cp ta w) = Inl e"
    and "calls (snd (process_run eng x d fl pp cp ta w)) =
           history_of w @ [BearbeiteVorgang (request_of eng x d fl pp cp ta w),
                           FreeBuffer (next_buffer w), FreeBuffer (Suc (next_buffer w))]"
  using assms by (simp_all add: process_run_fst process_run_snd process_try_raises)

lemma request_of_buffers [simp]:
  "response_buffer (request_of eng x d fl pp cp ta w) = next_buffer w"
  "server_buffer (request_of eng x d fl pp cp ta w) = Suc (next_buffer w)"
  "transfer (request_of eng x d fl pp cp ta w) =
     (case ta of None \<Rightarrow> None | Some h \<Rightarrow> Some (EricTransferHandle eng h))"
  by (simp_all add: request_of_def)

lemma process_run_nonzero:
  assumes "bearbeite eng (history_of w) (request_of eng x d fl pp cp ta w) = Inr rp" "rc rp \<noteq> 0"
  shows "fst (process_run eng x d fl pp cp ta w) =
           Inl (EricError (rc rp)
                  (error_text eng
                     (history_of w @ [BearbeiteVorgang (request_of eng x d fl pp cp ta w)]) (rc rp)))"
    and "calls (snd (process_run eng x d fl pp cp ta w)) =
           history_of w @ [BearbeiteVorgang (request_of eng x d fl pp cp ta w),
                           GetErrorText (rc rp),
                           FreeBuffer (next_buffer w), FreeBuffer (Suc (next_buffer w))]"
proof -
  let ?rq = "request_of eng x d fl pp cp ta w"
  have b: "bearbeite eng (calls (after_create w)) ?rq = Inr rp" using assms(1) by simp
  note t = process_try_nonzero[OF b assms(2)]
  show "fst (process_run eng x d fl pp cp ta w) =
           Inl (EricError (rc rp) (error_text eng (history_of w @ [BearbeiteVorgang ?rq]) (rc rp)))"
    using t(1) by (simp add: process_run_fst)
  show "calls (snd (process_run eng x d fl pp cp ta w)) =
           history_of w @ [BearbeiteVorgang ?rq, GetErrorText (rc rp),
                           FreeBuffer (next_buffer w), FreeBuffer (Suc (next_buffer w))]"
    using t(2) by (simp add: process_run_snd)
qed

lemma process_run_zero:
  assumes "bearbeite eng (history_of w) (request_of eng x d fl pp cp ta w) = Inr rp" "rc rp = 0"
  shows "fst (process_run eng x d fl pp cp ta w) =
           Inr \<lparr>code = 0,
                validation_response = utf8_decode eng (validation_out rp),
                server_response = utf8_decode eng (server_out rp),
                transfer_handle = (case ta of None \<Rightarrow> None | Some h \<Rightarrow> Some (transfer_out rp))\<rparr>"
    and "calls (snd (process_run eng x d fl pp cp ta w)) =
           history_of w @ [BearbeiteVorgang (request_of eng x d fl pp cp ta w),
                           GetErrorText 0,
                           ReadBuffer (next_buffer w), ReadBuffer (Suc (next_buffer w)),
                           FreeBuffer (next_buffer w), FreeBuffer (Suc (next_buffer w))]"
proof -
  let ?rq = "request_of eng x d fl pp cp ta w"
  have b: "bearbeite eng (calls (after_create w)) ?rq = Inr rp" using assms(1) by simp
  have ne: "response_buffer ?rq \<noteq> server_buffer ?rq" by simp
  note t = process_try_zero[OF b assms(2) ne]
  show "fst (process_run eng x d fl pp cp ta w) =
           Inr \<lparr>code = 0,
                validation_response = utf8_decode eng (validation_out rp),
                server_response = utf8_decode eng (server_out rp),
                transfer_handle = (case ta of None \<Rightarrow> None | Some h \<Rightarrow> Some (transfer_out rp))\<rparr>"
    using t(1) by (simp add: process_run_fst split: option.splits)
  show "calls (snd (process_run eng x d fl pp cp ta w)) =
           history_of w @ [BearbeiteVorgang ?rq, GetErrorText 0,
                           ReadBuffer (next_buffer w), ReadBuffer (Suc (next_buffer w)),
                           FreeBuffer (next_buffer w), FreeBuffer (Suc (next_buffer w))]"
    using t(2) by (simp add: process_run_snd)
qed

text \<open>Whatever the engine does, the buffers are gone afterwards.\<close>

lemma process_run_buffers:
  "buffers (snd (process_run eng x d fl pp cp ta w)) (next_buffer w) = None"
  "buffers (snd (process_run eng x d fl pp cp ta w)) (Suc (next_buffer w)) = None"
  by (simp_all add: process_run_snd)

lemma new_calls_eq: "calls w' = calls w @ xs \<Longrightarrow> new_calls w w' = xs"
  by (simp add: new_calls_def)

text \<open>The calls of one run of \<^verbatim>\<open>_process\<close> and its outcome, for any engine.\<close>

lemma process_run_new_calls:
  "new_calls w (snd (process_run eng x d fl pp cp ta w)) =
     [CreateBuffer (next_buffer w), CreateBuffer (Suc (next_buffer w)),
      BearbeiteVorgang (request_of eng x d fl pp cp ta w)]
     @ (case bearbeite eng (history_of w) (request_of eng x d fl pp cp ta w) of
          Inl e \<Rightarrow> []
        | Inr rp \<Rightarrow>
            if rc rp = 0
            then [GetErrorText 0, ReadBuffer (next_buffer w), ReadBuffer (Suc (next_buffer w))]
            else [GetErrorText (rc rp)])
     @ [FreeBuffer (next_buffer w), FreeBuffer (Suc (next_buffer w))]"
proof (cases "bearbeite eng (history_of w) (request_of eng x d fl pp cp ta w)")
  case (Inl e)
  show ?thesis unfolding Inl sum.case
    by (rule new_calls_eq) (simp add: process_run_raises(2)[OF Inl] history_of_def)
next
  case (Inr rp)
  show ?thesis
  proof (cases "rc rp = 0")
    case True
    show ?thesis unfolding Inr sum.case if_P[OF True]
      by (rule new_calls_eq) (simp add: process_run_zero(2)[OF Inr True] history_of_def)
  next
    case False
    show ?thesis unfolding Inr sum.case if_not_P[OF False]
      by (rule new_calls_eq) (simp add: process_run_nonzero(2)[OF Inr False] history_of_def)
  qed
qed

lemma process_run_outcome:
  "fst (process_run eng x d fl pp cp ta w) =
     (case bearbeite eng (history_of w) (request_of eng x d fl pp cp ta w) of
        Inl e \<Rightarrow> Inl e
      | Inr rp \<Rightarrow>
          if rc rp = 0
          then Inr \<lparr>code = 0,
                    validation_response = utf8_decode eng (validation_out rp),
                    server_response = utf8_decode eng (server_out rp),
                    transfer_handle =
                      (case ta of None \<Rightarrow> None | Some h \<Rightarrow> Some (transfer_out rp))\<rparr>
          else Inl (EricError (rc rp)
                      (error_text eng
                         (history_of w @ [BearbeiteVorgang (request_of eng x d fl pp cp ta w)])
                         (rc rp))))"
proof (cases "bearbeite eng (history_of w) (request_of eng x d fl pp cp ta w)")
  case (Inl e)
  then show ?thesis by (simp add: process_run_raises(1))
next
  case (Inr rp)
  then show ?thesis
    by (cases "rc rp = 0") (simp_all add: process_run_zero(1) process_run_nonzero(1))
qed

lemma process_try_next_buffer:
  "next_buffer (snd (process_try eng rq w)) = next_buffer w"
  by (simp add: process_try_def EricBearbeiteVorgang_def get_error_text_def
        check_eric_result_def read_buffer_def and_then_def split: sum.splits prod.splits)

lemma process_run_next_buffer:
  "next_buffer (snd (process_run eng x d fl pp cp ta w)) = Suc (Suc (next_buffer w))"
  by (simp add: process_run_snd process_try_next_buffer)


lemma process_run_calls_extend:
  "calls (snd (process_run eng x d fl pp cp ta w)) =
     calls w @ new_calls w (snd (process_run eng x d fl pp cp ta w))"
proof (cases "bearbeite eng (history_of w) (request_of eng x d fl pp cp ta w)")
  case (Inl e)
  show ?thesis
    by (simp add: new_calls_def process_run_raises(2)[OF Inl] history_of_def)
next
  case (Inr rp)
  show ?thesis
  proof (cases "rc rp = 0")
    case True
    show ?thesis
      by (simp add: new_calls_def process_run_zero(2)[OF Inr True] history_of_def)
  next
    case False
    show ?thesis
      by (simp add: new_calls_def process_run_nonzero(2)[OF Inr False] history_of_def)
  qed
qed

subsection \<open>The encoding of the texts\<close>

lemma process_encoded:
  "str_encode x = Inr xb \<Longrightarrow> str_encode d = Inr db \<Longrightarrow>
     process eng x d fl pp cp ta w = process_run eng xb db fl pp cp ta w"
  by (simp add: process_def)

lemma process_not_encoded:
  "str_encode x = Inl e \<Longrightarrow> process eng x d fl pp cp ta w = (Inl e, w)"
  "str_encode x = Inr xb \<Longrightarrow> str_encode d = Inl e \<Longrightarrow>
     process eng x d fl pp cp ta w = (Inl e, w)"
  by (simp_all add: process_def)

lemma new_calls_same [simp]: "new_calls w w = []"
  by (simp add: new_calls_def)

text \<open>The calls of \<^verbatim>\<open>_process\<close> for any texts and any engine.\<close>

lemma process_new_calls:
  "new_calls w (snd (process eng x d fl pp cp ta w)) =
     (case str_encode x of
        Inl e \<Rightarrow> []
      | Inr xb \<Rightarrow>
          (case str_encode d of
             Inl e \<Rightarrow> []
           | Inr db \<Rightarrow> new_calls w (snd (process_run eng xb db fl pp cp ta w))))"
  by (simp add: process_def split: sum.splits)

lemma process_calls_extend:
  "calls (snd (process eng x d fl pp cp ta w)) =
     calls w @ new_calls w (snd (process eng x d fl pp cp ta w))"
proof (cases "str_encode x")
  case (Inl e)
  then show ?thesis by (simp add: process_def)
next
  case xb: (Inr xb)
  show ?thesis
  proof (cases "str_encode d")
    case (Inl e)
    with xb show ?thesis by (simp add: process_def)
  next
    case (Inr db)
    show ?thesis
      unfolding process_encoded[OF xb Inr] by (rule process_run_calls_extend)
  qed
qed

lemma process_next_buffer_le:
  "next_buffer w \<le> next_buffer (snd (process eng x d fl pp cp ta w))"
  by (cases "str_encode x"; cases "str_encode d")
     (simp_all add: process_def process_run_next_buffer)

lemma process_quiet:
  "filter is_release (new_calls w (snd (process eng x d fl pp cp ta w))) = []"
  by (simp add: process_new_calls process_run_new_calls split: sum.splits)

subsection \<open>Loading the certificate and sending\<close>

lemma load_certificate_encoded:
  assumes "str_encode c = Inr cb" "encode_opt p = Inr pb"
  shows "fst (load_certificate eng c p w) =
     (case get_handle eng (calls w) cb pb of
        Inl e \<Rightarrow> Inl e
      | Inr (r, h, i) \<Rightarrow>
          if r = 0 then Inr (h, i)
          else Inl (EricError r (error_text eng (calls w @ [GetHandleToCertificate cb pb]) r)))"
    and "calls (snd (load_certificate eng c p w)) =
     calls w @ GetHandleToCertificate cb pb
       # (case get_handle eng (calls w) cb pb of Inl e \<Rightarrow> [] | Inr (r, h, i) \<Rightarrow> [GetErrorText r])"
    and "next_buffer (snd (load_certificate eng c p w)) = next_buffer w"
  using assms
  by (cases "get_handle eng (calls w) cb pb";
      auto simp: load_certificate_def EricGetHandleToCertificate_def get_error_text_def
        check_eric_result_def)+

lemma load_certificate_not_encoded:
  "str_encode c = Inl e \<Longrightarrow> load_certificate eng c p w = (Inl e, w)"
  "str_encode c = Inr cb \<Longrightarrow> encode_opt p = Inl e \<Longrightarrow> load_certificate eng c p w = (Inl e, w)"
  by (simp_all add: load_certificate_def)

lemma load_certificate_pin:
  assumes "load_certificate eng c p w = (Inr hi, w1)"
  obtains cb pb where "str_encode c = Inr cb" "encode_opt p = Inr pb"
  using assms
  by (cases "str_encode c"; cases "encode_opt p") (auto simp: load_certificate_def)

lemma load_certificate_next_buffer:
  "next_buffer (snd (load_certificate eng c p w)) = next_buffer w"
  by (cases "str_encode c"; cases "encode_opt p")
     (simp_all add: load_certificate_not_encoded load_certificate_encoded(3))

lemma load_certificate_calls_extend:
  "calls (snd (load_certificate eng c p w)) =
     calls w @ new_calls w (snd (load_certificate eng c p w))"
  by (cases "str_encode c"; cases "encode_opt p")
     (simp_all add: load_certificate_not_encoded load_certificate_encoded(2) new_calls_def)

lemma load_certificate_quiet:
  "filter is_create (new_calls w (snd (load_certificate eng c p w))) = []"
  "filter is_free (new_calls w (snd (load_certificate eng c p w))) = []"
  "filter is_read (new_calls w (snd (load_certificate eng c p w))) = []"
  "filter is_transaction (new_calls w (snd (load_certificate eng c p w))) = []"
  "filter is_release (new_calls w (snd (load_certificate eng c p w))) = []"
  by (cases "str_encode c"; cases "encode_opt p";
      simp add: load_certificate_not_encoded load_certificate_encoded(2) new_calls_def
        split: sum.splits prod.splits)+

lemma loaded_quiet:
  assumes "load_certificate eng c p w = (r, w1)"
  shows "filter is_create (new_calls w w1) = []"
    "filter is_free (new_calls w w1) = []"
    "filter is_read (new_calls w w1) = []"
    "filter is_transaction (new_calls w w1) = []"
    "filter is_release (new_calls w w1) = []"
  using load_certificate_quiet[of w eng c p] assms by simp_all

lemma build_crypto_encoded:
  "encode_opt p = Inr pb \<Longrightarrow>
     build_crypto_params h p = Inr \<lparr>zertifikatHandle = h, pin = pb, abrufCode = None\<rparr>"
  by (simp add: build_crypto_params_def)

lemma send_xml_no_print:
  "build_print_params (pdf_arg pdf) False = Inl e \<Longrightarrow>
     send_xml eng x d c p pdf ta w = (Inl e, w)"
  by (simp add: send_xml_def)

lemma send_xml_not_loaded:
  assumes "build_print_params (pdf_arg pdf) False = Inr pp"
    "load_certificate eng c p w = (Inl e, w1)"
  shows "send_xml eng x d c p pdf ta w = (Inl e, w1)"
  using assms by (simp add: send_xml_def Let_def)

lemma send_xml_loaded:
  assumes "build_print_params (pdf_arg pdf) False = Inr pp"
    "load_certificate eng c p w = (Inr (h, i), w1)" "encode_opt p = Inr pb"
  shows "fst (send_xml eng x d c p pdf ta w) =
           fst (process eng x d
                  ({ERIC_VALIDIERE, ERIC_SENDE} \<union> (if pp \<noteq> None then {ERIC_DRUCKE} else {})) pp
                  (Some \<lparr>zertifikatHandle = h, pin = pb, abrufCode = None\<rparr>) ta w1)"
    and "snd (send_xml eng x d c p pdf ta w) =
           log_call (CloseHandleToCertificate h)
             (snd (process eng x d
                  ({ERIC_VALIDIERE, ERIC_SENDE} \<union> (if pp \<noteq> None then {ERIC_DRUCKE} else {})) pp
                  (Some \<lparr>zertifikatHandle = h, pin = pb, abrufCode = None\<rparr>) ta w1))"
  using assms
  by (simp_all add: send_xml_def Let_def EricCloseHandleToCertificate_def case_prod_beta
        build_crypto_encoded)

text \<open>The calls of a send whose certificate was loaded.\<close>

lemma send_xml_new_calls:
  assumes "build_print_params (pdf_arg pdf) False = Inr pp"
    "load_certificate eng c p w = (Inr (h, i), w1)" "encode_opt p = Inr pb"
  shows "new_calls w (snd (send_xml eng x d c p pdf ta w)) =
           new_calls w w1
           @ new_calls w1 (snd (process eng x d
                  ({ERIC_VALIDIERE, ERIC_SENDE} \<union> (if pp \<noteq> None then {ERIC_DRUCKE} else {})) pp
                  (Some \<lparr>zertifikatHandle = h, pin = pb, abrufCode = None\<rparr>) ta w1))
           @ [CloseHandleToCertificate h]"
proof -
  have w1: "calls w1 = calls w @ new_calls w w1"
    using load_certificate_calls_extend[of eng c p w] assms(2) by simp
  show ?thesis
    apply (simp only: send_xml_loaded(2)[OF assms])
    apply (subst new_calls_def)
    apply (subst calls_log_call)
    apply (subst process_calls_extend)
    apply (subst w1)
    apply simp
    done
qed

subsection \<open>\<^verbatim>\<open>validate_xml\<close> and \<^verbatim>\<open>send_xml\<close>, case by case\<close>

lemma validate_no_print:
  "build_print_params (pdf_arg pdf) True = Inl e \<Longrightarrow> validate_xml eng x d pdf w = (Inl e, w)"
  by (simp add: validate_xml_def)

lemma validate_process:
  "build_print_params (pdf_arg pdf) True = Inr pp \<Longrightarrow>
     validate_xml eng x d pdf w =
       process eng x d ({ERIC_VALIDIERE} \<union> (if pp \<noteq> None then {ERIC_DRUCKE} else {})) pp
         None None w"
  by (simp add: validate_xml_def Let_def)

lemma validate_run:
  assumes "build_print_params (pdf_arg pdf) True = Inr pp"
    "str_encode x = Inr xb" "str_encode d = Inr db"
  shows "validate_xml eng x d pdf w =
       process_run eng xb db ({ERIC_VALIDIERE} \<union> (if pp \<noteq> None then {ERIC_DRUCKE} else {})) pp
         None None w"
  by (simp only: validate_process[OF assms(1)] process_encoded[OF assms(2,3)])

lemma validate_outcome:
  assumes "build_print_params (pdf_arg pdf) True = Inr pp"
    "str_encode x = Inr xb" "str_encode d = Inr db"
  shows "fst (validate_xml eng x d pdf w) =
     (case bearbeite eng (history_of w) (validate_request eng xb db pp w) of
        Inl e \<Rightarrow> Inl e
      | Inr rp \<Rightarrow>
          if rc rp = 0
          then Inr \<lparr>code = 0,
                    validation_response = utf8_decode eng (validation_out rp),
                    server_response = utf8_decode eng (server_out rp),
                    transfer_handle = None\<rparr>
          else Inl (EricError (rc rp)
                      (error_text eng
                         (history_of w @ [BearbeiteVorgang (validate_request eng xb db pp w)])
                         (rc rp))))"
  by (simp only: validate_run[OF assms] validate_request_def process_run_outcome option.case)

lemma validate_new_calls:
  assumes "build_print_params (pdf_arg pdf) True = Inr pp"
    "str_encode x = Inr xb" "str_encode d = Inr db"
  shows "new_calls w (snd (validate_xml eng x d pdf w)) =
     [CreateBuffer (next_buffer w), CreateBuffer (Suc (next_buffer w)),
      BearbeiteVorgang (validate_request eng xb db pp w)]
     @ (case bearbeite eng (history_of w) (validate_request eng xb db pp w) of
          Inl e \<Rightarrow> []
        | Inr rp \<Rightarrow>
            if rc rp = 0
            then [GetErrorText 0, ReadBuffer (next_buffer w), ReadBuffer (Suc (next_buffer w))]
            else [GetErrorText (rc rp)])
     @ [FreeBuffer (next_buffer w), FreeBuffer (Suc (next_buffer w))]"
  by (simp only: validate_run[OF assms] validate_request_def process_run_new_calls)

lemma send_run:
  assumes "build_print_params (pdf_arg pdf) False = Inr pp"
    "load_certificate eng c p w = (Inr (h, i), w1)" "encode_opt p = Inr pb"
    "str_encode x = Inr xb" "str_encode d = Inr db"
  shows "fst (send_xml eng x d c p pdf ta w) =
           fst (process_run eng xb db
                  ({ERIC_VALIDIERE, ERIC_SENDE} \<union> (if pp \<noteq> None then {ERIC_DRUCKE} else {})) pp
                  (Some \<lparr>zertifikatHandle = h, pin = pb, abrufCode = None\<rparr>) ta w1)"
    and "new_calls w (snd (send_xml eng x d c p pdf ta w)) =
           new_calls w w1
           @ new_calls w1 (snd (process_run eng xb db
                  ({ERIC_VALIDIERE, ERIC_SENDE} \<union> (if pp \<noteq> None then {ERIC_DRUCKE} else {})) pp
                  (Some \<lparr>zertifikatHandle = h, pin = pb, abrufCode = None\<rparr>) ta w1))
           @ [CloseHandleToCertificate h]"
  by (simp_all only: send_xml_loaded(1)[OF assms(1-3)] send_xml_new_calls[OF assms(1-3)]
        process_encoded[OF assms(4,5)])

lemma send_outcome:
  assumes "build_print_params (pdf_arg pdf) False = Inr pp"
    "load_certificate eng c p w = (Inr (h, i), w1)" "encode_opt p = Inr pb"
    "str_encode x = Inr xb" "str_encode d = Inr db"
  shows "fst (send_xml eng x d c p pdf ta w) =
     (case bearbeite eng (history_of w1) (send_request eng xb db h pb pp ta w1) of
        Inl e \<Rightarrow> Inl e
      | Inr rp \<Rightarrow>
          if rc rp = 0
          then Inr \<lparr>code = 0,
                    validation_response = utf8_decode eng (validation_out rp),
                    server_response = utf8_decode eng (server_out rp),
                    transfer_handle =
                      (case ta of None \<Rightarrow> None | Some v \<Rightarrow> Some (transfer_out rp))\<rparr>
          else Inl (EricError (rc rp)
                      (error_text eng
                         (history_of w1 @ [BearbeiteVorgang (send_request eng xb db h pb pp ta w1)])
                         (rc rp))))"
  by (simp only: send_run(1)[OF assms] send_request_def process_run_outcome)

lemma send_new_calls:
  assumes "build_print_params (pdf_arg pdf) False = Inr pp"
    "load_certificate eng c p w = (Inr (h, i), w1)" "encode_opt p = Inr pb"
    "str_encode x = Inr xb" "str_encode d = Inr db"
  shows "new_calls w (snd (send_xml eng x d c p pdf ta w)) =
     new_calls w w1
     @ [CreateBuffer (next_buffer w), CreateBuffer (Suc (next_buffer w)),
        BearbeiteVorgang (send_request eng xb db h pb pp ta w1)]
     @ (case bearbeite eng (history_of w1) (send_request eng xb db h pb pp ta w1) of
          Inl e \<Rightarrow> []
        | Inr rp \<Rightarrow>
            if rc rp = 0
            then [GetErrorText 0, ReadBuffer (next_buffer w), ReadBuffer (Suc (next_buffer w))]
            else [GetErrorText (rc rp)])
     @ [FreeBuffer (next_buffer w), FreeBuffer (Suc (next_buffer w)),
        CloseHandleToCertificate h]"
proof -
  have nb: "next_buffer w1 = next_buffer w"
    using load_certificate_next_buffer[of eng c p w] assms(2) by simp
  show ?thesis
    by (simp only: send_run(2)[OF assms] send_request_def process_run_new_calls nb
          append_assoc append.simps)
qed

subsection \<open>The sample arguments and the accepting engine\<close>

lemma of_char_less_256: "of_char c < (256::nat)"
  by (cases c) simp

lemma ascii_less: "\<not> digit7 c \<Longrightarrow> of_char c < (128::nat)"
  by (cases c) simp

lemma not_surrogate_char: "\<not> surrogate (of_char c)"
  using of_char_less_256[of c] unfolding surrogate_def by linarith

lemma utf8_ascii: "\<not> digit7 c \<Longrightarrow> utf8_bytes (of_char c) = [c]"
  by (simp add: utf8_bytes_def ascii_less)

lemma str_encode_ascii:
  "list_all (\<lambda>c. \<not> digit7 c) s \<Longrightarrow> str_encode (text_of s) = Inr s"
proof -
  assume a: "list_all (\<lambda>c. \<not> digit7 c) s"
  have 1: "\<not> list_ex surrogate (text_of s)"
    by (simp add: list_ex_iff text_of_def not_surrogate_char)
  from a have 2: "concat (map utf8_bytes (text_of s)) = s"
    by (induction s) (simp_all add: text_of_def utf8_ascii)
  show ?thesis by (simp add: str_encode_def 1 2)
qed

lemma sample_encodings [simp]:
  "str_encode sample_xml = Inr ''<a/>''"
  "str_encode sample_dav = Inr ''ESt_2020''"
  "str_encode sample_cert = Inr ''cert.pfx''"
  "encode_opt sample_pin = Inr (Some ''123456'')"
  "str_encode broken_text = Inl UnicodeEncodeError"
  by (simp_all add: sample_xml_def sample_dav_def sample_cert_def sample_pin_def broken_text_def
        encode_opt_def str_encode_ascii)
     (simp add: str_encode_def surrogate_def)

lemma no_pdf [simp]: "build_print_params (pdf_arg None) preview = Inr None"
  by (simp add: build_print_params_def pdf_arg_def truthy_def)

lemma engine_ok_simps [simp]:
  "bearbeite engine_ok hist rq =
     Inr \<lparr>rc = 0, validation_out = ''valid'', server_out = ''accepted'', transfer_out = 7\<rparr>"
  "get_handle engine_ok hist c p = Inr (0, 5, 2)"
  "utf8_decode engine_ok b = b"
  "close_handle engine_ok hist h = 0"
  "error_text engine_ok hist k = (if k = 0 then None else Some ''error'')"
  "EricTransferHandle engine_ok v = v mod 4294967296"
  by (simp_all add: engine_ok_def)

lemma validate_ok_value:
  "fst (validate_xml engine_ok sample_xml sample_dav None world0) =
     Inr \<lparr>code = 0, validation_response = ''valid'', server_response = ''accepted'',
          transfer_handle = None\<rparr>"
  by (simp add: validate_outcome[OF no_pdf sample_encodings(1,2)])

lemma load_collapse:
  "fst (load_certificate eng c p w) = Inr hi \<Longrightarrow>
     load_certificate eng c p w = (Inr hi, snd (load_certificate eng c p w))"
  by (metis prod.collapse)

lemma load_ok_value:
  "load_certificate engine_ok sample_cert sample_pin world0 =
     (Inr (5, 2), snd (load_certificate engine_ok sample_cert sample_pin world0))"
  by (rule load_collapse) (simp add: load_certificate_encoded(1)[OF sample_encodings(3,4)])

lemma send_ok_value:
  "fst (send_xml engine_ok sample_xml sample_dav sample_cert sample_pin None None world0) =
     Inr \<lparr>code = 0, validation_response = ''valid'', server_response = ''accepted'',
          transfer_handle = None\<rparr>"
  by (simp add: send_outcome[OF no_pdf load_ok_value sample_encodings(4,1,2)])

subsection \<open>What a returned result tells\<close>

lemma validate_returned:
  assumes "validate_xml eng x d pdf w = (Inr r, w')"
  obtains pp xb db where "build_print_params (pdf_arg pdf) True = Inr pp"
    "str_encode x = Inr xb" "str_encode d = Inr db"
proof (cases "build_print_params (pdf_arg pdf) True")
  case (Inl e)
  with assms show ?thesis by (simp add: validate_no_print)
next
  case pp: (Inr pp)
  show ?thesis
  proof (cases "str_encode x")
    case (Inl e)
    with assms pp show ?thesis by (simp add: validate_process process_not_encoded(1))
  next
    case xb: (Inr xb)
    show ?thesis
    proof (cases "str_encode d")
      case (Inl e)
      with assms pp xb show ?thesis by (simp add: validate_process process_not_encoded(2))
    next
      case (Inr db)
      with pp xb that show ?thesis by blast
    qed
  qed
qed

lemma send_returned:
  assumes "send_xml eng x d c p pdf ta w = (Inr r, w')"
  obtains pp h i w1 pb xb db where "build_print_params (pdf_arg pdf) False = Inr pp"
    "load_certificate eng c p w = (Inr (h, i), w1)" "encode_opt p = Inr pb"
    "str_encode x = Inr xb" "str_encode d = Inr db"
proof (cases "build_print_params (pdf_arg pdf) False")
  case (Inl e)
  with assms show ?thesis by (simp add: send_xml_no_print)
next
  case pp: (Inr pp)
  show ?thesis
  proof (cases "load_certificate eng c p w")
    case (Pair res w1)
    show ?thesis
    proof (cases res)
      case (Inl e)
      with Pair assms pp show ?thesis by (simp add: send_xml_not_loaded)
    next
      case (Inr hi)
      obtain h i where hi: "hi = (h, i)" by (cases hi)
      have l: "load_certificate eng c p w = (Inr (h, i), w1)" using Pair Inr hi by simp
      from load_certificate_pin[OF l] obtain pb where pb: "encode_opt p = Inr pb" by blast
      have s: "fst (send_xml eng x d c p pdf ta w) = Inr r" using assms by simp
      show ?thesis
      proof (cases "str_encode x")
        case (Inl e)
        with s show ?thesis
          by (simp add: send_xml_loaded(1)[OF pp l pb] process_not_encoded(1))
      next
        case xb: (Inr xb)
        show ?thesis
        proof (cases "str_encode d")
          case (Inl e)
          with s xb show ?thesis
            by (simp add: send_xml_loaded(1)[OF pp l pb] process_not_encoded(2))
        next
          case (Inr db)
          with pp l pb xb that show ?thesis by blast
        qed
      qed
    qed
  qed
qed

section \<open>Results carry the success code\<close>

text \<open>
  Claim C9. Every result that \<^verbatim>\<open>validate_xml\<close> or \<^verbatim>\<open>send_xml\<close> returns has the code 0:
  the return code is checked, and a code other than 0 raises, before the result is built.
\<close>

theorem result_code_zero:
  "(validate_xml eng x d pdf w = (Inr r, w') \<longrightarrow> code r = 0) \<and>
   (send_xml eng x d c p pdf ta w = (Inr r, w') \<longrightarrow> code r = 0)"
proof (intro conjI impI)
  assume a: "validate_xml eng x d pdf w = (Inr r, w')"
  from validate_returned[OF a] obtain pp xb db where
    e: "build_print_params (pdf_arg pdf) True = Inr pp" "str_encode x = Inr xb"
       "str_encode d = Inr db" by blast
  have "fst (validate_xml eng x d pdf w) = Inr r" using a by simp
  then show "code r = 0"
    by (auto simp: validate_outcome[OF e] split: sum.splits if_splits)
next
  assume a: "send_xml eng x d c p pdf ta w = (Inr r, w')"
  from send_returned[OF a] obtain pp h i w1 pb xb db where
    e: "build_print_params (pdf_arg pdf) False = Inr pp"
       "load_certificate eng c p w = (Inr (h, i), w1)" "encode_opt p = Inr pb"
       "str_encode x = Inr xb" "str_encode d = Inr db" by blast
  have "fst (send_xml eng x d c p pdf ta w) = Inr r" using a by simp
  then show "code r = 0"
    by (auto simp: send_outcome[OF e] split: sum.splits if_splits)
qed

theorem result_code_zero_witness:
  "code \<lparr>code = 0, validation_response = ''valid'', server_response = ''accepted'',
          transfer_handle = None\<rparr> = 0 \<and>
   fst (validate_xml engine_ok sample_xml sample_dav None world0) =
     Inr \<lparr>code = 0, validation_response = ''valid'', server_response = ''accepted'',
          transfer_handle = None\<rparr> \<and>
   fst (send_xml engine_ok sample_xml sample_dav sample_cert sample_pin None None world0) =
     Inr \<lparr>code = 0, validation_response = ''valid'', server_response = ''accepted'',
          transfer_handle = None\<rparr>"
proof -
  let ?r = "\<lparr>code = 0, validation_response = ''valid'', server_response = ''accepted'',
          transfer_handle = None\<rparr>"
  have v: "validate_xml engine_ok sample_xml sample_dav None world0 =
             (Inr ?r, snd (validate_xml engine_ok sample_xml sample_dav None world0))"
    using validate_ok_value by (metis prod.collapse)
  have s: "send_xml engine_ok sample_xml sample_dav sample_cert sample_pin None None world0 =
             (Inr ?r, snd (send_xml engine_ok sample_xml sample_dav sample_cert sample_pin
                             None None world0))"
    using send_ok_value by (metis prod.collapse)
  from result_code_zero[THEN conjunct1, THEN mp, OF v]
       result_code_zero[THEN conjunct2, THEN mp, OF s]
  show ?thesis using validate_ok_value send_ok_value by simp
qed

section \<open>The transfer handle\<close>

lemma fst_eqD: "f = (a, b) \<Longrightarrow> fst f = a"
  by simp

lemma validate_request_transfer: "transfer (validate_request eng xb db pp w) = None"
  by (simp add: validate_request_def)

lemma send_request_transfer:
  "transfer (send_request eng xb db h pb pp ta w) =
     (case ta of None \<Rightarrow> None | Some v \<Rightarrow> Some (EricTransferHandle eng v))"
  by (simp add: send_request_def)

lemma validate_transactions:
  assumes "build_print_params (pdf_arg pdf) True = Inr pp"
    "str_encode x = Inr xb" "str_encode d = Inr db"
  shows "filter is_transaction (new_calls w (snd (validate_xml eng x d pdf w))) =
     [BearbeiteVorgang (validate_request eng xb db pp w)]"
  by (simp add: validate_new_calls[OF assms] split: sum.splits)

lemma send_transactions:
  assumes "build_print_params (pdf_arg pdf) False = Inr pp"
    "load_certificate eng c p w = (Inr (h, i), w1)" "encode_opt p = Inr pb"
    "str_encode x = Inr xb" "str_encode d = Inr db"
  shows "filter is_transaction (new_calls w (snd (send_xml eng x d c p pdf ta w))) =
           [BearbeiteVorgang (send_request eng xb db h pb pp ta w1)]"
  by (simp add: send_new_calls[OF assms] loaded_quiet(4)[OF assms(2)] split: sum.splits)

text \<open>Whatever the arguments, a request of \<^verbatim>\<open>validate_xml\<close> has a null pointer.\<close>

lemma validate_requests_null:
  "BearbeiteVorgang rq \<in> set (new_calls w (snd (validate_xml eng x d pdf w))) \<Longrightarrow>
     transfer rq = None"
proof (cases "build_print_params (pdf_arg pdf) True")
  case (Inl e)
  assume "BearbeiteVorgang rq \<in> set (new_calls w (snd (validate_xml eng x d pdf w)))"
  with Inl show ?thesis by (simp add: validate_no_print)
next
  case pp: (Inr pp)
  assume a: "BearbeiteVorgang rq \<in> set (new_calls w (snd (validate_xml eng x d pdf w)))"
  show ?thesis
  proof (cases "str_encode x")
    case (Inl e)
    with a pp show ?thesis by (simp add: validate_process process_not_encoded(1))
  next
    case xb: (Inr xb)
    show ?thesis
    proof (cases "str_encode d")
      case (Inl e)
      with a pp xb show ?thesis by (simp add: validate_process process_not_encoded(2))
    next
      case (Inr db)
      from a have "rq = validate_request eng xb db pp w"
        by (auto simp: validate_new_calls[OF pp xb Inr] split: sum.splits if_splits)
      then show ?thesis by (simp add: validate_request_transfer)
    qed
  qed
qed

lemma send_xml_fails_early:
  assumes "build_print_params (pdf_arg pdf) False = Inr pp"
    "load_certificate eng c p w = (Inr (h, i), w1)" "encode_opt p = Inr pb"
    "str_encode x = Inl e \<or> (\<exists>xb. str_encode x = Inr xb \<and> str_encode d = Inl e)"
  shows "fst (send_xml eng x d c p pdf ta w) = Inl e"
    and "new_calls w (snd (send_xml eng x d c p pdf ta w)) =
           new_calls w w1 @ [CloseHandleToCertificate h]"
  using assms(4)
  by (auto simp: send_xml_loaded(1)[OF assms(1-3)] send_xml_new_calls[OF assms(1-3)]
        process_not_encoded)

lemma send_requests_null:
  "BearbeiteVorgang rq \<in> set (new_calls w (snd (send_xml eng x d c p pdf None w))) \<Longrightarrow>
     transfer rq = None"
proof (cases "build_print_params (pdf_arg pdf) False")
  case (Inl e)
  assume "BearbeiteVorgang rq \<in> set (new_calls w (snd (send_xml eng x d c p pdf None w)))"
  with Inl show ?thesis by (simp add: send_xml_no_print)
next
  case pp: (Inr pp)
  assume a: "BearbeiteVorgang rq \<in> set (new_calls w (snd (send_xml eng x d c p pdf None w)))"
  show ?thesis
  proof (cases "load_certificate eng c p w")
    case (Pair res w1)
    have q: "filter is_transaction (new_calls w w1) = []" by (rule loaded_quiet(4)[OF Pair])
    have nq: "BearbeiteVorgang rq \<notin> set (new_calls w w1)"
    proof
      assume "BearbeiteVorgang rq \<in> set (new_calls w w1)"
      then have "BearbeiteVorgang rq \<in> set (filter is_transaction (new_calls w w1))" by simp
      with q show False by simp
    qed
    show ?thesis
    proof (cases res)
      case (Inl e)
      with Pair a pp nq show ?thesis by (simp add: send_xml_not_loaded)
    next
      case (Inr hi)
      obtain h i where hi: "hi = (h, i)" by (cases hi)
      have l: "load_certificate eng c p w = (Inr (h, i), w1)" using Pair Inr hi by simp
      from load_certificate_pin[OF l] obtain pb where pb: "encode_opt p = Inr pb" by blast
      show ?thesis
      proof (cases "str_encode x")
        case (Inl e)
        with a nq show ?thesis by (simp add: send_xml_fails_early(2)[OF pp l pb])
      next
        case xb: (Inr xb)
        show ?thesis
        proof (cases "str_encode d")
          case (Inl e)
          with a nq xb show ?thesis by (simp add: send_xml_fails_early(2)[OF pp l pb])
        next
          case (Inr db)
          from a nq have "rq = send_request eng xb db h pb pp None w1"
            by (auto simp: send_new_calls[OF pp l pb xb Inr] split: sum.splits if_splits)
          then show ?thesis by (simp add: send_request_transfer)
        qed
      qed
    qed
  qed
qed

lemma send_resume_value:
  "fst (send_xml engine_ok sample_xml sample_dav sample_cert sample_pin None (Some 3) world0) =
     Inr \<lparr>code = 0, validation_response = ''valid'', server_response = ''accepted'',
          transfer_handle = Some 7\<rparr>"
  by (simp add: send_outcome[OF no_pdf load_ok_value sample_encodings(4,1,2)])

text \<open>
  Claim C10. When the caller gives no transfer handle (every \<^verbatim>\<open>validate_xml\<close>, and
  \<^verbatim>\<open>send_xml\<close> with \<^verbatim>\<open>transfer_handle\<close> \<^verbatim>\<open>None\<close>), the result has none either: every
  request that reaches the engine carries a null pointer, so nothing the engine issues can
  be read. When the caller gives a handle, the request carries a holder made from it and
  the result has the value the engine leaves in the holder.
\<close>

theorem omitted_transfer_handle_is_none:
  "(validate_xml eng x d pdf w = (Inr r, w') \<longrightarrow> transfer_handle r = None) \<and>
   (send_xml eng x d c p pdf None w = (Inr r, w') \<longrightarrow> transfer_handle r = None) \<and>
   (BearbeiteVorgang rq \<in> set (new_calls w (snd (validate_xml eng x d pdf w))) \<longrightarrow>
      transfer rq = None) \<and>
   (BearbeiteVorgang rq \<in> set (new_calls w (snd (send_xml eng x d c p pdf None w))) \<longrightarrow>
      transfer rq = None) \<and>
   (build_print_params (pdf_arg pdf) True = Inr pp \<and> str_encode x = Inr xb \<and>
    str_encode d = Inr db \<longrightarrow>
      filter is_transaction (new_calls w (snd (validate_xml eng x d pdf w))) =
        [BearbeiteVorgang (validate_request eng xb db pp w)] \<and>
      transfer (validate_request eng xb db pp w) = None) \<and>
   (build_print_params (pdf_arg pdf) False = Inr pp \<and>
    load_certificate eng c p w = (Inr (h, i), w1) \<and> encode_opt p = Inr pb \<and>
    str_encode x = Inr xb \<and> str_encode d = Inr db \<longrightarrow>
      filter is_transaction (new_calls w (snd (send_xml eng x d c p pdf ta w))) =
        [BearbeiteVorgang (send_request eng xb db h pb pp ta w1)] \<and>
      transfer (send_request eng xb db h pb pp ta w1) =
        (case ta of None \<Rightarrow> None | Some v \<Rightarrow> Some (EricTransferHandle eng v))) \<and>
   (build_print_params (pdf_arg pdf) False = Inr pp \<and>
    load_certificate eng c p w = (Inr (h, i), w1) \<and> encode_opt p = Inr pb \<and>
    str_encode x = Inr xb \<and> str_encode d = Inr db \<and>
    bearbeite eng (history_of w1) (send_request eng xb db h pb pp (Some v) w1) = Inr rp \<and>
    send_xml eng x d c p pdf (Some v) w = (Inr r, w') \<longrightarrow>
      transfer_handle r = Some (transfer_out rp))"
proof (intro conjI impI)
  assume a: "validate_xml eng x d pdf w = (Inr r, w')"
  from validate_returned[OF a] obtain pp xb db where
    e: "build_print_params (pdf_arg pdf) True = Inr pp" "str_encode x = Inr xb"
       "str_encode d = Inr db" by blast
  have "fst (validate_xml eng x d pdf w) = Inr r" using a by simp
  then show "transfer_handle r = None"
    by (auto simp: validate_outcome[OF e] split: sum.splits if_splits)
next
  assume a: "send_xml eng x d c p pdf None w = (Inr r, w')"
  from send_returned[OF a] obtain pp h i w1 pb xb db where
    e: "build_print_params (pdf_arg pdf) False = Inr pp"
       "load_certificate eng c p w = (Inr (h, i), w1)" "encode_opt p = Inr pb"
       "str_encode x = Inr xb" "str_encode d = Inr db" by blast
  have "fst (send_xml eng x d c p pdf None w) = Inr r" using a by simp
  then show "transfer_handle r = None"
    by (auto simp: send_outcome[OF e] split: sum.splits if_splits)
next
  assume "BearbeiteVorgang rq \<in> set (new_calls w (snd (validate_xml eng x d pdf w)))"
  then show "transfer rq = None" by (rule validate_requests_null)
next
  assume "BearbeiteVorgang rq \<in> set (new_calls w (snd (send_xml eng x d c p pdf None w)))"
  then show "transfer rq = None" by (rule send_requests_null)
next
  assume a: "build_print_params (pdf_arg pdf) True = Inr pp \<and> str_encode x = Inr xb \<and>
    str_encode d = Inr db"
  then show "filter is_transaction (new_calls w (snd (validate_xml eng x d pdf w))) =
        [BearbeiteVorgang (validate_request eng xb db pp w)]"
    by (simp add: validate_transactions)
  show "transfer (validate_request eng xb db pp w) = None"
    by (rule validate_request_transfer)
next
  assume a: "build_print_params (pdf_arg pdf) False = Inr pp \<and>
    load_certificate eng c p w = (Inr (h, i), w1) \<and> encode_opt p = Inr pb \<and>
    str_encode x = Inr xb \<and> str_encode d = Inr db"
  then show "filter is_transaction (new_calls w (snd (send_xml eng x d c p pdf ta w))) =
        [BearbeiteVorgang (send_request eng xb db h pb pp ta w1)]"
    by (simp add: send_transactions)
  show "transfer (send_request eng xb db h pb pp ta w1) =
        (case ta of None \<Rightarrow> None | Some v \<Rightarrow> Some (EricTransferHandle eng v))"
    by (rule send_request_transfer)
next
  assume a: "build_print_params (pdf_arg pdf) False = Inr pp \<and>
    load_certificate eng c p w = (Inr (h, i), w1) \<and> encode_opt p = Inr pb \<and>
    str_encode x = Inr xb \<and> str_encode d = Inr db \<and>
    bearbeite eng (history_of w1) (send_request eng xb db h pb pp (Some v) w1) = Inr rp \<and>
    send_xml eng x d c p pdf (Some v) w = (Inr r, w')"
  then have e: "build_print_params (pdf_arg pdf) False = Inr pp"
       "load_certificate eng c p w = (Inr (h, i), w1)" "encode_opt p = Inr pb"
       "str_encode x = Inr xb" "str_encode d = Inr db"
    and b: "bearbeite eng (history_of w1) (send_request eng xb db h pb pp (Some v) w1) = Inr rp"
    and s: "fst (send_xml eng x d c p pdf (Some v) w) = Inr r" by simp_all
  from s show "transfer_handle r = Some (transfer_out rp)"
    by (auto simp: send_outcome[OF e] b split: if_splits)
qed

theorem omitted_transfer_handle_is_none_witness:
  "fst (validate_xml engine_ok sample_xml sample_dav None world0) =
     Inr \<lparr>code = 0, validation_response = ''valid'', server_response = ''accepted'',
          transfer_handle = None\<rparr> \<and>
   fst (send_xml engine_ok sample_xml sample_dav sample_cert sample_pin None None world0) =
     Inr \<lparr>code = 0, validation_response = ''valid'', server_response = ''accepted'',
          transfer_handle = None\<rparr> \<and>
   fst (load_certificate engine_ok sample_cert sample_pin world0) = Inr (5, 2) \<and>
   filter is_transaction
     (new_calls world0 (snd (validate_xml engine_ok sample_xml sample_dav None world0))) =
     [BearbeiteVorgang (validate_request engine_ok ''<a/>'' ''ESt_2020'' None world0)] \<and>
   transfer (validate_request engine_ok ''<a/>'' ''ESt_2020'' None world0) = None \<and>
   transfer (send_request engine_ok ''<a/>'' ''ESt_2020'' 5 (Some ''123456'') None (Some 3)
               (snd (load_certificate engine_ok sample_cert sample_pin world0))) = Some 3 \<and>
   fst (send_xml engine_ok sample_xml sample_dav sample_cert sample_pin None (Some 3) world0) =
     Inr \<lparr>code = 0, validation_response = ''valid'', server_response = ''accepted'',
          transfer_handle = Some 7\<rparr> \<and>
   transfer_handle \<lparr>code = 0, validation_response = ''valid'', server_response = ''accepted'',
          transfer_handle = Some (7::int)\<rparr> = Some 7"
proof -
  let ?w1 = "snd (load_certificate engine_ok sample_cert sample_pin world0)"
  let ?r = "\<lparr>code = 0, validation_response = ''valid'', server_response = ''accepted'',
          transfer_handle = Some (7::int)\<rparr>"
  let ?rp = "\<lparr>rc = 0, validation_out = ''valid'', server_out = ''accepted'', transfer_out = 7\<rparr>"
  note l = load_ok_value
  have s: "send_xml engine_ok sample_xml sample_dav sample_cert sample_pin None (Some 3) world0 =
             (Inr ?r, snd (send_xml engine_ok sample_xml sample_dav sample_cert sample_pin
                             None (Some 3) world0))"
    using send_resume_value by (metis prod.collapse)
  have b: "bearbeite engine_ok (history_of ?w1)
             (send_request engine_ok ''<a/>'' ''ESt_2020'' 5 (Some ''123456'') None (Some 3) ?w1) =
           Inr ?rp"
    by simp
  note t = omitted_transfer_handle_is_none[where eng = engine_ok and x = sample_xml
      and d = sample_dav and pdf = None and w = world0 and r = ?r and c = sample_cert
      and p = sample_pin and h = 5 and i = 2 and ?w1.0 = ?w1 and ta = "Some 3" and v = 3
      and rp = ?rp and pp = None and xb = "''<a/>''" and db = "''ESt_2020''"
      and pb = "Some ''123456''"]
  have e1: "build_print_params (pdf_arg None) True = Inr None \<and> str_encode sample_xml = Inr ''<a/>'' \<and>
    str_encode sample_dav = Inr ''ESt_2020''" by simp
  have e2: "build_print_params (pdf_arg None) False = Inr None \<and>
    load_certificate engine_ok sample_cert sample_pin world0 = (Inr (5, 2), ?w1) \<and>
    encode_opt sample_pin = Inr (Some ''123456'') \<and>
    str_encode sample_xml = Inr ''<a/>'' \<and> str_encode sample_dav = Inr ''ESt_2020''"
    using l by simp
  have 0: "filter is_transaction
     (new_calls world0 (snd (validate_xml engine_ok sample_xml sample_dav None world0))) =
     [BearbeiteVorgang (validate_request engine_ok ''<a/>'' ''ESt_2020'' None world0)] \<and>
     transfer (validate_request engine_ok ''<a/>'' ''ESt_2020'' None world0) = None"
    using t[THEN conjunct2, THEN conjunct2, THEN conjunct2, THEN conjunct2, THEN conjunct1] e1
    by (rule mp)
  have 1: "transfer (send_request engine_ok ''<a/>'' ''ESt_2020'' 5 (Some ''123456'') None (Some 3) ?w1)
             = Some 3"
    using t[THEN conjunct2, THEN conjunct2, THEN conjunct2, THEN conjunct2, THEN conjunct2,
            THEN conjunct1, THEN mp, OF e2, THEN conjunct2]
    by simp
  have 2: "transfer_handle ?r = Some 7"
    using t[THEN conjunct2, THEN conjunct2, THEN conjunct2, THEN conjunct2, THEN conjunct2,
            THEN conjunct2, THEN mp] e2 b s
    by simp
  show ?thesis
    using validate_ok_value send_ok_value fst_eqD[OF load_ok_value] 0[THEN conjunct1]
      0[THEN conjunct2] 1 send_resume_value 2
    by (intro conjI)
qed

subsection \<open>The other sample engines\<close>

lemma engine_reject_simps [simp]:
  "bearbeite engine_reject hist rq =
     Inr \<lparr>rc = 1, validation_out = ''diagnostic'', server_out = [], transfer_out = 0\<rparr>"
  "get_handle engine_reject hist c p = Inr (0, 5, 2)"
  "error_text engine_reject hist k = (if k = 0 then None else Some ''error'')"
  by (simp_all add: engine_reject_def)

lemma engine_reject_keep_simps [simp]:
  "bearbeite engine_reject_keep hist rq =
     Inr \<lparr>rc = 1, validation_out = ''diagnostic'', server_out = [], transfer_out = 0\<rparr>"
  "get_handle engine_reject_keep hist c p = Inr (0, 5, 2)"
  "error_text engine_reject_keep hist k = (if k = 0 then None else Some ''error'')"
  "close_handle engine_reject_keep hist h = 1"
  by (simp_all add: engine_reject_keep_def engine_reject_def)

lemma engine_raise_simps [simp]:
  "bearbeite engine_raise hist rq = Inl (ForeignError ''call'')"
  "get_handle engine_raise hist c p = Inr (0, 5, 2)"
  by (simp_all add: engine_raise_def)

lemma engine_nocert_simps [simp]:
  "get_handle engine_nocert hist c p = Inr (1, 0, 0)"
  "error_text engine_nocert hist k = (if k = 0 then None else Some ''error'')"
  by (simp_all add: engine_nocert_def)

lemma world0_simps [simp]:
  "calls world0 = []" "next_buffer world0 = 0" "buffers world0 = Map.empty"
  "stdout world0 = []"
  by (simp_all add: world0_def)

lemma load_sample [simp]:
  "fst (load_certificate engine_ok sample_cert sample_pin w) = Inr (5, 2)"
  "fst (load_certificate engine_reject sample_cert sample_pin w) = Inr (5, 2)"
  "fst (load_certificate engine_reject_keep sample_cert sample_pin w) = Inr (5, 2)"
  "fst (load_certificate engine_raise sample_cert sample_pin w) = Inr (5, 2)"
  "fst (load_certificate engine_nocert sample_cert sample_pin w) =
     Inl (EricError 1 (Some ''error''))"
  by (simp_all add: load_certificate_encoded(1)[OF sample_encodings(3,4)])

lemma load_sample_calls [simp]:
  "calls (snd (load_certificate engine_ok sample_cert sample_pin world0)) =
     [GetHandleToCertificate ''cert.pfx'' (Some ''123456''), GetErrorText 0]"
  "calls (snd (load_certificate engine_reject sample_cert sample_pin world0)) =
     [GetHandleToCertificate ''cert.pfx'' (Some ''123456''), GetErrorText 0]"
  "calls (snd (load_certificate engine_reject_keep sample_cert sample_pin world0)) =
     [GetHandleToCertificate ''cert.pfx'' (Some ''123456''), GetErrorText 0]"
  "calls (snd (load_certificate engine_raise sample_cert sample_pin world0)) =
     [GetHandleToCertificate ''cert.pfx'' (Some ''123456''), GetErrorText 0]"
  "calls (snd (load_certificate engine_nocert sample_cert sample_pin world0)) =
     [GetHandleToCertificate ''cert.pfx'' (Some ''123456''), GetErrorText 1]"
  by (simp_all add: load_certificate_encoded(2)[OF sample_encodings(3,4)])

lemma new_calls_world0 [simp]: "new_calls world0 w = calls w"
  by (simp add: new_calls_def)

section \<open>When the buffers are decoded\<close>




section \<open>The life of the two buffers\<close>

lemma validate_creates_frees:
  assumes "build_print_params (pdf_arg pdf) True = Inr pp"
    "str_encode x = Inr xb" "str_encode d = Inr db"
  shows "filter is_create (new_calls w (snd (validate_xml eng x d pdf w))) =
     [CreateBuffer (next_buffer w), CreateBuffer (Suc (next_buffer w))]"
  "filter is_free (new_calls w (snd (validate_xml eng x d pdf w))) =
     [FreeBuffer (next_buffer w), FreeBuffer (Suc (next_buffer w))]"
  by (simp_all add: validate_new_calls[OF assms] split: sum.splits)

lemma validate_buffers_gone:
  assumes "build_print_params (pdf_arg pdf) True = Inr pp"
    "str_encode x = Inr xb" "str_encode d = Inr db"
  shows "buffers (snd (validate_xml eng x d pdf w)) (next_buffer w) = None"
  "buffers (snd (validate_xml eng x d pdf w)) (Suc (next_buffer w)) = None"
  by (simp_all only: validate_run[OF assms] process_run_buffers)

lemma validate_stops_early:
  assumes "build_print_params (pdf_arg pdf) True = Inl e \<or> str_encode x = Inl e \<or>
    str_encode d = Inl e"
  shows "isl (fst (validate_xml eng x d pdf w))" and "snd (validate_xml eng x d pdf w) = w"
proof -
  have "isl (fst (validate_xml eng x d pdf w)) \<and> snd (validate_xml eng x d pdf w) = w"
  proof (cases "build_print_params (pdf_arg pdf) True")
    case (Inl e')
    then show ?thesis by (simp add: validate_no_print)
  next
    case pp: (Inr pp)
    show ?thesis
    proof (cases "str_encode x")
      case (Inl e')
      with pp show ?thesis by (simp add: validate_process process_not_encoded(1))
    next
      case xb: (Inr xb)
      with pp assms have "str_encode d = Inl e" by simp
      with pp xb show ?thesis by (simp add: validate_process process_not_encoded(2))
    qed
  qed
  then show "isl (fst (validate_xml eng x d pdf w))" and "snd (validate_xml eng x d pdf w) = w"
    by simp_all
qed

lemma send_creates_frees:
  assumes "build_print_params (pdf_arg pdf) False = Inr pp"
    "load_certificate eng c p w = (Inr (h, i), w1)"
    "str_encode x = Inr xb" "str_encode d = Inr db"
  shows "filter is_create (new_calls w (snd (send_xml eng x d c p pdf ta w))) =
     [CreateBuffer (next_buffer w), CreateBuffer (Suc (next_buffer w))]"
  "filter is_free (new_calls w (snd (send_xml eng x d c p pdf ta w))) =
     [FreeBuffer (next_buffer w), FreeBuffer (Suc (next_buffer w))]"
proof -
  from load_certificate_pin[OF assms(2)] obtain pb where pb: "encode_opt p = Inr pb" by blast
  note n = send_new_calls[OF assms(1,2) pb assms(3,4)]
  show "filter is_create (new_calls w (snd (send_xml eng x d c p pdf ta w))) =
     [CreateBuffer (next_buffer w), CreateBuffer (Suc (next_buffer w))]"
    by (simp add: n loaded_quiet[OF assms(2)] split: sum.splits)
  show "filter is_free (new_calls w (snd (send_xml eng x d c p pdf ta w))) =
     [FreeBuffer (next_buffer w), FreeBuffer (Suc (next_buffer w))]"
    by (simp add: n loaded_quiet[OF assms(2)] split: sum.splits)
qed

lemma send_buffers_gone:
  assumes "build_print_params (pdf_arg pdf) False = Inr pp"
    "load_certificate eng c p w = (Inr (h, i), w1)"
    "str_encode x = Inr xb" "str_encode d = Inr db"
  shows "buffers (snd (send_xml eng x d c p pdf ta w)) (next_buffer w) = None"
    "buffers (snd (send_xml eng x d c p pdf ta w)) (Suc (next_buffer w)) = None"
proof -
  from load_certificate_pin[OF assms(2)] obtain pb where pb: "encode_opt p = Inr pb" by blast
  have nb: "next_buffer w1 = next_buffer w"
    using load_certificate_next_buffer[of eng c p w] assms(2) by simp
  note s = send_xml_loaded(2)[OF assms(1,2) pb] process_encoded[OF assms(3,4)]
  show "buffers (snd (send_xml eng x d c p pdf ta w)) (next_buffer w) = None"
    using process_run_buffers(1)[of eng _ _ _ _ _ _ w1] by (simp add: s nb)
  show "buffers (snd (send_xml eng x d c p pdf ta w)) (Suc (next_buffer w)) = None"
    using process_run_buffers(2)[of eng _ _ _ _ _ _ w1] by (simp add: s nb)
qed

lemma send_not_loaded_quiet:
  assumes "load_certificate eng c p w = (Inl e, w1)"
  shows "isl (fst (send_xml eng x d c p pdf ta w))"
    and "filter is_create (new_calls w (snd (send_xml eng x d c p pdf ta w))) = []"
    and "filter is_free (new_calls w (snd (send_xml eng x d c p pdf ta w))) = []"
  by (cases "build_print_params (pdf_arg pdf) False";
      simp add: send_xml_no_print send_xml_not_loaded[OF _ assms] loaded_quiet[OF assms])+

lemma send_stops_early:
  assumes "build_print_params (pdf_arg pdf) False = Inl e \<or> str_encode x = Inl e \<or>
    str_encode d = Inl e"
  shows "isl (fst (send_xml eng x d c p pdf ta w))"
    and "filter is_create (new_calls w (snd (send_xml eng x d c p pdf ta w))) = []"
    and "filter is_free (new_calls w (snd (send_xml eng x d c p pdf ta w))) = []"
proof -
  have "isl (fst (send_xml eng x d c p pdf ta w)) \<and>
    filter is_create (new_calls w (snd (send_xml eng x d c p pdf ta w))) = [] \<and>
    filter is_free (new_calls w (snd (send_xml eng x d c p pdf ta w))) = []"
  proof (cases "build_print_params (pdf_arg pdf) False")
    case (Inl e')
    then show ?thesis by (simp add: send_xml_no_print)
  next
    case pp: (Inr pp)
    show ?thesis
    proof (cases "load_certificate eng c p w")
      case (Pair res w1)
      show ?thesis
      proof (cases res)
        case (Inl e')
        with Pair have "load_certificate eng c p w = (Inl e', w1)" by simp
        from send_not_loaded_quiet[OF this] show ?thesis by simp
      next
        case (Inr hi)
        obtain h i where hi: "hi = (h, i)" by (cases hi)
        have l: "load_certificate eng c p w = (Inr (h, i), w1)" using Pair Inr hi by simp
        from load_certificate_pin[OF l] obtain pb where pb: "encode_opt p = Inr pb" by blast
        have "\<exists>e'. str_encode x = Inl e' \<or> (\<exists>xb. str_encode x = Inr xb \<and> str_encode d = Inl e')"
          using assms pp by (cases "str_encode x") auto
        then obtain e' where
          "str_encode x = Inl e' \<or> (\<exists>xb. str_encode x = Inr xb \<and> str_encode d = Inl e')" ..
        note f = send_xml_fails_early[OF pp l pb this]
        show ?thesis by (simp add: f loaded_quiet[OF l])
      qed
    qed
  qed
  then show "isl (fst (send_xml eng x d c p pdf ta w))"
    and "filter is_create (new_calls w (snd (send_xml eng x d c p pdf ta w))) = []"
    and "filter is_free (new_calls w (snd (send_xml eng x d c p pdf ta w))) = []"
    by simp_all
qed

lemma send_nocert_value:
  "send_xml engine_nocert sample_xml sample_dav sample_cert sample_pin None None world0 =
     (Inl (EricError 1 (Some ''error'')),
      snd (load_certificate engine_nocert sample_cert sample_pin world0))"
proof -
  have l: "load_certificate engine_nocert sample_cert sample_pin world0 =
             (Inl (EricError 1 (Some ''error'')),
              snd (load_certificate engine_nocert sample_cert sample_pin world0))"
    using load_sample(5)[of world0] by (metis prod.collapse)
  show ?thesis by (rule send_xml_not_loaded[OF no_pdf l])
qed

lemma broken_pdf [simp]: "build_print_params (pdf_arg (Some broken_text)) preview = Inl UnicodeEncodeError"
  by (simp add: build_print_params_def pdf_arg_def truthy_def broken_text_def str_encode_def
        surrogate_def)

text \<open>
  Claim C6 says that every invocation of validate or send allocates exactly two buffers and
  frees exactly two, on every exit path. Both functions can raise before the buffers are
  allocated in \<^verbatim>\<open>_process\<close>, and then none is allocated: \<^verbatim>\<open>send_xml\<close> when the engine
  refuses the certificate, and either of the two when a text cannot be encoded as UTF-8.
\<close>

theorem send_without_certificate_allocates_nothing:
  "fst (send_xml engine_nocert sample_xml sample_dav sample_cert sample_pin None None world0) =
     Inl (EricError 1 (Some ''error'')) \<and>
   length (filter is_create (new_calls world0
     (snd (send_xml engine_nocert sample_xml sample_dav sample_cert sample_pin None None world0))))
     = 0 \<and>
   fst (validate_xml engine_ok broken_text sample_dav None world0) = Inl UnicodeEncodeError \<and>
   length (filter is_create (new_calls world0
     (snd (validate_xml engine_ok broken_text sample_dav None world0)))) = 0 \<and>
   fst (validate_xml engine_ok sample_xml sample_dav (Some broken_text) world0) =
     Inl UnicodeEncodeError \<and>
   length (filter is_create (new_calls world0
     (snd (validate_xml engine_ok sample_xml sample_dav (Some broken_text) world0)))) = 0"
  by (simp add: send_nocert_value validate_process[OF no_pdf] process_not_encoded(1)
        validate_no_print[OF broken_pdf])

text \<open>
  Claim C6, amended. An invocation of \<^verbatim>\<open>validate_xml\<close> or \<^verbatim>\<open>send_xml\<close> that gets as far
  as the allocation (the print parameters are built, for \<^verbatim>\<open>send_xml\<close> the certificate is
  loaded, and the XML text and the version of the data type are encoded) allocates exactly
  two buffers and frees exactly these two, whatever the transaction does (return 0, return
  another code, raise), and neither buffer is alive afterwards. An invocation that raises
  before (the path of the PDF, the XML text or the version cannot be encoded, or the
  certificate cannot be loaded) allocates and frees none.
\<close>

theorem two_buffers_created_and_freed:
  "(build_print_params (pdf_arg pdf) True = Inr pp \<and> str_encode x = Inr xb \<and>
    str_encode d = Inr db \<longrightarrow>
      filter is_create (new_calls w (snd (validate_xml eng x d pdf w))) =
        [CreateBuffer (next_buffer w), CreateBuffer (Suc (next_buffer w))] \<and>
      filter is_free (new_calls w (snd (validate_xml eng x d pdf w))) =
        [FreeBuffer (next_buffer w), FreeBuffer (Suc (next_buffer w))] \<and>
      buffers (snd (validate_xml eng x d pdf w)) (next_buffer w) = None \<and>
      buffers (snd (validate_xml eng x d pdf w)) (Suc (next_buffer w)) = None) \<and>
   (build_print_params (pdf_arg pdf) True = Inl e \<or> str_encode x = Inl e \<or>
    str_encode d = Inl e \<longrightarrow>
      isl (fst (validate_xml eng x d pdf w)) \<and>
      snd (validate_xml eng x d pdf w) = w \<and>
      filter is_create (new_calls w (snd (validate_xml eng x d pdf w))) = [] \<and>
      filter is_free (new_calls w (snd (validate_xml eng x d pdf w))) = []) \<and>
   (build_print_params (pdf_arg pdf) False = Inr pp \<and>
    load_certificate eng c p w = (Inr (h, i), w1) \<and>
    str_encode x = Inr xb \<and> str_encode d = Inr db \<longrightarrow>
      filter is_create (new_calls w (snd (send_xml eng x d c p pdf ta w))) =
        [CreateBuffer (next_buffer w), CreateBuffer (Suc (next_buffer w))] \<and>
      filter is_free (new_calls w (snd (send_xml eng x d c p pdf ta w))) =
        [FreeBuffer (next_buffer w), FreeBuffer (Suc (next_buffer w))] \<and>
      buffers (snd (send_xml eng x d c p pdf ta w)) (next_buffer w) = None \<and>
      buffers (snd (send_xml eng x d c p pdf ta w)) (Suc (next_buffer w)) = None) \<and>
   (load_certificate eng c p w = (Inl e, w1) \<longrightarrow>
      isl (fst (send_xml eng x d c p pdf ta w)) \<and>
      filter is_create (new_calls w (snd (send_xml eng x d c p pdf ta w))) = [] \<and>
      filter is_free (new_calls w (snd (send_xml eng x d c p pdf ta w))) = []) \<and>
   (build_print_params (pdf_arg pdf) False = Inl e \<or> str_encode x = Inl e \<or>
    str_encode d = Inl e \<longrightarrow>
      isl (fst (send_xml eng x d c p pdf ta w)) \<and>
      filter is_create (new_calls w (snd (send_xml eng x d c p pdf ta w))) = [] \<and>
      filter is_free (new_calls w (snd (send_xml eng x d c p pdf ta w))) = [])"
proof (intro conjI impI)
  assume a: "build_print_params (pdf_arg pdf) True = Inr pp \<and> str_encode x = Inr xb \<and>
    str_encode d = Inr db"
  then have e: "build_print_params (pdf_arg pdf) True = Inr pp" "str_encode x = Inr xb"
    "str_encode d = Inr db" by simp_all
  show "filter is_create (new_calls w (snd (validate_xml eng x d pdf w))) =
        [CreateBuffer (next_buffer w), CreateBuffer (Suc (next_buffer w))]"
    by (rule validate_creates_frees(1)[OF e])
  show "filter is_free (new_calls w (snd (validate_xml eng x d pdf w))) =
        [FreeBuffer (next_buffer w), FreeBuffer (Suc (next_buffer w))]"
    by (rule validate_creates_frees(2)[OF e])
  show "buffers (snd (validate_xml eng x d pdf w)) (next_buffer w) = None"
    by (rule validate_buffers_gone(1)[OF e])
  show "buffers (snd (validate_xml eng x d pdf w)) (Suc (next_buffer w)) = None"
    by (rule validate_buffers_gone(2)[OF e])
next
  assume a: "build_print_params (pdf_arg pdf) True = Inl e \<or> str_encode x = Inl e \<or>
    str_encode d = Inl e"
  show "isl (fst (validate_xml eng x d pdf w))" by (rule validate_stops_early(1)[OF a])
  show "snd (validate_xml eng x d pdf w) = w" by (rule validate_stops_early(2)[OF a])
  show "filter is_create (new_calls w (snd (validate_xml eng x d pdf w))) = []"
    by (simp add: validate_stops_early(2)[OF a])
  show "filter is_free (new_calls w (snd (validate_xml eng x d pdf w))) = []"
    by (simp add: validate_stops_early(2)[OF a])
next
  assume a: "build_print_params (pdf_arg pdf) False = Inr pp \<and>
    load_certificate eng c p w = (Inr (h, i), w1) \<and>
    str_encode x = Inr xb \<and> str_encode d = Inr db"
  then have e: "build_print_params (pdf_arg pdf) False = Inr pp"
    "load_certificate eng c p w = (Inr (h, i), w1)"
    "str_encode x = Inr xb" "str_encode d = Inr db" by simp_all
  show "filter is_create (new_calls w (snd (send_xml eng x d c p pdf ta w))) =
        [CreateBuffer (next_buffer w), CreateBuffer (Suc (next_buffer w))]"
    by (rule send_creates_frees(1)[OF e])
  show "filter is_free (new_calls w (snd (send_xml eng x d c p pdf ta w))) =
        [FreeBuffer (next_buffer w), FreeBuffer (Suc (next_buffer w))]"
    by (rule send_creates_frees(2)[OF e])
  show "buffers (snd (send_xml eng x d c p pdf ta w)) (next_buffer w) = None"
    by (rule send_buffers_gone(1)[OF e])
  show "buffers (snd (send_xml eng x d c p pdf ta w)) (Suc (next_buffer w)) = None"
    by (rule send_buffers_gone(2)[OF e])
next
  assume l: "load_certificate eng c p w = (Inl e, w1)"
  show "isl (fst (send_xml eng x d c p pdf ta w))" by (rule send_not_loaded_quiet(1)[OF l])
  show "filter is_create (new_calls w (snd (send_xml eng x d c p pdf ta w))) = []"
    by (rule send_not_loaded_quiet(2)[OF l])
  show "filter is_free (new_calls w (snd (send_xml eng x d c p pdf ta w))) = []"
    by (rule send_not_loaded_quiet(3)[OF l])
next
  assume a: "build_print_params (pdf_arg pdf) False = Inl e \<or> str_encode x = Inl e \<or>
    str_encode d = Inl e"
  show "isl (fst (send_xml eng x d c p pdf ta w))" by (rule send_stops_early(1)[OF a])
  show "filter is_create (new_calls w (snd (send_xml eng x d c p pdf ta w))) = []"
    by (rule send_stops_early(2)[OF a])
  show "filter is_free (new_calls w (snd (send_xml eng x d c p pdf ta w))) = []"
    by (rule send_stops_early(3)[OF a])
qed

theorem two_buffers_created_and_freed_witness:
  "fst (validate_xml engine_raise sample_xml sample_dav None world0) = Inl (ForeignError ''call'') \<and>
   filter is_create (new_calls world0 (snd (validate_xml engine_raise sample_xml sample_dav None world0)))
     = [CreateBuffer 0, CreateBuffer (Suc 0)] \<and>
   filter is_free (new_calls world0 (snd (validate_xml engine_raise sample_xml sample_dav None world0)))
     = [FreeBuffer 0, FreeBuffer (Suc 0)] \<and>
   fst (send_xml engine_reject sample_xml sample_dav sample_cert sample_pin None None world0) =
     Inl (EricError 1 (Some ''error'')) \<and>
   filter is_create (new_calls world0
     (snd (send_xml engine_reject sample_xml sample_dav sample_cert sample_pin None None world0)))
     = [CreateBuffer 0, CreateBuffer (Suc 0)] \<and>
   filter is_free (new_calls world0
     (snd (send_xml engine_reject sample_xml sample_dav sample_cert sample_pin None None world0)))
     = [FreeBuffer 0, FreeBuffer (Suc 0)] \<and>
   filter is_free (new_calls world0
     (snd (send_xml engine_nocert sample_xml sample_dav sample_cert sample_pin None None world0)))
     = [] \<and>
   str_encode broken_text = Inl UnicodeEncodeError \<and>
   snd (validate_xml engine_ok broken_text sample_dav None world0) = world0 \<and>
   filter is_create (new_calls world0 (snd (validate_xml engine_ok broken_text sample_dav None world0)))
     = [] \<and>
   filter is_create (new_calls world0
     (snd (send_xml engine_ok sample_xml broken_text sample_cert sample_pin None None world0)))
     = [] \<and>
   filter is_free (new_calls world0
     (snd (send_xml engine_ok sample_xml broken_text sample_cert sample_pin None None world0)))
     = []"
proof -
  let ?w2 = "snd (load_certificate engine_reject sample_cert sample_pin world0)"
  let ?w3 = "snd (load_certificate engine_nocert sample_cert sample_pin world0)"
  have l2: "load_certificate engine_reject sample_cert sample_pin world0 = (Inr (5, 2), ?w2)"
    by (rule load_collapse) simp
  have l3: "load_certificate engine_nocert sample_cert sample_pin world0 =
              (Inl (EricError 1 (Some ''error'')), ?w3)"
    using load_sample(5)[of world0] by (metis prod.collapse)
  note v = two_buffers_created_and_freed[where eng = engine_raise and x = sample_xml
      and d = sample_dav and pdf = None and w = world0 and pp = None and xb = "''<a/>''"
      and db = "''ESt_2020''"]
  note s = two_buffers_created_and_freed[where eng = engine_reject and x = sample_xml
      and d = sample_dav and pdf = None and w = world0 and c = sample_cert
      and p = sample_pin and h = 5 and i = 2 and ?w1.0 = ?w2 and ta = None and pp = None
      and xb = "''<a/>''" and db = "''ESt_2020''"]
  note n = two_buffers_created_and_freed[where eng = engine_nocert and x = sample_xml
      and d = sample_dav and pdf = None and w = world0 and c = sample_cert
      and p = sample_pin and e = "EricError 1 (Some ''error'')" and ?w1.0 = ?w3 and ta = None]
  note u = two_buffers_created_and_freed[where eng = engine_ok and x = broken_text
      and d = sample_dav and pdf = None and w = world0 and e = UnicodeEncodeError]
  note t = two_buffers_created_and_freed[where eng = engine_ok and x = sample_xml
      and d = broken_text and pdf = None and w = world0 and c = sample_cert
      and p = sample_pin and e = UnicodeEncodeError and ta = None]
  have a: "filter is_create (new_calls world0 (snd (validate_xml engine_raise sample_xml sample_dav None world0)))
     = [CreateBuffer 0, CreateBuffer (Suc 0)]"
    using v[THEN conjunct1] by simp
  have b: "filter is_free (new_calls world0 (snd (validate_xml engine_raise sample_xml sample_dav None world0)))
     = [FreeBuffer 0, FreeBuffer (Suc 0)]"
    using v[THEN conjunct1] by simp
  have c: "filter is_create (new_calls world0
     (snd (send_xml engine_reject sample_xml sample_dav sample_cert sample_pin None None world0)))
     = [CreateBuffer 0, CreateBuffer (Suc 0)] \<and>
   filter is_free (new_calls world0
     (snd (send_xml engine_reject sample_xml sample_dav sample_cert sample_pin None None world0)))
     = [FreeBuffer 0, FreeBuffer (Suc 0)]"
    using s[THEN conjunct2, THEN conjunct2, THEN conjunct1] l2 by simp
  have d: "filter is_free (new_calls world0
     (snd (send_xml engine_nocert sample_xml sample_dav sample_cert sample_pin None None world0)))
     = []"
    using n[THEN conjunct2, THEN conjunct2, THEN conjunct2, THEN conjunct1] l3 by simp
  have f: "fst (validate_xml engine_raise sample_xml sample_dav None world0) = Inl (ForeignError ''call'')"
    by (simp add: validate_outcome[OF no_pdf sample_encodings(1,2)])
  have g: "fst (send_xml engine_reject sample_xml sample_dav sample_cert sample_pin None None world0) =
     Inl (EricError 1 (Some ''error''))"
    by (simp add: send_outcome[OF no_pdf l2 sample_encodings(4,1,2)])
  have k: "snd (validate_xml engine_ok broken_text sample_dav None world0) = world0 \<and>
   filter is_create (new_calls world0 (snd (validate_xml engine_ok broken_text sample_dav None world0)))
     = []"
    using u[THEN conjunct2, THEN conjunct1] by simp
  have m: "filter is_create (new_calls world0
     (snd (send_xml engine_ok sample_xml broken_text sample_cert sample_pin None None world0)))
     = [] \<and>
   filter is_free (new_calls world0
     (snd (send_xml engine_ok sample_xml broken_text sample_cert sample_pin None None world0)))
     = []"
    using t[THEN conjunct2, THEN conjunct2, THEN conjunct2, THEN conjunct2] by simp
  show ?thesis using a b c d f g k m sample_encodings(5) by (intro conjI) simp_all
qed


section \<open>The certificate handle\<close>

lemma send_releases:
  assumes "build_print_params (pdf_arg pdf) False = Inr pp"
    "load_certificate eng c p w = (Inr (h, i), w1)"
  shows "filter is_release (new_calls w (snd (send_xml eng x d c p pdf ta w))) =
           [CloseHandleToCertificate h]"
    and "last (calls (snd (send_xml eng x d c p pdf ta w))) = CloseHandleToCertificate h"
proof -
  from load_certificate_pin[OF assms(2)] obtain pb where pb: "encode_opt p = Inr pb" by blast
  show "filter is_release (new_calls w (snd (send_xml eng x d c p pdf ta w))) =
           [CloseHandleToCertificate h]"
    by (simp add: send_xml_new_calls[OF assms pb] loaded_quiet(5)[OF assms(2)] process_quiet)
  show "last (calls (snd (send_xml eng x d c p pdf ta w))) = CloseHandleToCertificate h"
    by (simp only: send_xml_loaded(2)[OF assms pb] calls_log_call last_snoc)
qed

text \<open>
  Claim C2. In \<^verbatim>\<open>send_xml\<close>: when loading the certificate raises, the same error leaves
  \<^verbatim>\<open>send_xml\<close> and neither a transaction nor a release of a handle was called. When the
  certificate is loaded, the handle is released exactly once, as the last call, whatever
  happens after the loading; when the transaction then raises or returns a code other than
  0, or a text cannot be encoded, the error that leaves is that one, whatever the release
  returns.
\<close>

theorem send_releases_handle_once:
  "(build_print_params (pdf_arg pdf) False = Inr pp \<and>
    load_certificate eng c p w = (Inl e, w1) \<longrightarrow>
      send_xml eng x d c p pdf ta w = (Inl e, w1) \<and>
      filter is_transaction (new_calls w w1) = [] \<and>
      filter is_release (new_calls w w1) = []) \<and>
   (build_print_params (pdf_arg pdf) False = Inr pp \<and>
    load_certificate eng c p w = (Inr (h, i), w1) \<longrightarrow>
      filter is_release (new_calls w (snd (send_xml eng x d c p pdf ta w))) =
        [CloseHandleToCertificate h] \<and>
      last (calls (snd (send_xml eng x d c p pdf ta w))) = CloseHandleToCertificate h) \<and>
   (build_print_params (pdf_arg pdf) False = Inr pp \<and>
    load_certificate eng c p w = (Inr (h, i), w1) \<and> encode_opt p = Inr pb \<and>
    str_encode x = Inr xb \<and> str_encode d = Inr db \<and>
    bearbeite eng (history_of w1) (send_request eng xb db h pb pp ta w1) = Inl e \<longrightarrow>
      fst (send_xml eng x d c p pdf ta w) = Inl e \<and>
      filter is_release (new_calls w (snd (send_xml eng x d c p pdf ta w))) =
        [CloseHandleToCertificate h] \<and>
      last (calls (snd (send_xml eng x d c p pdf ta w))) = CloseHandleToCertificate h) \<and>
   (build_print_params (pdf_arg pdf) False = Inr pp \<and>
    load_certificate eng c p w = (Inr (h, i), w1) \<and> encode_opt p = Inr pb \<and>
    str_encode x = Inr xb \<and> str_encode d = Inr db \<and>
    bearbeite eng (history_of w1) (send_request eng xb db h pb pp ta w1) = Inr rp \<and>
    rc rp \<noteq> 0 \<longrightarrow>
      fst (send_xml eng x d c p pdf ta w) =
        Inl (EricError (rc rp)
               (error_text eng
                  (history_of w1 @ [BearbeiteVorgang (send_request eng xb db h pb pp ta w1)])
                  (rc rp))) \<and>
      filter is_release (new_calls w (snd (send_xml eng x d c p pdf ta w))) =
        [CloseHandleToCertificate h] \<and>
      last (calls (snd (send_xml eng x d c p pdf ta w))) = CloseHandleToCertificate h) \<and>
   (build_print_params (pdf_arg pdf) False = Inr pp \<and>
    load_certificate eng c p w = (Inr (h, i), w1) \<and>
    (str_encode x = Inl e \<or> (\<exists>xb. str_encode x = Inr xb \<and> str_encode d = Inl e)) \<longrightarrow>
      fst (send_xml eng x d c p pdf ta w) = Inl e \<and>
      new_calls w (snd (send_xml eng x d c p pdf ta w)) =
        new_calls w w1 @ [CloseHandleToCertificate h]) \<and>
   (build_print_params (pdf_arg pdf) False = Inl e \<longrightarrow>
      send_xml eng x d c p pdf ta w = (Inl e, w))"
proof (intro conjI impI)
  assume a: "build_print_params (pdf_arg pdf) False = Inr pp \<and>
    load_certificate eng c p w = (Inl e, w1)"
  then have pp: "build_print_params (pdf_arg pdf) False = Inr pp"
    and l: "load_certificate eng c p w = (Inl e, w1)" by simp_all
  show "send_xml eng x d c p pdf ta w = (Inl e, w1)" by (rule send_xml_not_loaded[OF pp l])
  show "filter is_transaction (new_calls w w1) = []" by (rule loaded_quiet(4)[OF l])
  show "filter is_release (new_calls w w1) = []" by (rule loaded_quiet(5)[OF l])
next
  assume a: "build_print_params (pdf_arg pdf) False = Inr pp \<and>
    load_certificate eng c p w = (Inr (h, i), w1)"
  then have e: "build_print_params (pdf_arg pdf) False = Inr pp"
    "load_certificate eng c p w = (Inr (h, i), w1)" by simp_all
  show "filter is_release (new_calls w (snd (send_xml eng x d c p pdf ta w))) =
        [CloseHandleToCertificate h]" by (rule send_releases(1)[OF e])
  show "last (calls (snd (send_xml eng x d c p pdf ta w))) = CloseHandleToCertificate h"
    by (rule send_releases(2)[OF e])
next
  assume a: "build_print_params (pdf_arg pdf) False = Inr pp \<and>
    load_certificate eng c p w = (Inr (h, i), w1) \<and> encode_opt p = Inr pb \<and>
    str_encode x = Inr xb \<and> str_encode d = Inr db \<and>
    bearbeite eng (history_of w1) (send_request eng xb db h pb pp ta w1) = Inl e"
  then have e: "build_print_params (pdf_arg pdf) False = Inr pp"
    "load_certificate eng c p w = (Inr (h, i), w1)" "encode_opt p = Inr pb"
    "str_encode x = Inr xb" "str_encode d = Inr db" by simp_all
  show "fst (send_xml eng x d c p pdf ta w) = Inl e"
    using a by (simp add: send_outcome[OF e])
  show "filter is_release (new_calls w (snd (send_xml eng x d c p pdf ta w))) =
        [CloseHandleToCertificate h]" by (rule send_releases(1)[OF e(1,2)])
  show "last (calls (snd (send_xml eng x d c p pdf ta w))) = CloseHandleToCertificate h"
    by (rule send_releases(2)[OF e(1,2)])
next
  assume a: "build_print_params (pdf_arg pdf) False = Inr pp \<and>
    load_certificate eng c p w = (Inr (h, i), w1) \<and> encode_opt p = Inr pb \<and>
    str_encode x = Inr xb \<and> str_encode d = Inr db \<and>
    bearbeite eng (history_of w1) (send_request eng xb db h pb pp ta w1) = Inr rp \<and>
    rc rp \<noteq> 0"
  then have e: "build_print_params (pdf_arg pdf) False = Inr pp"
    "load_certificate eng c p w = (Inr (h, i), w1)" "encode_opt p = Inr pb"
    "str_encode x = Inr xb" "str_encode d = Inr db" by simp_all
  show "fst (send_xml eng x d c p pdf ta w) =
        Inl (EricError (rc rp)
               (error_text eng
                  (history_of w1 @ [BearbeiteVorgang (send_request eng xb db h pb pp ta w1)])
                  (rc rp)))"
    using a by (simp add: send_outcome[OF e])
  show "filter is_release (new_calls w (snd (send_xml eng x d c p pdf ta w))) =
        [CloseHandleToCertificate h]" by (rule send_releases(1)[OF e(1,2)])
  show "last (calls (snd (send_xml eng x d c p pdf ta w))) = CloseHandleToCertificate h"
    by (rule send_releases(2)[OF e(1,2)])
next
  assume a: "build_print_params (pdf_arg pdf) False = Inr pp \<and>
    load_certificate eng c p w = (Inr (h, i), w1) \<and>
    (str_encode x = Inl e \<or> (\<exists>xb. str_encode x = Inr xb \<and> str_encode d = Inl e))"
  then have e: "build_print_params (pdf_arg pdf) False = Inr pp"
    "load_certificate eng c p w = (Inr (h, i), w1)"
    and f: "str_encode x = Inl e \<or> (\<exists>xb. str_encode x = Inr xb \<and> str_encode d = Inl e)"
    by simp_all
  from load_certificate_pin[OF e(2)] obtain pb' where pb: "encode_opt p = Inr pb'" by blast
  show "fst (send_xml eng x d c p pdf ta w) = Inl e"
    by (rule send_xml_fails_early(1)[OF e pb f])
  show "new_calls w (snd (send_xml eng x d c p pdf ta w)) =
        new_calls w w1 @ [CloseHandleToCertificate h]"
    by (rule send_xml_fails_early(2)[OF e pb f])
next
  assume "build_print_params (pdf_arg pdf) False = Inl e"
  then show "send_xml eng x d c p pdf ta w = (Inl e, w)" by (rule send_xml_no_print)
qed

theorem send_releases_handle_once_witness:
  "fst (send_xml engine_nocert sample_xml sample_dav sample_cert sample_pin None None world0) =
     Inl (EricError 1 (Some ''error'')) \<and>
   filter is_transaction (new_calls world0
     (snd (send_xml engine_nocert sample_xml sample_dav sample_cert sample_pin None None world0)))
     = [] \<and>
   filter is_release (new_calls world0
     (snd (send_xml engine_nocert sample_xml sample_dav sample_cert sample_pin None None world0)))
     = [] \<and>
   fst (send_xml engine_raise sample_xml sample_dav sample_cert sample_pin None None world0) =
     Inl (ForeignError ''call'') \<and>
   filter is_release (new_calls world0
     (snd (send_xml engine_raise sample_xml sample_dav sample_cert sample_pin None None world0)))
     = [CloseHandleToCertificate 5] \<and>
   close_handle engine_reject_keep [] 5 = 1 \<and>
   fst (send_xml engine_reject_keep sample_xml sample_dav sample_cert sample_pin None None world0) =
     Inl (EricError 1 (Some ''error'')) \<and>
   filter is_release (new_calls world0
     (snd (send_xml engine_reject_keep sample_xml sample_dav sample_cert sample_pin None None world0)))
     = [CloseHandleToCertificate 5] \<and>
   last (calls
     (snd (send_xml engine_reject_keep sample_xml sample_dav sample_cert sample_pin None None world0)))
     = CloseHandleToCertificate 5 \<and>
   fst (send_xml engine_ok broken_text sample_dav sample_cert sample_pin None None world0) =
     Inl UnicodeEncodeError \<and>
   new_calls world0
     (snd (send_xml engine_ok broken_text sample_dav sample_cert sample_pin None None world0)) =
     [GetHandleToCertificate ''cert.pfx'' (Some ''123456''), GetErrorText 0,
      CloseHandleToCertificate 5] \<and>
   send_xml engine_ok sample_xml sample_dav sample_cert sample_pin (Some broken_text) None world0 =
     (Inl UnicodeEncodeError, world0)"
proof -
  let ?no = "\<lparr>rc = 1, validation_out = ''diagnostic'', server_out = [], transfer_out = 0\<rparr>"
  let ?w1 = "snd (load_certificate engine_nocert sample_cert sample_pin world0)"
  let ?w2 = "snd (load_certificate engine_raise sample_cert sample_pin world0)"
  let ?w3 = "snd (load_certificate engine_reject_keep sample_cert sample_pin world0)"
  let ?w4 = "snd (load_certificate engine_ok sample_cert sample_pin world0)"
  have l1: "load_certificate engine_nocert sample_cert sample_pin world0 =
              (Inl (EricError 1 (Some ''error'')), ?w1)"
    using load_sample(5)[of world0] by (metis prod.collapse)
  have l2: "load_certificate engine_raise sample_cert sample_pin world0 = (Inr (5, 2), ?w2)"
    by (rule load_collapse) simp
  have l3: "load_certificate engine_reject_keep sample_cert sample_pin world0 = (Inr (5, 2), ?w3)"
    by (rule load_collapse) simp
  note n = send_releases_handle_once[where eng = engine_nocert and x = sample_xml
      and d = sample_dav and pdf = None and w = world0 and c = sample_cert
      and p = sample_pin and e = "EricError 1 (Some ''error'')" and ?w1.0 = ?w1 and ta = None
      and pp = None,
      THEN conjunct1, THEN mp, OF conjI, OF no_pdf l1]
  note r = send_releases_handle_once[where eng = engine_raise and x = sample_xml
      and d = sample_dav and pdf = None and w = world0 and c = sample_cert
      and p = sample_pin and e = "ForeignError ''call''" and h = 5 and i = 2
      and ?w1.0 = ?w2 and ta = None and pp = None and xb = "''<a/>''" and db = "''ESt_2020''"
      and pb = "Some ''123456''",
      THEN conjunct2, THEN conjunct2, THEN conjunct1, THEN mp]
  note k = send_releases_handle_once[where eng = engine_reject_keep and x = sample_xml
      and d = sample_dav and pdf = None and w = world0 and c = sample_cert
      and p = sample_pin and rp = ?no and h = 5 and i = 2
      and ?w1.0 = ?w3 and ta = None and pp = None and xb = "''<a/>''" and db = "''ESt_2020''"
      and pb = "Some ''123456''",
      THEN conjunct2, THEN conjunct2, THEN conjunct2, THEN conjunct1, THEN mp]
  note u = send_releases_handle_once[where eng = engine_ok and x = broken_text
      and d = sample_dav and pdf = None and w = world0 and c = sample_cert
      and p = sample_pin and e = UnicodeEncodeError and h = 5 and i = 2
      and ?w1.0 = ?w4 and ta = None and pp = None,
      THEN conjunct2, THEN conjunct2, THEN conjunct2, THEN conjunct2, THEN conjunct1, THEN mp]
  note q = send_releases_handle_once[where eng = engine_ok and x = sample_xml
      and d = sample_dav and pdf = "Some broken_text" and w = world0 and c = sample_cert
      and p = sample_pin and e = UnicodeEncodeError and ta = None,
      THEN conjunct2, THEN conjunct2, THEN conjunct2, THEN conjunct2, THEN conjunct2, THEN mp,
      OF broken_pdf]
  have a: "fst (send_xml engine_nocert sample_xml sample_dav sample_cert sample_pin None None world0) =
     Inl (EricError 1 (Some ''error'')) \<and>
   filter is_transaction (new_calls world0
     (snd (send_xml engine_nocert sample_xml sample_dav sample_cert sample_pin None None world0)))
     = [] \<and>
   filter is_release (new_calls world0
     (snd (send_xml engine_nocert sample_xml sample_dav sample_cert sample_pin None None world0)))
     = []"
    using n by simp
  have b: "fst (send_xml engine_raise sample_xml sample_dav sample_cert sample_pin None None world0) =
     Inl (ForeignError ''call'') \<and>
   filter is_release (new_calls world0
     (snd (send_xml engine_raise sample_xml sample_dav sample_cert sample_pin None None world0)))
     = [CloseHandleToCertificate 5]"
    using r l2 by simp
  have c: "fst (send_xml engine_reject_keep sample_xml sample_dav sample_cert sample_pin None None world0) =
     Inl (EricError 1 (Some ''error'')) \<and>
   filter is_release (new_calls world0
     (snd (send_xml engine_reject_keep sample_xml sample_dav sample_cert sample_pin None None world0)))
     = [CloseHandleToCertificate 5] \<and>
   last (calls
     (snd (send_xml engine_reject_keep sample_xml sample_dav sample_cert sample_pin None None world0)))
     = CloseHandleToCertificate 5"
    using k l3 by simp
  have d: "fst (send_xml engine_ok broken_text sample_dav sample_cert sample_pin None None world0) =
     Inl UnicodeEncodeError \<and>
   new_calls world0
     (snd (send_xml engine_ok broken_text sample_dav sample_cert sample_pin None None world0)) =
     [GetHandleToCertificate ''cert.pfx'' (Some ''123456''), GetErrorText 0,
      CloseHandleToCertificate 5]"
    using u load_ok_value by simp
  show ?thesis using a b c d q by (intro conjI) simp_all
qed

section \<open>Closing the client\<close>

lemma close_uninitialized:
  "\<not> initialized self \<Longrightarrow> close eng self w = (Inr (), self, w)"
  by (simp add: close_def)

lemma close_initialized:
  assumes "initialized self"
  shows "close eng self w =
     (if shutdown_rc eng (calls w) = 0
      then (Inr (), self\<lparr>initialized := False\<rparr>,
            log_call (GetErrorText 0) (log_call ShutdownEric w))
      else (Inl (EricError (shutdown_rc eng (calls w))
                   (error_text eng (calls w @ [ShutdownEric]) (shutdown_rc eng (calls w)))),
            self,
            log_call (GetErrorText (shutdown_rc eng (calls w))) (log_call ShutdownEric w)))"
  using assms
  by (simp add: close_def shutdown_eric_def get_error_text_def check_eric_result_def)

lemma engine_stuck_simps [simp]:
  "shutdown_rc engine_stuck hist = 1"
  "error_text engine_stuck hist k = (if k = 0 then None else Some ''error'')"
  by (simp_all add: engine_stuck_def engine_ok_def)

lemma engine_ok_shutdown [simp]: "shutdown_rc engine_ok hist = 0"
  by (simp add: engine_ok_def)

lemma client0_initialized [simp]: "initialized client0"
  by (simp add: client0_def)

text \<open>
  Claim C8 says that two calls of \<^verbatim>\<open>close()\<close> in succession on an initialised client
  call the shutdown of the engine at most once and that the second call never raises. The
  flag \<^verbatim>\<open>_initialized\<close> is reset only after the return code of the shutdown has been
  checked: when the shutdown fails, the first call raises, the client is still initialised,
  and the second call calls the shutdown again and raises again.
\<close>

theorem second_close_calls_shutdown_again:
  "initialized client0 \<and>
   fst (close engine_stuck client0 world0) = Inl (EricError 1 (Some ''error'')) \<and>
   fst (close engine_stuck (fst (snd (close engine_stuck client0 world0)))
          (snd (snd (close engine_stuck client0 world0)))) = Inl (EricError 1 (Some ''error'')) \<and>
   length (filter is_shutdown (calls (snd (snd
     (close engine_stuck (fst (snd (close engine_stuck client0 world0)))
          (snd (snd (close engine_stuck client0 world0)))))))) = 2"
  by (simp add: close_initialized)

text \<open>
  Claim C8, amended. \<^verbatim>\<open>close()\<close> on a client that is not initialised does nothing. On
  an initialised client it calls the shutdown once. When the shutdown returns the code 0,
  \<^verbatim>\<open>close()\<close> returns and the client is no longer initialised, so a second
  \<^verbatim>\<open>close()\<close> does nothing and does not raise. When the shutdown returns another code,
  \<^verbatim>\<open>close()\<close> raises the engine error with that code and the client is unchanged, so
  still initialised, and a second \<^verbatim>\<open>close()\<close> calls the shutdown again.
\<close>

theorem close_idempotent_after_success:
  "(\<not> initialized self \<longrightarrow> close eng self w = (Inr (), self, w)) \<and>
   (initialized self \<and> shutdown_rc eng (calls w) = 0 \<longrightarrow>
      close eng self w =
        (Inr (), self\<lparr>initialized := False\<rparr>,
         log_call (GetErrorText 0) (log_call ShutdownEric w))) \<and>
   (initialized self \<and> shutdown_rc eng (calls w) \<noteq> 0 \<longrightarrow>
      close eng self w =
        (Inl (EricError (shutdown_rc eng (calls w))
                (error_text eng (calls w @ [ShutdownEric]) (shutdown_rc eng (calls w)))),
         self,
         log_call (GetErrorText (shutdown_rc eng (calls w))) (log_call ShutdownEric w))) \<and>
   (initialized self \<and> close eng self w = (Inr (), self', w') \<longrightarrow>
      shutdown_rc eng (calls w) = 0 \<and>
      \<not> initialized self' \<and>
      filter is_shutdown (new_calls w w') = [ShutdownEric] \<and>
      close eng self' w' = (Inr (), self', w')) \<and>
   (initialized self \<and> close eng self w = (Inl e, self', w') \<longrightarrow>
      shutdown_rc eng (calls w) \<noteq> 0 \<and>
      self' = self \<and> filter is_shutdown (new_calls w w') = [ShutdownEric] \<and>
      filter is_shutdown (new_calls w (snd (snd (close eng self' w')))) =
        [ShutdownEric, ShutdownEric])"
proof (intro conjI impI)
  assume "\<not> initialized self"
  then show "close eng self w = (Inr (), self, w)" by (rule close_uninitialized)
next
  assume "initialized self \<and> shutdown_rc eng (calls w) = 0"
  then show "close eng self w =
        (Inr (), self\<lparr>initialized := False\<rparr>,
         log_call (GetErrorText 0) (log_call ShutdownEric w))"
    by (simp add: close_initialized)
next
  assume "initialized self \<and> shutdown_rc eng (calls w) \<noteq> 0"
  then show "close eng self w =
        (Inl (EricError (shutdown_rc eng (calls w))
                (error_text eng (calls w @ [ShutdownEric]) (shutdown_rc eng (calls w)))),
         self,
         log_call (GetErrorText (shutdown_rc eng (calls w))) (log_call ShutdownEric w))"
    by (simp add: close_initialized)
next
  assume a: "initialized self \<and> close eng self w = (Inr (), self', w')"
  then have i: "initialized self" and c: "close eng self w = (Inr (), self', w')" by simp_all
  from c show z: "shutdown_rc eng (calls w) = 0"
    by (auto simp: close_initialized[OF i] split: if_splits)
  from c have s: "self' = self\<lparr>initialized := False\<rparr>"
    and w': "w' = log_call (GetErrorText 0) (log_call ShutdownEric w)"
    by (auto simp: close_initialized[OF i] split: if_splits)
  show n: "\<not> initialized self'" using s by simp
  show "filter is_shutdown (new_calls w w') = [ShutdownEric]"
    using w' by (simp add: new_calls_def)
  show "close eng self' w' = (Inr (), self', w')" using n by (rule close_uninitialized)
next
  assume a: "initialized self \<and> close eng self w = (Inl e, self', w')"
  then have i: "initialized self" and c: "close eng self w = (Inl e, self', w')" by simp_all
  from c show "shutdown_rc eng (calls w) \<noteq> 0"
    by (auto simp: close_initialized[OF i] split: if_splits)
  from c have s: "self' = self"
    and w': "w' = log_call (GetErrorText (shutdown_rc eng (calls w))) (log_call ShutdownEric w)"
    by (auto simp: close_initialized[OF i] split: if_splits)
  show "self' = self" by (rule s)
  show "filter is_shutdown (new_calls w w') = [ShutdownEric]"
    using w' by (simp add: new_calls_def)
  show "filter is_shutdown (new_calls w (snd (snd (close eng self' w')))) =
        [ShutdownEric, ShutdownEric]"
    unfolding s w' by (simp add: close_initialized[OF i] new_calls_def)
qed

theorem close_idempotent_after_success_witness:
  "close engine_ok (client0\<lparr>initialized := False\<rparr>) world0 =
     (Inr (), client0\<lparr>initialized := False\<rparr>, world0) \<and>
   initialized client0 \<and> shutdown_rc engine_ok (calls world0) = 0 \<and>
   close engine_ok client0 world0 =
     (Inr (), client0\<lparr>initialized := False\<rparr>,
      log_call (GetErrorText 0) (log_call ShutdownEric world0)) \<and>
   filter is_shutdown (new_calls world0 (log_call (GetErrorText 0) (log_call ShutdownEric world0)))
     = [ShutdownEric] \<and>
   close engine_ok (client0\<lparr>initialized := False\<rparr>)
       (log_call (GetErrorText 0) (log_call ShutdownEric world0)) =
     (Inr (), client0\<lparr>initialized := False\<rparr>,
      log_call (GetErrorText 0) (log_call ShutdownEric world0)) \<and>
   shutdown_rc engine_stuck (calls world0) = 1 \<and>
   close engine_stuck client0 world0 =
     (Inl (EricError 1 (Some ''error'')), client0,
      log_call (GetErrorText 1) (log_call ShutdownEric world0)) \<and>
   filter is_shutdown (new_calls world0
     (snd (snd (close engine_stuck client0
                  (log_call (GetErrorText 1) (log_call ShutdownEric world0)))))) =
     [ShutdownEric, ShutdownEric]"
proof -
  let ?c1 = "client0\<lparr>initialized := False\<rparr>"
  let ?w1 = "log_call (GetErrorText 0) (log_call ShutdownEric world0)"
  let ?w2 = "log_call (GetErrorText 1) (log_call ShutdownEric world0)"
  have u: "\<not> initialized ?c1" by simp
  have z: "initialized client0 \<and> shutdown_rc engine_ok (calls world0) = 0" by simp
  have nz: "initialized client0 \<and> shutdown_rc engine_stuck (calls world0) \<noteq> 0" by simp
  note ok = close_idempotent_after_success[where eng = engine_ok and self = client0 and w = world0
      and self' = ?c1 and w' = ?w1]
  note st = close_idempotent_after_success[where eng = engine_stuck and self = client0
      and w = world0 and self' = client0 and w' = ?w2 and e = "EricError 1 (Some ''error'')"]
  have 1: "close engine_ok ?c1 world0 = (Inr (), ?c1, world0)"
    using close_idempotent_after_success[where eng = engine_ok and self = ?c1 and w = world0,
        THEN conjunct1] u by (rule mp)
  have c: "close engine_ok client0 world0 = (Inr (), ?c1, ?w1)"
    using ok[THEN conjunct2, THEN conjunct1] z by (rule mp)
  have f: "close engine_stuck client0 world0 = (Inl (EricError 1 (Some ''error'')), client0, ?w2)"
    using st[THEN conjunct2, THEN conjunct2, THEN conjunct1, THEN mp, OF nz] by simp
  have 2: "shutdown_rc engine_ok (calls world0) = 0 \<and> \<not> initialized ?c1 \<and>
           filter is_shutdown (new_calls world0 ?w1) = [ShutdownEric] \<and>
           close engine_ok ?c1 ?w1 = (Inr (), ?c1, ?w1)"
    using ok[THEN conjunct2, THEN conjunct2, THEN conjunct2, THEN conjunct1]
      conjI[OF client0_initialized c] by (rule mp)
  have 3: "shutdown_rc engine_stuck (calls world0) \<noteq> 0 \<and> client0 = client0 \<and>
           filter is_shutdown (new_calls world0 ?w2) = [ShutdownEric] \<and>
           filter is_shutdown (new_calls world0 (snd (snd (close engine_stuck client0 ?w2)))) =
             [ShutdownEric, ShutdownEric]"
    using st[THEN conjunct2, THEN conjunct2, THEN conjunct2, THEN conjunct2]
      conjI[OF client0_initialized f] by (rule mp)
  have s1: "shutdown_rc engine_stuck (calls world0) = 1" by simp
  show ?thesis using 1 2 3 c f z s1 by (intro conjI) simp_all
qed


section \<open>The constructor and the mismatch policy\<close>

lemma lower_samples:
  "lower ''Strict'' = ''strict''" "lower ''warn'' = ''warn''" "lower ''off'' = ''off''"
  by code_simp+

lemma policy_world_strict: "policy_of world_strict = ''strict''"
  by (simp add: policy_of_def world_strict_def world0_def lower_samples)

lemma policy_world_ignore: "policy_of world_ignore = ''off''"
  by (simp add: policy_of_def world_ignore_def world0_def lower_samples)

lemma detect_loop_found:
  "detect_loop parts = Some v \<Longrightarrow> \<exists>nm\<in>set parts. re_search pattern nm = Some v"
proof (induction parts rule: rev_induct)
  case Nil
  then show ?case by (simp add: detect_loop_Nil)
next
  case (snoc x xs)
  then show ?case by (auto simp: detect_loop_snoc split: option.splits)
qed

lemma detect_is_version: "detect_eric_version res home = Some v \<Longrightarrow> is_version v"
  unfolding detect_eric_version_def
  using detect_loop_found search_sound by blast

lemma detect_nonempty: "detect_eric_version res home = Some v \<Longrightarrow> v \<noteq> []"
  using detect_is_version is_version_nonempty by blast

lemma check_expected_report:
  "check_expected policy key ex w = report policy (expected_report key ex) w"
  by (simp add: check_expected_def expected_report_def report_def split: option.splits)

lemma check_detected_report:
  "check_detected policy key det home w = report policy (detected_report key det home) w"
  by (simp add: check_detected_def detected_report_def report_def split: option.splits)

lemma check_supported_report:
  "check_supported policy key w = report policy (supported_report key) w"
  by (simp add: check_supported_def supported_report_def report_def)

lemma report_short:
  "length (expected_report key ex) \<le> 1" "length (detected_report key det home) \<le> 1"
  "length (supported_report key) \<le> 1"
  by (simp_all add: expected_report_def detected_report_def supported_report_def
        split: option.splits)

lemma report_strict:
  "report ''strict'' ms w =
     (case ms of [] \<Rightarrow> (Inr (), w) | m # rest \<Rightarrow> (Inl (EricLibraryLoadError m), w))"
  by (simp add: report_def handle_mismatch_def split: list.splits)

lemma report_warn:
  "length ms \<le> 1 \<Longrightarrow> report ''warn'' ms w = (Inr (), w\<lparr>stdout := stdout w @ ms\<rparr>)"
  by (cases ms) (simp_all add: report_def handle_mismatch_def)

lemma report_ignore:
  "policy \<noteq> ''strict'' \<Longrightarrow> policy \<noteq> ''warn'' \<Longrightarrow> report policy ms w = (Inr (), w)"
  by (cases ms) (simp_all add: report_def handle_mismatch_def)

lemma default_config:
  "VERSION_CONFIGS DEFAULT_ERIC_VERSION =
     Some \<lparr>eric_version = ''41.6.2.0'', druck_param_version = 4, crypto_param_version = 3\<rparr>"
  by (simp add: VERSION_CONFIGS_def DEFAULT_ERIC_VERSION_def SUPPORTED_ERIC_VERSIONS_def)

lemma config_for_value:
  "config_for version_key =
     Inr (case VERSION_CONFIGS version_key of
            Some c \<Rightarrow> c
          | None \<Rightarrow> \<lparr>eric_version = ''41.6.2.0'', druck_param_version = 4,
                      crypto_param_version = 3\<rparr>)"
  by (simp add: config_for_def default_config)

text \<open>The constructor as a chain of the three reports.\<close>

lemma init_chain:
  assumes "home_of w eh = Inr home"
  shows "EricClient_init eh ld ev w =
     and_then (report (policy_of w)
                 (expected_report (version_key_of ev (detect_eric_version (resolve w) home))
                    (environ w ''ERIC_EXPECTED_VERSION'')) w) (\<lambda>_ w1.
     and_then (report (policy_of w)
                 (detected_report (version_key_of ev (detect_eric_version (resolve w) home))
                    (detect_eric_version (resolve w) home) home) w1) (\<lambda>_ w2.
     and_then (report (policy_of w)
                 (supported_report (version_key_of ev (detect_eric_version (resolve w) home))) w2)
       (\<lambda>_ w3.
          (Inr (new_client home (or_else ld (cwd w)) (detect_eric_version (resolve w) home)
                  (case VERSION_CONFIGS (version_key_of ev (detect_eric_version (resolve w) home)) of
                     Some c \<Rightarrow> c
                   | None \<Rightarrow> \<lparr>eric_version = ''41.6.2.0'', druck_param_version = 4,
                               crypto_param_version = 3\<rparr>)), w3))))"
  unfolding EricClient_init_def Let_def check_expected_report check_detected_report
    check_supported_report config_for_value new_client_def
  by (simp only: assms sum.case)

lemma world_stdout_append [simp]:
  "(w::world)\<lparr>stdout := a\<rparr>\<lparr>stdout := b\<rparr> = w\<lparr>stdout := b\<rparr>"
  by simp

lemma init_warn:
  assumes "home_of w eh = Inr home" "policy_of w = ''warn''"
  shows "EricClient_init eh ld ev w =
     (Inr (new_client home (or_else ld (cwd w)) (detect_eric_version (resolve w) home)
             (case VERSION_CONFIGS (version_key_of ev (detect_eric_version (resolve w) home)) of
                Some c \<Rightarrow> c
              | None \<Rightarrow> \<lparr>eric_version = ''41.6.2.0'', druck_param_version = 4,
                          crypto_param_version = 3\<rparr>)),
      w\<lparr>stdout := stdout w @
           mismatches (version_key_of ev (detect_eric_version (resolve w) home))
             (environ w ''ERIC_EXPECTED_VERSION'') (detect_eric_version (resolve w) home) home\<rparr>)"
  by (simp add: init_chain[OF assms(1)] assms(2) report_warn[OF report_short(1)]
        report_warn[OF report_short(2)] report_warn[OF report_short(3)] mismatches_def)

lemma init_ignore:
  assumes "home_of w eh = Inr home" "policy_of w \<noteq> ''strict''" "policy_of w \<noteq> ''warn''"
  shows "EricClient_init eh ld ev w =
     (Inr (new_client home (or_else ld (cwd w)) (detect_eric_version (resolve w) home)
             (case VERSION_CONFIGS (version_key_of ev (detect_eric_version (resolve w) home)) of
                Some c \<Rightarrow> c
              | None \<Rightarrow> \<lparr>eric_version = ''41.6.2.0'', druck_param_version = 4,
                          crypto_param_version = 3\<rparr>)), w)"
  by (simp add: init_chain[OF assms(1)] report_ignore[OF assms(2,3)])

lemma init_strict:
  assumes "home_of w eh = Inr home" "policy_of w = ''strict''"
  shows "EricClient_init eh ld ev w =
     (case mismatches (version_key_of ev (detect_eric_version (resolve w) home))
             (environ w ''ERIC_EXPECTED_VERSION'') (detect_eric_version (resolve w) home) home of
        [] \<Rightarrow>
          (Inr (new_client home (or_else ld (cwd w)) (detect_eric_version (resolve w) home)
             (case VERSION_CONFIGS (version_key_of ev (detect_eric_version (resolve w) home)) of
                Some c \<Rightarrow> c
              | None \<Rightarrow> \<lparr>eric_version = ''41.6.2.0'', druck_param_version = 4,
                          crypto_param_version = 3\<rparr>)), w)
      | m # rest \<Rightarrow> (Inl (EricLibraryLoadError m), w))"
proof -
  let ?key = "version_key_of ev (detect_eric_version (resolve w) home)"
  let ?er = "expected_report ?key (environ w ''ERIC_EXPECTED_VERSION'')"
  let ?dr = "detected_report ?key (detect_eric_version (resolve w) home) home"
  let ?sr = "supported_report ?key"
  show ?thesis
  proof (cases ?er)
    case (Cons m ms)
    then show ?thesis
      by (simp add: init_chain[OF assms(1)] assms(2) report_strict mismatches_def)
  next
    case er: Nil
    show ?thesis
    proof (cases ?dr)
      case (Cons m ms)
      then show ?thesis
        by (simp add: init_chain[OF assms(1)] assms(2) report_strict mismatches_def er)
    next
      case dr: Nil
      show ?thesis
        by (cases ?sr)
           (simp_all add: init_chain[OF assms(1)] assms(2) report_strict mismatches_def er dr)
    qed
  qed
qed

lemma init_strict_raises:
  assumes "home_of w eh = Inr home" "policy_of w = ''strict''"
    "m \<in> set (mismatches (version_key_of ev (detect_eric_version (resolve w) home))
             (environ w ''ERIC_EXPECTED_VERSION'') (detect_eric_version (resolve w) home) home)"
  shows "\<exists>m'. EricClient_init eh ld ev w = (Inl (EricLibraryLoadError m'), w)"
proof (cases "mismatches (version_key_of ev (detect_eric_version (resolve w) home))
             (environ w ''ERIC_EXPECTED_VERSION'') (detect_eric_version (resolve w) home) home")
  case Nil
  with assms(3) show ?thesis by simp
next
  case (Cons a list)
  then show ?thesis by (simp add: init_strict[OF assms(1,2)])
qed

lemma mismatch_members:
  "ex = Some e \<Longrightarrow> e \<noteq> [] \<Longrightarrow> key \<noteq> e \<Longrightarrow> ExpectedMismatch key e \<in> set (mismatches key ex det home)"
  "det = Some d \<Longrightarrow> d \<noteq> [] \<Longrightarrow> d \<noteq> key \<Longrightarrow> DetectedMismatch d home key \<in> set (mismatches key ex det home)"
  "key \<notin> set SUPPORTED_ERIC_VERSIONS \<Longrightarrow>
     NotSupported key SUPPORTED_ERIC_VERSIONS \<in> set (mismatches key ex det home)"
  by (simp_all add: mismatches_def expected_report_def detected_report_def supported_report_def)

lemma version_key_explicit: "v \<noteq> [] \<Longrightarrow> version_key_of (Some v) det = v"
  by (simp add: version_key_of_def or_else_def)

lemma init_strict_expected:
  assumes "home_of w eh = Inr home" "policy_of w = ''strict''"
    "environ w ''ERIC_EXPECTED_VERSION'' = Some e" "e \<noteq> []"
    "version_key_of ev (detect_eric_version (resolve w) home) \<noteq> e"
  shows "EricClient_init eh ld ev w =
           (Inl (EricLibraryLoadError
                   (ExpectedMismatch (version_key_of ev (detect_eric_version (resolve w) home)) e)), w)"
  using assms(3-5)
  by (simp add: init_strict[OF assms(1,2)] mismatches_def expected_report_def)

lemma sample_worlds [simp]:
  "resolve world_strict = (\<lambda>p. p)" "resolve world0 = (\<lambda>p. p)"
  "resolve world_expect = (\<lambda>p. p)" "resolve world_ignore = (\<lambda>p. p)"
  "environ world_strict ''ERIC_EXPECTED_VERSION'' = Some ''40.1.2.0''"
  "environ world_expect ''ERIC_EXPECTED_VERSION'' = Some ''40.1.2.0''"
  "environ world_ignore ''ERIC_EXPECTED_VERSION'' = Some ''40.1.2.0''"
  "environ world0 k = None"
  "cwd world0 = ''/work''" "cwd world_expect = ''/work''" "cwd world_ignore = ''/work''"
  "stdout world_expect = []"
  by (simp_all add: world_strict_def world_expect_def world_ignore_def world0_def)

lemma home_of_given: "h \<noteq> [] \<Longrightarrow> home_of w (Some h) = Inr h"
  by (simp add: home_of_def)

lemma sample_detect [simp]:
  "detect_eric_version (\<lambda>p. p) ''/opt/ERiC-41.6.2.0/Linux-x86_64'' = Some ''41.6.2.0''"
  "detect_eric_version (\<lambda>p. p) ''/opt/eric/Linux-x86_64'' = None"
  by (rule detect_example_parent detect_examples(2))+

lemma sample_keys [simp]:
  "version_key_of None (Some ''41.6.2.0'') = ''41.6.2.0''"
  "version_key_of (Some ''40.1.2.0'') det = ''40.1.2.0''"
  "version_key_of (Some ''39.1.2.0'') det = ''39.1.2.0''"
  "version_key_of None None = ''41.6.2.0''"
  by (simp_all add: version_key_of_def or_else_def DEFAULT_ERIC_VERSION_def
        SUPPORTED_ERIC_VERSIONS_def)

text \<open>
  Claim C4. Under the policy \<^verbatim>\<open>strict\<close> each of the three mismatches makes the
  constructor raise the fatal configuration error (the class \<^verbatim>\<open>EricLibraryLoadError\<close> of
  the code): the explicit identifier, or more generally the chosen one, differing from the
  expected one of the environment; the detected identifier differing from the chosen one;
  the chosen identifier not being supported. The world is returned as it was: no call into
  the engine was made and nothing was printed.
\<close>

theorem strict_policy_raises_on_mismatch:
  "policy_of w = ''strict'' \<and> home_of w eh = Inr home \<and>
   det = detect_eric_version (resolve w) home \<and> key = version_key_of ev det \<longrightarrow>
     (ev = Some v \<and> v \<noteq> [] \<and> environ w ''ERIC_EXPECTED_VERSION'' = Some e \<and> e \<noteq> [] \<and> v \<noteq> e \<longrightarrow>
        EricClient_init eh ld ev w = (Inl (EricLibraryLoadError (ExpectedMismatch v e)), w)) \<and>
     (environ w ''ERIC_EXPECTED_VERSION'' = Some e \<and> e \<noteq> [] \<and> key \<noteq> e \<longrightarrow>
        EricClient_init eh ld ev w = (Inl (EricLibraryLoadError (ExpectedMismatch key e)), w)) \<and>
     (det = Some d \<and> d \<noteq> key \<longrightarrow>
        (\<exists>m. EricClient_init eh ld ev w = (Inl (EricLibraryLoadError m), w))) \<and>
     (key \<notin> set SUPPORTED_ERIC_VERSIONS \<longrightarrow>
        (\<exists>m. EricClient_init eh ld ev w = (Inl (EricLibraryLoadError m), w)))"
proof (intro impI)
  assume a: "policy_of w = ''strict'' \<and> home_of w eh = Inr home \<and>
   det = detect_eric_version (resolve w) home \<and> key = version_key_of ev det"
  then have p: "policy_of w = ''strict''" and h: "home_of w eh = Inr home"
    and det: "det = detect_eric_version (resolve w) home"
    and key: "key = version_key_of ev (detect_eric_version (resolve w) home)" by simp_all
  have 1: "EricClient_init eh ld ev w = (Inl (EricLibraryLoadError (ExpectedMismatch v e)), w)"
    if "ev = Some v \<and> v \<noteq> [] \<and> environ w ''ERIC_EXPECTED_VERSION'' = Some e \<and> e \<noteq> [] \<and> v \<noteq> e"
  proof -
    from that have k: "version_key_of ev (detect_eric_version (resolve w) home) = v"
      by (simp add: version_key_explicit)
    show ?thesis using init_strict_expected[OF h p, of e ev ld] that k by simp
  qed
  have 2: "EricClient_init eh ld ev w = (Inl (EricLibraryLoadError (ExpectedMismatch key e)), w)"
    if "environ w ''ERIC_EXPECTED_VERSION'' = Some e \<and> e \<noteq> [] \<and> key \<noteq> e"
    using init_strict_expected[OF h p, of e ev ld] that key by simp
  have 3: "\<exists>m. EricClient_init eh ld ev w = (Inl (EricLibraryLoadError m), w)"
    if "det = Some d \<and> d \<noteq> key"
  proof -
    from that det have "detect_eric_version (resolve w) home = Some d" by simp
    then have "d \<noteq> []" by (rule detect_nonempty)
    with that have "DetectedMismatch d home key \<in>
        set (mismatches key (environ w ''ERIC_EXPECTED_VERSION'') det home)"
      by (simp add: mismatch_members(2))
    then show ?thesis using init_strict_raises[OF h p, of _ ev ld] key det by simp
  qed
  have 4: "\<exists>m. EricClient_init eh ld ev w = (Inl (EricLibraryLoadError m), w)"
    if "key \<notin> set SUPPORTED_ERIC_VERSIONS"
  proof -
    from that have "NotSupported key SUPPORTED_ERIC_VERSIONS \<in>
        set (mismatches key (environ w ''ERIC_EXPECTED_VERSION'') det home)"
      by (rule mismatch_members(3))
    then show ?thesis using init_strict_raises[OF h p, of _ ev ld] key det by simp
  qed
  from 1 2 3 4 show "(ev = Some v \<and> v \<noteq> [] \<and> environ w ''ERIC_EXPECTED_VERSION'' = Some e \<and> e \<noteq> [] \<and> v \<noteq> e \<longrightarrow>
        EricClient_init eh ld ev w = (Inl (EricLibraryLoadError (ExpectedMismatch v e)), w)) \<and>
     (environ w ''ERIC_EXPECTED_VERSION'' = Some e \<and> e \<noteq> [] \<and> key \<noteq> e \<longrightarrow>
        EricClient_init eh ld ev w = (Inl (EricLibraryLoadError (ExpectedMismatch key e)), w)) \<and>
     (det = Some d \<and> d \<noteq> key \<longrightarrow>
        (\<exists>m. EricClient_init eh ld ev w = (Inl (EricLibraryLoadError m), w))) \<and>
     (key \<notin> set SUPPORTED_ERIC_VERSIONS \<longrightarrow>
        (\<exists>m. EricClient_init eh ld ev w = (Inl (EricLibraryLoadError m), w)))"
    by (intro conjI impI)
qed

theorem strict_policy_raises_on_mismatch_witness:
  "policy_of world_strict = ''strict'' \<and>
   EricClient_init (Some ''/opt/ERiC-41.6.2.0/Linux-x86_64'') None (Some ''39.1.2.0'') world_strict =
     (Inl (EricLibraryLoadError (ExpectedMismatch ''39.1.2.0'' ''40.1.2.0'')), world_strict) \<and>
   EricClient_init (Some ''/opt/ERiC-41.6.2.0/Linux-x86_64'') None None world_strict =
     (Inl (EricLibraryLoadError (ExpectedMismatch ''41.6.2.0'' ''40.1.2.0'')), world_strict) \<and>
   (\<exists>m. EricClient_init (Some ''/opt/ERiC-41.6.2.0/Linux-x86_64'') None (Some ''40.1.2.0'') world_strict =
     (Inl (EricLibraryLoadError m), world_strict)) \<and>
   (\<exists>m. EricClient_init (Some ''/opt/eric/Linux-x86_64'') None (Some ''40.1.2.0'') world_strict =
     (Inl (EricLibraryLoadError m), world_strict))"
proof -
  let ?h1 = "''/opt/ERiC-41.6.2.0/Linux-x86_64''"
  let ?h2 = "''/opt/eric/Linux-x86_64''"
  have h1: "home_of world_strict (Some ?h1) = Inr ?h1" by (rule home_of_given) simp
  have h2: "home_of world_strict (Some ?h2) = Inr ?h2" by (rule home_of_given) simp
  have a: "EricClient_init (Some ?h1) None (Some ''39.1.2.0'') world_strict =
     (Inl (EricLibraryLoadError (ExpectedMismatch ''39.1.2.0'' ''40.1.2.0'')), world_strict)"
    using strict_policy_raises_on_mismatch[where w = world_strict and eh = "Some ?h1"
        and home = ?h1 and det = "Some ''41.6.2.0''" and key = "''39.1.2.0''"
        and ev = "Some ''39.1.2.0''" and v = "''39.1.2.0''" and e = "''40.1.2.0''" and ld = None]
      policy_world_strict h1 by simp
  have b: "EricClient_init (Some ?h1) None None world_strict =
     (Inl (EricLibraryLoadError (ExpectedMismatch ''41.6.2.0'' ''40.1.2.0'')), world_strict)"
    using strict_policy_raises_on_mismatch[where w = world_strict and eh = "Some ?h1"
        and home = ?h1 and det = "Some ''41.6.2.0''" and key = "''41.6.2.0''"
        and ev = None and e = "''40.1.2.0''" and ld = None]
      policy_world_strict h1 by simp
  have c: "\<exists>m. EricClient_init (Some ?h1) None (Some ''40.1.2.0'') world_strict =
     (Inl (EricLibraryLoadError m), world_strict)"
    using strict_policy_raises_on_mismatch[where w = world_strict and eh = "Some ?h1"
        and home = ?h1 and det = "Some ''41.6.2.0''" and key = "''40.1.2.0''"
        and ev = "Some ''40.1.2.0''" and d = "''41.6.2.0''" and ld = None]
      policy_world_strict h1 by simp
  have d: "\<exists>m. EricClient_init (Some ?h2) None (Some ''40.1.2.0'') world_strict =
     (Inl (EricLibraryLoadError m), world_strict)"
    using strict_policy_raises_on_mismatch[where w = world_strict and eh = "Some ?h2"
        and home = ?h2 and det = None and key = "''40.1.2.0''"
        and ev = "Some ''40.1.2.0''" and ld = None]
      policy_world_strict h2 by (simp add: SUPPORTED_ERIC_VERSIONS_def)
  show ?thesis using policy_world_strict a b c d by (intro conjI)
qed

lemma policy_default: "environ w ''ERIC_VERSION_POLICY'' = None \<Longrightarrow> policy_of w = ''warn''"
  by (simp add: policy_of_def lower_samples)

lemma config_unknown [simp]:
  "VERSION_CONFIGS ''39.1.2.0'' = None" "VERSION_CONFIGS ''41.6.2.0'' =
     Some \<lparr>eric_version = ''41.6.2.0'', druck_param_version = 4, crypto_param_version = 3\<rparr>"
  by (simp_all add: VERSION_CONFIGS_def)

lemma policy_unset [simp]:
  "environ world_expect ''ERIC_VERSION_POLICY'' = None"
  by (simp add: world_expect_def world0_def)

lemma init_returns_client:
  assumes "home_of w eh = Inr home" "EricClient_init eh ld ev w = (Inr cl, w')"
  shows "cl = new_client home (or_else ld (cwd w)) (detect_eric_version (resolve w) home)
           (case VERSION_CONFIGS (version_key_of ev (detect_eric_version (resolve w) home)) of
              Some c \<Rightarrow> c
            | None \<Rightarrow> \<lparr>eric_version = ''41.6.2.0'', druck_param_version = 4,
                        crypto_param_version = 3\<rparr>)"
proof (cases "policy_of w = ''strict''")
  case True
  show ?thesis
    using assms(2) unfolding init_strict[OF assms(1) True]
    by (cases "mismatches (version_key_of ev (detect_eric_version (resolve w) home))
             (environ w ''ERIC_EXPECTED_VERSION'') (detect_eric_version (resolve w) home) home")
       auto
next
  case False
  show ?thesis
  proof (cases "policy_of w = ''warn''")
    case True
    show ?thesis using assms(2) unfolding init_warn[OF assms(1) True] by auto
  next
    case warn: False
    show ?thesis using assms(2) unfolding init_ignore[OF assms(1) False warn] by auto
  qed
qed

lemma sample_detect_world0 [simp]:
  "detect_eric_version (resolve world0) ''/opt/ERiC-41.6.2.0/Linux-x86_64'' = Some ''41.6.2.0''"
  "detect_eric_version (resolve world0) ''/opt/eric/Linux-x86_64'' = None"
  by simp_all

lemma policy_ignore: "policy_of world_ignore \<noteq> ''strict''" "policy_of world_ignore \<noteq> ''warn''"
  by (simp_all add: policy_world_ignore)

lemma init_sample:
  "EricClient_init (Some ''/opt/eric/Linux-x86_64'') None (Some ''39.1.2.0'') world_ignore =
     (Inr (new_client ''/opt/eric/Linux-x86_64'' ''/work'' None
            \<lparr>eric_version = ''41.6.2.0'', druck_param_version = 4, crypto_param_version = 3\<rparr>),
      world_ignore)"
proof -
  have h: "home_of world_ignore (Some ''/opt/eric/Linux-x86_64'') = Inr ''/opt/eric/Linux-x86_64''"
    by (rule home_of_given) simp
  show ?thesis
    by (simp add: init_ignore[OF h policy_ignore] or_else_def)
qed





end
